theory Spec2Isabelle
  imports Complex_Main "HOL-Library.Word"
begin

section \<open>Geometry and enumerations used by the text layout\<close>

text \<open>
  The layout code of \<^verbatim>\<open>KoSvgTextShape.cpp\<close> computes with \<^verbatim>\<open>qreal\<close>
  coordinates. They are modelled as real numbers: rounding of the machine type is not
  represented, and the two operations whose result is not a number for some argument
  (\<^verbatim>\<open>fmod\<close> by zero, division by zero) return \<open>None\<close> there.
\<close>

type_synonym QPointF = "real \<times> real"


datatype TextAnchor = AnchorStart | AnchorMiddle | AnchorEnd
datatype Direction = DirectionLeftToRight | DirectionRightToLeft

text \<open>Conversion of a \<^verbatim>\<open>double\<close> to \<^verbatim>\<open>int\<close> in C++ truncates towards zero.\<close>

definition c_trunc :: "real \<Rightarrow> int" where
  "c_trunc d = (if 0 \<le> d then \<lfloor>d\<rfloor> else \<lceil>d\<rceil>)"


section \<open>Per-character results\<close>

datatype BreakType = NoBreak | SoftBreak | HardBreak

datatype LineEdgeBehaviour = NoChange | Collapse | HangBehaviour | ForceHang | ConditionallyHang

datatype FontStyle = StyleNormal | StyleItalic | StyleOblique

text \<open>A rectangle \<^verbatim>\<open>QRectF\<close>: corner, width and height, as Qt stores it.\<close>

record QRectF =
  rx :: real
  ry :: real
  rw :: real
  rh :: real

text \<open>
  A glyph outline \<^verbatim>\<open>QPainterPath\<close> is kept as the list of its element positions,
  which is all the layout stages modelled here read or write of it.
\<close>

type_synonym QPainterPath = "QPointF list"

text \<open>
  \<^verbatim>\<open>struct CharacterResult\<close>. The raster image and the colour layers are left
  out: no function modelled below reads or writes them.
\<close>

record CharacterResult =
  finalPosition :: QPointF
  rotate :: real
  hidden :: bool
  addressable :: bool
  middle :: bool
  anchored_chunk :: bool
  path :: QPainterPath
  boundingBox :: QRectF
  visualIndex :: int
  cssPosition :: QPointF
  advance :: QPointF
  breakType :: BreakType
  lineEnd :: LineEdgeBehaviour
  lineStart :: LineEdgeBehaviour
  justifyBefore :: bool
  justifyAfter :: bool
  isHanging :: bool
  textLengthApplied :: bool
  overflowWrap :: bool
  halfLeading :: real
  ascent :: real
  descent :: real
  fontStyle :: FontStyle
  fontWeight :: int
  anchor :: TextAnchor
  direction :: Direction

section \<open>Placing a character on a text path\<close>



section \<open>Points, rectangles and lines\<close>

text \<open>
  The operations of \<^verbatim>\<open>QPointF\<close>, \<^verbatim>\<open>QRectF\<close> and \<^verbatim>\<open>QLineF\<close> that the line
  engine calls, after their definitions in Qt 5.
\<close>

definition padd :: "QPointF \<Rightarrow> QPointF \<Rightarrow> QPointF" where
  "padd p q = (fst p + fst q, snd p + snd q)"

definition psub :: "QPointF \<Rightarrow> QPointF \<Rightarrow> QPointF" where
  "psub p q = (fst p - fst q, snd p - snd q)"

definition pneg :: "QPointF \<Rightarrow> QPointF" where
  "pneg p = (- fst p, - snd p)"

definition pscale :: "QPointF \<Rightarrow> real \<Rightarrow> QPointF" where
  "pscale p c = (fst p * c, snd p * c)"

definition pnull :: QPointF where
  "pnull = (0, 0)"

definition rectNull :: QRectF where
  "rectNull = \<lparr>rx = 0, ry = 0, rw = 0, rh = 0\<rparr>"

definition rectIsNull :: "QRectF \<Rightarrow> bool" where
  "rectIsNull r = (rw r = 0 \<and> rh r = 0)"

definition rectIsEmpty :: "QRectF \<Rightarrow> bool" where
  "rectIsEmpty r = (rw r \<le> 0 \<or> rh r \<le> 0)"

definition rectTranslated :: "QRectF \<Rightarrow> QPointF \<Rightarrow> QRectF" where
  "rectTranslated r p = r\<lparr>rx := rx r + fst p, ry := ry r + snd p\<rparr>"

definition rectTop :: "QRectF \<Rightarrow> real" where "rectTop r = ry r"
definition rectBottom :: "QRectF \<Rightarrow> real" where "rectBottom r = ry r + rh r"
definition rectLeft :: "QRectF \<Rightarrow> real" where "rectLeft r = rx r"
definition rectRight :: "QRectF \<Rightarrow> real" where "rectRight r = rx r + rw r"

definition rectTopLeft :: "QRectF \<Rightarrow> QPointF" where "rectTopLeft r = (rx r, ry r)"
definition rectTopRight :: "QRectF \<Rightarrow> QPointF" where "rectTopRight r = (rx r + rw r, ry r)"
definition rectBottomRight :: "QRectF \<Rightarrow> QPointF" where
  "rectBottomRight r = (rx r + rw r, ry r + rh r)"

definition rectSetTop :: "QRectF \<Rightarrow> real \<Rightarrow> QRectF" where
  "rectSetTop r pos = (let diff = pos - ry r in r\<lparr>ry := ry r + diff, rh := rh r - diff\<rparr>)"

definition rectSetBottom :: "QRectF \<Rightarrow> real \<Rightarrow> QRectF" where
  "rectSetBottom r pos = r\<lparr>rh := pos - ry r\<rparr>"

definition rectSetLeft :: "QRectF \<Rightarrow> real \<Rightarrow> QRectF" where
  "rectSetLeft r pos = (let diff = pos - rx r in r\<lparr>rx := rx r + diff, rw := rw r - diff\<rparr>)"

definition rectSetRight :: "QRectF \<Rightarrow> real \<Rightarrow> QRectF" where
  "rectSetRight r pos = r\<lparr>rw := pos - rx r\<rparr>"

text \<open>\<^verbatim>\<open>QRectF::operator|\<close>: the bounding rectangle of two rectangles; a null one is ignored.\<close>

definition rectUnited :: "QRectF \<Rightarrow> QRectF \<Rightarrow> QRectF" where
  "rectUnited a r =
     (if rectIsNull a then r
      else if rectIsNull r then a
      else
        (let left0 = (if rw a < 0 then rx a + rw a else rx a);
             right0 = (if rw a < 0 then rx a else rx a + rw a);
             left1 = (if rw r < 0 then min left0 (rx r + rw r) else min left0 (rx r));
             right1 = (if rw r < 0 then max right0 (rx r) else max right0 (rx r + rw r));
             top0 = (if rh a < 0 then ry a + rh a else ry a);
             bottom0 = (if rh a < 0 then ry a else ry a + rh a);
             top1 = (if rh r < 0 then min top0 (ry r + rh r) else min top0 (ry r));
             bottom1 = (if rh r < 0 then max bottom0 (ry r) else max bottom0 (ry r + rh r))
         in \<lparr>rx = left1, ry = top1, rw = right1 - left1, rh = bottom1 - top1\<rparr>))"

record QLineF =
  p1 :: QPointF
  p2 :: QPointF

definition lineNull :: QLineF where
  "lineNull = \<lparr>p1 = (0, 0), p2 = (0, 0)\<rparr>"

definition lineLength :: "QLineF \<Rightarrow> real" where
  "lineLength l = sqrt ((fst (p2 l) - fst (p1 l)) * (fst (p2 l) - fst (p1 l))
                      + (snd (p2 l) - snd (p1 l)) * (snd (p2 l) - snd (p1 l)))"

definition lineCenter :: "QLineF \<Rightarrow> QPointF" where
  "lineCenter l = (0.5 * fst (p1 l) + 0.5 * fst (p2 l), 0.5 * snd (p1 l) + 0.5 * snd (p2 l))"

text \<open>
  \<^verbatim>\<open>qRound\<close> of Qt 5:
  \<^verbatim>\<open>d >= 0.0 ? int(d + 0.5) : int(d - double(int(d-1)) + 0.5) + int(d-1)\<close>.
\<close>

definition qRound :: "real \<Rightarrow> int" where
  "qRound d = (if 0 \<le> d then c_trunc (d + 0.5)
               else c_trunc (d - of_int (c_trunc (d - 1)) + 0.5) + c_trunc (d - 1))"

text \<open>
  A \<^verbatim>\<open>QMap<int, int>\<close> is a list of pairs in ascending key order; inserting at a key
  that is present replaces its value.
\<close>

fun qmapInsert :: "int \<Rightarrow> 'v \<Rightarrow> (int \<times> 'v) list \<Rightarrow> (int \<times> 'v) list" where
  "qmapInsert k v [] = [(k, v)]"
| "qmapInsert k v ((k', v') # m) =
     (if k < k' then (k, v) # (k', v') # m
      else if k = k' then (k, v) # m
      else (k', v') # qmapInsert k v m)"

definition qmapValues :: "(int \<times> 'v) list \<Rightarrow> 'v list" where
  "qmapValues m = map snd m"

definition qmapKeys :: "(int \<times> 'v) list \<Rightarrow> int list" where
  "qmapKeys m = map fst m"

section \<open>Line boxes\<close>

datatype WritingMode = HorizontalTB | VerticalRL | VerticalLR

text \<open>
  \<^verbatim>\<open>struct LineChunk\<close>. The fields \<^verbatim>\<open>length\<close> and \<^verbatim>\<open>boundingBox\<close> are
  \<open>length_chunk\<close> and \<open>chunkBoundingBox\<close> here. Character indices are natural numbers.
\<close>

record LineChunk =
  length_chunk :: QLineF
  chunkIndices :: "nat list"
  chunkBoundingBox :: QRectF

text \<open>A default-constructed chunk, which \<^verbatim>\<open>QVector::value\<close> returns out of range.\<close>

definition LineChunk_default :: LineChunk where
  "LineChunk_default = \<lparr>length_chunk = lineNull, chunkIndices = [], chunkBoundingBox = rectNull\<rparr>"

record LineBox =
  chunks :: "LineChunk list"
  currentChunk :: int
  expectedLineTop :: real
  actualLineTop :: real
  actualLineBottom :: real
  baselineTop :: QPointF
  baselineBottom :: QPointF
  textIndent :: QPointF
  firstLine :: bool
  lastLine :: bool
  lineFinalized :: bool
  justifyLine :: bool

text \<open>The three constructors of \<^verbatim>\<open>LineBox\<close>.\<close>

definition LineBox_default :: LineBox where
  "LineBox_default = \<lparr>chunks = [], currentChunk = - 1, expectedLineTop = 0, actualLineTop = 0,
     actualLineBottom = 0, baselineTop = pnull, baselineBottom = pnull, textIndent = pnull,
     firstLine = False, lastLine = False, lineFinalized = False, justifyLine = False\<rparr>"

definition LineBox_startEnd :: "QPointF \<Rightarrow> QPointF \<Rightarrow> LineBox" where
  "LineBox_startEnd start end' =
     LineBox_default\<lparr>chunks := [LineChunk_default\<lparr>length_chunk := \<lparr>p1 = start, p2 = end'\<rparr>\<rparr>],
                      currentChunk := 0\<rparr>"

definition LineBox_lines :: "QLineF list \<Rightarrow> bool \<Rightarrow> QPointF \<Rightarrow> LineBox" where
  "LineBox_lines lineWidths ltr indent =
     (if ltr then
        LineBox_default\<lparr>textIndent := indent,
          chunks := map (\<lambda>line. LineChunk_default\<lparr>length_chunk := line\<rparr>) lineWidths,
          currentChunk := (if lineWidths = [] then - 1 else 0)\<rparr>
      else
        LineBox_default\<lparr>textIndent := indent,
          chunks := rev (map (\<lambda>line. LineChunk_default\<lparr>length_chunk := \<lparr>p1 = p2 line, p2 = p1 line\<rparr>\<rparr>)
                          lineWidths),
          currentChunk := (if lineWidths = [] then - 1 else 0)\<rparr>)"

text \<open>\<^verbatim>\<open>LineBox::chunk\<close> reads with \<^verbatim>\<open>QVector::value\<close>.\<close>

definition chunk :: "LineBox \<Rightarrow> LineChunk" where
  "chunk l = (if 0 \<le> currentChunk l \<and> nat (currentChunk l) < length (chunks l)
              then chunks l ! nat (currentChunk l) else LineChunk_default)"

definition setCurrentChunk :: "LineBox \<Rightarrow> LineChunk \<Rightarrow> LineBox" where
  "setCurrentChunk l c =
     (let cc = max (currentChunk l) 0
      in if nat cc < length (chunks l)
         then l\<lparr>currentChunk := cc, chunks := (chunks l)[nat cc := c]\<rparr>
         else l\<lparr>currentChunk := cc, chunks := chunks l @ [c]\<rparr>)"

text \<open>
  \<^verbatim>\<open>LineBox::clearAndAdjust\<close> and \<^verbatim>\<open>LineBox::isEmpty\<close> read
  \<^verbatim>\<open>chunks.at(currentChunk)\<close>, which is only defined in range. Every call modelled
  below is made on a line with \<open>0 \<le> currentChunk < length chunks\<close> (lemma
  \<open>breakLines_body_oneChunk\<close> for the simple strategy).
\<close>

definition clearAndAdjust :: "LineBox \<Rightarrow> bool \<Rightarrow> QPointF \<Rightarrow> QPointF \<Rightarrow> LineBox" where
  "clearAndAdjust l isHorizontal current indent =
     (let len = length_chunk (chunks l ! nat (currentChunk l));
          len' = (if isHorizontal
                  then \<lparr>p1 = (fst (p1 len), snd current), p2 = (fst (p2 len), snd current)\<rparr>
                  else \<lparr>p1 = (fst current, snd (p1 len)), p2 = (fst current, snd (p2 len))\<rparr>)
      in l\<lparr>actualLineBottom := 0, actualLineTop := 0, textIndent := indent,
           chunks := [LineChunk_default\<lparr>length_chunk := len'\<rparr>], currentChunk := 0,
           firstLine := False\<rparr>)"

definition isEmpty :: "LineBox \<Rightarrow> bool" where
  "isEmpty l = (if chunks l = [] then True
                else chunkIndices (chunks l ! nat (currentChunk l)) = [])"

fun firstChunkForPos :: "QPointF \<Rightarrow> bool \<Rightarrow> int \<Rightarrow> LineChunk list \<Rightarrow> int option" where
  "firstChunkForPos pos isHorizontal i [] = None"
| "firstChunkForPos pos isHorizontal i (c # cs) =
     (let a = p1 (length_chunk c); b = p2 (length_chunk c)
      in if isHorizontal then
           (if fst pos < max (fst a) (fst b) \<and> fst pos \<ge> min (fst a) (fst b) then Some i
            else firstChunkForPos pos isHorizontal (i + 1) cs)
         else
           (if snd pos < max (snd a) (snd b) \<and> snd pos \<ge> min (snd a) (snd b) then Some i
            else firstChunkForPos pos isHorizontal (i + 1) cs))"

definition setCurrentChunkForPos :: "LineBox \<Rightarrow> QPointF \<Rightarrow> bool \<Rightarrow> LineBox" where
  "setCurrentChunkForPos l pos isHorizontal =
     (case firstChunkForPos pos isHorizontal 0 (chunks l) of
        None \<Rightarrow> l
      | Some i \<Rightarrow> l\<lparr>currentChunk := i\<rparr>)"

section \<open>The state of the line engine\<close>

text \<open>
  The variables that \<^verbatim>\<open>breakLines\<close> and \<^verbatim>\<open>flowTextInShapes\<close> share and pass by
  reference to \<^verbatim>\<open>addWordToLine\<close> and \<^verbatim>\<open>finalizeLine\<close>.
\<close>

record LayoutState =
  result :: "CharacterResult list"
  currentPos :: QPointF
  wordIndices :: "nat list"
  wordAdvance :: QPointF
  currentLine :: LineBox
  lineOffset :: QPointF
  lineBoxes :: "LineBox list"

subsection \<open>addWordToLine\<close>

text \<open>
  The body of the loop of \<^verbatim>\<open>addWordToLine\<close> over the word, on the variables
  \<^verbatim>\<open>result\<close>, \<^verbatim>\<open>currentPos\<close>, \<^verbatim>\<open>lineAdvance\<close>, \<^verbatim>\<open>currentChunk\<close> and
  \<^verbatim>\<open>currentLine\<close>; \<open>first\<close> is \<^verbatim>\<open>wordIndices.first()\<close>. The indices of a word have
  all been read with \<^verbatim>\<open>result.at\<close> by the caller, so they are in range.
\<close>

type_synonym WordLoop = "CharacterResult list \<times> QPointF \<times> QPointF \<times> LineChunk \<times> LineBox"

definition placeChar :: "nat \<Rightarrow> CharacterResult \<Rightarrow> WordLoop \<Rightarrow> WordLoop" where
  "placeChar j cr s =
     (case s of (res, pos, lineAdvance, ch, line) \<Rightarrow>
        (let cr' = cr\<lparr>cssPosition := pos\<rparr>;
             pos' = padd pos (advance cr')
         in (res[j := cr'], pos', pos',
             ch\<lparr>chunkBoundingBox :=
                  rectUnited (chunkBoundingBox ch) (rectTranslated (boundingBox cr') (cssPosition cr'))\<rparr>,
             line\<lparr>actualLineTop := max \<bar>ascent cr' - halfLeading cr'\<bar> (actualLineTop line),
                  actualLineBottom := max \<bar>descent cr' + halfLeading cr'\<bar> (actualLineBottom line)\<rparr>)))"

definition addWordStep :: "bool \<Rightarrow> nat \<Rightarrow> nat \<Rightarrow> WordLoop \<Rightarrow> WordLoop" where
  "addWordStep ltr first j s =
     (case s of (res, pos, lineAdvance, ch, line) \<Rightarrow>
        (let cr = res ! j
         in if rectIsEmpty (chunkBoundingBox ch) \<and> j = first then
              (if lineStart (res ! j) = Collapse then
                 (res[j := (res ! j)\<lparr>addressable := False, hidden := True\<rparr>], pos, lineAdvance, ch, line)
               else
                 (let cr1 = cr\<lparr>anchored_chunk := True\<rparr>;
                      hang = (lineStart (res ! j) = HangBehaviour \<and> firstLine line);
                      pos1 = (if hang then (if ltr then psub pos (advance cr1) else padd pos (advance cr1))
                              else pos);
                      cr2 = (if hang then cr1\<lparr>isHanging := True\<rparr> else cr1)
                  in placeChar j cr2 (res, pos1, lineAdvance, ch, line)))
            else placeChar j cr (res, pos, lineAdvance, ch, line)))"

text \<open>
  \<^verbatim>\<open>addWordToLine\<close> for a word \<open>w\<close>; the caller's word variable, which the source
  clears at the end, is reset by \<open>addWordToLine\<close> below and by the overflow loop.
\<close>

definition addWord :: "bool \<Rightarrow> nat list \<Rightarrow> 'a LayoutState_scheme \<Rightarrow> 'a LayoutState_scheme" where
  "addWord ltr w st =
     (case fold (addWordStep ltr (hd w)) w
             (result st, currentPos st, currentPos st, chunk (currentLine st), currentLine st) of
        (res, pos, lineAdvance, ch, line) \<Rightarrow>
          st\<lparr>result := res, currentPos := lineAdvance,
             currentLine := setCurrentChunk line (ch\<lparr>chunkIndices := chunkIndices ch @ w\<rparr>)\<rparr>)"

definition addWordToLine :: "bool \<Rightarrow> 'a LayoutState_scheme \<Rightarrow> 'a LayoutState_scheme" where
  "addWordToLine ltr st = (addWord ltr (wordIndices st) st)\<lparr>wordIndices := []\<rparr>"

subsection \<open>lineHeightOffset\<close>

text \<open>Moving the characters of a list of indices by \<open>d\<close>, final position following.\<close>

definition moveChar :: "QPointF \<Rightarrow> nat \<Rightarrow> CharacterResult list \<Rightarrow> CharacterResult list" where
  "moveChar d j res =
     res[j := (res ! j)\<lparr>cssPosition := padd (cssPosition (res ! j)) d,
                        finalPosition := padd (cssPosition (res ! j)) d\<rparr>]"

definition allIndices :: "LineBox \<Rightarrow> nat list" where
  "allIndices l = concat (map chunkIndices (chunks l))"

text \<open>
  \<^verbatim>\<open>lineHeightOffset\<close> returns the offset and updates \<^verbatim>\<open>result\<close> and
  \<^verbatim>\<open>currentLine\<close>. Its loops translate copies of the chunks, which are dropped.
\<close>

definition lineHeightOffset ::
  "WritingMode \<Rightarrow> CharacterResult list \<Rightarrow> LineBox \<Rightarrow> bool \<Rightarrow> QPointF \<times> CharacterResult list \<times> LineBox" where
  "lineHeightOffset writingMode res line0 firstLine' =
     (if chunks line0 = [] then (pnull, res, line0)
      else
        (let line1 =
               (if length (chunks line0) = 1 \<and> actualLineTop line0 = 0 \<and> actualLineBottom line0 = 0
                then (let ci = chunkIndices (chunks line0 ! 0)
                      in if length ci > 0
                         then (let cr = res ! hd ci
                               in line0\<lparr>actualLineTop := max \<bar>ascent cr - halfLeading cr\<bar> (actualLineTop line0),
                                        actualLineBottom :=
                                          max \<bar>descent cr + halfLeading cr\<bar> (actualLineBottom line0)\<rparr>)
                         else line0)
                else line0);
             expectedTop = max (expectedLineTop line1) (actualLineTop line1);
             lineTop = (if writingMode = HorizontalTB then (0, actualLineTop line1)
                        else if writingMode = VerticalLR then (actualLineTop line1, 0)
                        else (- actualLineTop line1, 0));
             lineBottom = (if writingMode = HorizontalTB then (0, actualLineBottom line1)
                           else if writingMode = VerticalLR then (actualLineBottom line1, 0)
                           else (- actualLineBottom line1, 0));
             correction0 = (if writingMode = HorizontalTB then (0, expectedTop)
                            else if writingMode = VerticalLR then (expectedTop, 0)
                            else (- expectedTop, 0));
             line2 = (if writingMode = HorizontalTB
                      then line1\<lparr>baselineTop := pneg lineTop, baselineBottom := lineBottom\<rparr>
                      else line1\<lparr>baselineTop := lineTop, baselineBottom := pneg lineBottom\<rparr>);
             returnDescent = firstLine';
             correctionOffset = psub correction0 lineTop
         in if \<not> returnDescent
            then (padd lineTop lineBottom, fold (moveChar lineTop) (allIndices line2) res, line2)
            else (psub lineBottom correctionOffset,
                  fold (moveChar (pneg correctionOffset)) (allIndices line2) res, line2)))"

subsection \<open>handleCollapseAndHang\<close>

definition hangAt :: "QPointF \<Rightarrow> bool \<Rightarrow> nat \<Rightarrow> CharacterResult list \<Rightarrow> CharacterResult list" where
  "hangAt endPos ltr i res =
     (let pos = (if \<not> ltr then psub endPos (advance (res ! i)) else endPos)
      in res[i := (res ! i)\<lparr>cssPosition := pos, finalPosition := pos, isHanging := True\<rparr>])"

text \<open>The loop runs from the back of the chunk and stops at the first character that does not collapse.\<close>

fun collapseHangLoop ::
  "QPointF \<Rightarrow> bool \<Rightarrow> bool \<Rightarrow> bool \<Rightarrow> nat list \<Rightarrow> CharacterResult list \<Rightarrow> CharacterResult list" where
  "collapseHangLoop endPos inlineSize' ltr atEnd [] res = res"
| "collapseHangLoop endPos inlineSize' ltr atEnd (lastIndex # before) res =
     (let res1 =
            (if lineEnd (res ! lastIndex) = Collapse
             then res[lastIndex := (res ! lastIndex)\<lparr>addressable := False, hidden := True\<rparr>]
             else if lineEnd (res ! lastIndex) = ForceHang \<and> inlineSize'
             then hangAt endPos ltr lastIndex res
             else if lineEnd (res ! lastIndex) = HangBehaviour \<and> inlineSize' \<and> atEnd
             then hangAt endPos ltr lastIndex res
             else res)
      in if lineEnd (res1 ! lastIndex) \<noteq> Collapse then res1
         else collapseHangLoop endPos inlineSize' ltr atEnd before res1)"

definition handleCollapseAndHang ::
  "CharacterResult list \<Rightarrow> LineChunk \<Rightarrow> bool \<Rightarrow> bool \<Rightarrow> bool \<Rightarrow> CharacterResult list" where
  "handleCollapseAndHang res ch inlineSize' ltr atEnd =
     collapseHangLoop (p2 (length_chunk ch)) inlineSize' ltr atEnd (rev (chunkIndices ch)) res"

subsection \<open>applyInlineSizeAnchoring\<close>

definition inlinePart :: "bool \<Rightarrow> QPointF \<Rightarrow> real" where
  "inlinePart isHorizontal p = (if isHorizontal then fst p else snd p)"

definition extentStep ::
  "CharacterResult list \<Rightarrow> bool \<Rightarrow> nat \<Rightarrow> nat \<Rightarrow> real \<times> real \<Rightarrow> real \<times> real" where
  "extentStep res isHorizontal first i ab =
     (if \<not> addressable (res ! i) \<or> isHanging (res ! i) then ab
      else
        (let pos = inlinePart isHorizontal (finalPosition (res ! i));
             adv = inlinePart isHorizontal (advance (res ! i))
         in if i = first then (min pos (pos + adv), max pos (pos + adv))
            else (min (fst ab) (min pos (pos + adv)), max (snd ab) (max pos (pos + adv)))))"

definition anchorChar ::
  "QPointF \<Rightarrow> QPointF \<Rightarrow> QPointF \<Rightarrow> bool \<Rightarrow> nat \<Rightarrow> CharacterResult list \<Rightarrow> CharacterResult list" where
  "anchorChar shiftP aStartPos aEndPos ltr j res =
     (if \<not> isHanging (res ! j) then
        res[j := (res ! j)\<lparr>cssPosition := padd (cssPosition (res ! j)) shiftP,
                           finalPosition := padd (cssPosition (res ! j)) shiftP\<rparr>]
      else if anchored_chunk (res ! j) then
        (let shift = (if ltr then psub aStartPos (advance (res ! j)) else aStartPos)
         in res[j := (res ! j)\<lparr>cssPosition := shift, finalPosition := shift\<rparr>])
      else if lineEnd (res ! j) \<noteq> NoChange then
        (let shift = (if ltr then aEndPos else psub aEndPos (advance (res ! j)))
         in res[j := (res ! j)\<lparr>cssPosition := shift, finalPosition := shift\<rparr>])
      else res)"

definition applyInlineSizeAnchoring ::
  "CharacterResult list \<Rightarrow> LineChunk \<Rightarrow> TextAnchor \<Rightarrow> QPointF \<Rightarrow> bool \<Rightarrow> bool \<Rightarrow> QPointF
     \<Rightarrow> CharacterResult list" where
  "applyInlineSizeAnchoring res ch anchor' anchorPoint ltr isHorizontal textIndent' =
     (let lineIndices = chunkIndices ch;
          startPos = anchorPoint;
          shift0 = inlinePart isHorizontal startPos;
          aStartPos0 = p1 (length_chunk ch);
          inlineWidth = psub aStartPos0 (p2 (length_chunk ch));
          aEndPos0 = psub aStartPos0 inlineWidth;
          ab0 = fold (extentStep res isHorizontal (hd lineIndices)) lineIndices (0, 0);
          indent = inlinePart isHorizontal textIndent';
          a = (if anchor' = AnchorStart \<and> ltr then fst ab0 - indent else fst ab0);
          b = (if anchor' = AnchorStart \<and> \<not> ltr then snd ab0 + indent else snd ab0);
          aEndPos1 = (if anchor' = AnchorEnd then aStartPos0 else aEndPos0);
          aStartPos1 = (if anchor' = AnchorEnd then padd aStartPos0 inlineWidth else aStartPos0);
          startSide = ((anchor' = AnchorStart \<and> ltr) \<or> (anchor' = AnchorEnd \<and> \<not> ltr));
          endSide = ((anchor' = AnchorEnd \<and> ltr) \<or> (anchor' = AnchorStart \<and> \<not> ltr));
          aEndPos = (if startSide \<or> endSide then aEndPos1 else pscale (padd startPos aEndPos1) 0.5);
          aStartPos = (if startSide \<or> endSide then aStartPos1 else psub startPos aEndPos);
          shift = (if startSide then shift0 - a
                   else if endSide then shift0 - b
                   else shift0 - ((a + b) * 0.5));
          shiftP = (if isHorizontal then (shift, 0) else (0, shift))
      in fold (anchorChar shiftP aStartPos aEndPos ltr) lineIndices res)"

subsection \<open>finalizeLine\<close>

definition justificationStep ::
  "CharacterResult list \<Rightarrow> nat list \<Rightarrow> nat \<Rightarrow> nat \<Rightarrow> nat" where
  "justificationStep res vals j n =
     (if \<not> addressable (res ! j) \<or> isHanging (res ! j) then n
      else
        (let n1 = (if justifyBefore (res ! j) \<and> j \<noteq> hd vals then n + 1 else n)
         in if justifyAfter (res ! j) \<and> j \<noteq> last vals then n1 + 1 else n1))"

definition positionStep ::
  "QPointF \<Rightarrow> nat \<Rightarrow> CharacterResult list \<times> QPointF \<Rightarrow> CharacterResult list \<times> QPointF" where
  "positionStep justifyOffset j s =
     (case s of (res, pos) \<Rightarrow>
        (if \<not> addressable (res ! j) \<or> isHanging (res ! j) then (res, pos)
         else
           (let pos1 = (if justifyBefore (res ! j) then padd pos justifyOffset else pos);
                res1 = res[j := (res ! j)\<lparr>cssPosition := pos1, finalPosition := pos1\<rparr>];
                pos2 = padd pos1 (advance (res1 ! j));
                pos3 = (if justifyAfter (res1 ! j) then padd pos2 justifyOffset else pos2)
            in (res1, pos3))))"

text \<open>The body of the loop of \<^verbatim>\<open>finalizeLine\<close> over the chunks of the line.\<close>

definition finalizeChunk ::
  "LineBox \<Rightarrow> QPointF \<Rightarrow> TextAnchor \<Rightarrow> bool \<Rightarrow> bool \<Rightarrow> bool \<Rightarrow> bool \<Rightarrow> LineChunk
     \<Rightarrow> CharacterResult list \<times> QPointF \<Rightarrow> CharacterResult list \<times> QPointF" where
  "finalizeChunk line lineOffset' anchor' isHorizontal ltr inlineSize' textInShape ch s =
     (case s of (res0, pos0) \<Rightarrow>
        (let visualToLogical = fold (\<lambda>j m. qmapInsert (visualIndex (res0 ! j)) j m) (chunkIndices ch) [];
             vals = qmapValues visualToLogical;
             res1 = handleCollapseAndHang res0 ch inlineSize' ltr (lastLine line);
             justificationCount = (if justifyLine line then fold (justificationStep res1 vals) vals 0 else 0);
             justifyOffset =
               (if justifyLine line \<and> justificationCount > 0 then
                  (if isHorizontal
                   then ((lineLength (length_chunk ch) - rw (chunkBoundingBox ch)) / real justificationCount, 0)
                   else (0, (lineLength (length_chunk ch) - rh (chunkBoundingBox ch)) / real justificationCount))
                else pnull)
         in case fold (positionStep justifyOffset) vals (res1, lineOffset') of (res2, pos2) \<Rightarrow>
              (if inlineSize' then
                 (let anchorPoint =
                        (if textInShape \<and> anchor' = AnchorMiddle then lineCenter (length_chunk ch)
                         else if textInShape \<and> anchor' = AnchorEnd then p2 (length_chunk ch)
                         else p1 (length_chunk ch))
                  in (applyInlineSizeAnchoring res2 ch anchor' anchorPoint ltr isHorizontal (textIndent line),
                      pos2))
               else (res2, pos2))))"

definition finalizeLine ::
  "TextAnchor \<Rightarrow> WritingMode \<Rightarrow> bool \<Rightarrow> bool \<Rightarrow> bool \<Rightarrow> 'a LayoutState_scheme \<Rightarrow> 'a LayoutState_scheme" where
  "finalizeLine anchor' writingMode ltr inlineSize' textInShape st =
     (let isHorizontal = (writingMode = HorizontalTB);
          firstLine' = (if textInShape then True else firstLine (currentLine st))
      in case fold (finalizeChunk (currentLine st) (lineOffset st) anchor' isHorizontal ltr inlineSize' textInShape)
                   (chunks (currentLine st)) (result st, currentPos st) of
           (res1, pos1) \<Rightarrow>
             (case lineHeightOffset writingMode res1 (currentLine st) firstLine' of
                (offset, res2, line2) \<Rightarrow>
                  st\<lparr>result := res2, currentLine := line2,
                     lineOffset := padd (lineOffset st) offset,
                     currentPos := padd (lineOffset st) offset\<rparr>))"

section \<open>Simple line breaking\<close>

text \<open>
  The values \<^verbatim>\<open>breakLines\<close> reads from \<^verbatim>\<open>KoSvgTextProperties\<close>:
  \<^verbatim>\<open>KoSvgText::AutoValue\<close> for \<^verbatim>\<open>inline-size\<close> and
  \<^verbatim>\<open>KoSvgText::TextIndentInfo\<close> for \<^verbatim>\<open>text-indent\<close>.
\<close>

record AutoValue =
  isAuto :: bool
  customValue :: real

record TextIndentInfo =
  indentValue :: real
  isPercentage :: bool
  hanging :: bool
  eachLine :: bool

record TextProperties =
  writingMode :: WritingMode
  textDirection :: Direction
  inlineSize :: AutoValue
  textAnchor :: TextAnchor
  textIndentInfo :: TextIndentInfo

definition isLtr :: "'a TextProperties_scheme \<Rightarrow> bool" where
  "isLtr P = (textDirection P = DirectionLeftToRight)"

definition isHorizontalMode :: "'a TextProperties_scheme \<Rightarrow> bool" where
  "isHorizontalMode P = (writingMode P = HorizontalTB)"

text \<open>
  The local \<^verbatim>\<open>textIndent\<close> of \<^verbatim>\<open>breakLines\<close>. The source multiplies the still
  null point by the inline size for a percentage and then overwrites it with the value.
\<close>

definition breakLines_textIndent :: "'a TextProperties_scheme \<Rightarrow> QPointF" where
  "breakLines_textIndent P =
     (if \<not> isAuto (inlineSize P) then
        (let textIndent0 = (if isPercentage (textIndentInfo P)
                            then pscale pnull (customValue (inlineSize P)) else pnull)
         in if isHorizontalMode P then (indentValue (textIndentInfo P), 0)
            else (0, indentValue (textIndentInfo P)))
      else pnull)"

definition breakLines_endPos :: "'a TextProperties_scheme \<Rightarrow> QPointF \<Rightarrow> QPointF" where
  "breakLines_endPos P startPos =
     (if \<not> isAuto (inlineSize P) then
        (if isHorizontalMode P then
           (if isLtr P then (fst startPos + customValue (inlineSize P), 0)
            else (fst startPos - customValue (inlineSize P), 0))
         else
           (if isLtr P then (0, snd startPos + customValue (inlineSize P))
            else (0, snd startPos - customValue (inlineSize P))))
      else pnull)"

text \<open>The state before the loop over the characters.\<close>

definition breakLines_init :: "'a TextProperties_scheme \<Rightarrow> CharacterResult list \<Rightarrow> QPointF \<Rightarrow> LayoutState" where
  "breakLines_init P res startPos =
     (let line0 = (LineBox_startEnd startPos (breakLines_endPos P startPos))\<lparr>firstLine := True\<rparr>;
          indentFirst = (\<not> hanging (textIndentInfo P) \<and> \<not> isAuto (inlineSize P));
          line1 = (if indentFirst then line0\<lparr>textIndent := breakLines_textIndent P\<rparr> else line0)
      in \<lparr>result = res,
          currentPos = (if indentFirst then padd startPos (textIndent line1) else startPos),
          wordIndices = [], wordAdvance = pnull, currentLine = line1, lineOffset = startPos,
          lineBoxes = []\<rparr>)"

text \<open>
  The statements \<^verbatim>\<open>finalizeLine(...); lineBoxes.append(currentLine);
  currentLine.clearAndAdjust(isHorizontal, lineOffset, indent);
  if (!inlineSize.isAuto) currentPos += currentLine.textIndent;\<close>,
  which \<^verbatim>\<open>breakLines\<close> runs at a soft break, inside the overflow loop and at a hard break.
\<close>

definition finalizeAppend :: "'a TextProperties_scheme \<Rightarrow> LayoutState \<Rightarrow> LayoutState" where
  "finalizeAppend P st =
     (let st1 = finalizeLine (textAnchor P) (writingMode P) (isLtr P) (\<not> isAuto (inlineSize P)) False st
      in st1\<lparr>lineBoxes := lineBoxes st1 @ [currentLine st1]\<rparr>)"

definition startNextLine :: "'a TextProperties_scheme \<Rightarrow> QPointF \<Rightarrow> LayoutState \<Rightarrow> LayoutState" where
  "startNextLine P indent st =
     (let line = clearAndAdjust (currentLine st) (isHorizontalMode P) (lineOffset st) indent
      in st\<lparr>currentLine := line,
            currentPos := (if \<not> isAuto (inlineSize P) then padd (currentPos st) (textIndent line)
                           else currentPos st)\<rparr>)"

definition softIndent :: "'a TextProperties_scheme \<Rightarrow> QPointF" where
  "softIndent P = (if hanging (textIndentInfo P) then breakLines_textIndent P else pnull)"

definition hardIndent :: "'a TextProperties_scheme \<Rightarrow> QPointF" where
  "hardIndent P =
     (let indentLine = (if hanging (textIndentInfo P) then False else eachLine (textIndentInfo P))
      in if indentLine then breakLines_textIndent P else pnull)"

text \<open>
  The body of the loop that splits an over-long word when \<^verbatim>\<open>overflow-wrap\<close> is
  set, on the state and the local \<^verbatim>\<open>partialWord\<close>; \<^verbatim>\<open>wordAdvance\<close> is the
  field of the state.
\<close>

definition overflowStep ::
  "'a TextProperties_scheme \<Rightarrow> nat \<Rightarrow> LayoutState \<times> nat list \<Rightarrow> LayoutState \<times> nat list" where
  "overflowStep P i s =
     (case s of (st, partialWord) \<Rightarrow>
        (let wordAdvance1 = padd (wordAdvance st) (advance (result st ! i));
             wordLength = inlinePart (isHorizontalMode P) wordAdvance1
         in if wordLength \<le> customValue (inlineSize P)
            then (st\<lparr>wordAdvance := wordAdvance1\<rparr>, partialWord @ [i])
            else
              (let st1 = addWord (isLtr P) partialWord (st\<lparr>wordAdvance := wordAdvance1\<rparr>);
                   st2 = startNextLine P (softIndent P) (finalizeAppend P st1)
               in (st2\<lparr>wordAdvance := advance (result st2 ! i)\<rparr>, [i]))))"

text \<open>
  One pass of the loop over \<^verbatim>\<open>logicalToVisual.keys()\<close> for an addressable character,
  in the four steps of the source. \<open>charResult\<close> is the copy taken at the top of the pass.
\<close>

definition collectChar :: "nat \<Rightarrow> bool \<Rightarrow> CharacterResult \<Rightarrow> LayoutState \<Rightarrow> LayoutState" where
  "collectChar index isLast charResult st =
     (let doNotCountAdvance =
            (lineEnd charResult \<noteq> NoChange \<and> \<not> (isEmpty (currentLine st) \<and> wordIndices st = []));
          wordAdvance1 =
            (if \<not> doNotCountAdvance
             then (if wordIndices st = [] then advance charResult
                   else padd (wordAdvance st) (advance charResult))
             else wordAdvance st)
      in st\<lparr>wordAdvance := wordAdvance1, wordIndices := wordIndices st @ [index],
            currentLine := (currentLine st)\<lparr>lastLine := isLast\<rparr>\<rparr>)"

text \<open>Lines 2062 to 2077: decide on a soft break or add the word. Returns \<^verbatim>\<open>softBreak\<close> too.\<close>

definition wordOrBreak ::
  "'a TextProperties_scheme \<Rightarrow> QPointF \<Rightarrow> CharacterResult \<Rightarrow> LayoutState \<Rightarrow> bool \<times> LayoutState" where
  "wordOrBreak P startPos charResult st =
     (if breakType charResult \<noteq> NoBreak \<or> lastLine (currentLine st) then
        (let lineLength' =
               inlinePart (isHorizontalMode P) (padd (psub (currentPos st) startPos) (wordAdvance st))
         in if \<not> isAuto (inlineSize P) then
              (if qRound (\<bar>lineLength'\<bar> - customValue (inlineSize P)) > 0 then (True, st)
               else (False, addWordToLine (isLtr P) st))
            else (False, addWordToLine (isLtr P) st))
      else (False, st))"

text \<open>Lines 2079 to 2137: the soft break.\<close>

definition softBreakStep :: "'a TextProperties_scheme \<Rightarrow> CharacterResult \<Rightarrow> LayoutState \<Rightarrow> LayoutState" where
  "softBreakStep P charResult st =
     (let firstLine' = firstLine (currentLine st);
          st1 = (if \<not> isEmpty (currentLine st)
                 then startNextLine P (softIndent P) (finalizeAppend P st) else st);
          st2 =
            (if overflowWrap charResult then
               (let wordLength = inlinePart (isHorizontalMode P) (wordAdvance st1)
                in if \<not> isAuto (inlineSize P) \<and> wordLength > customValue (inlineSize P) then
                     (case fold (overflowStep P) (wordIndices st1)
                             (st1\<lparr>wordAdvance := pnull,
                                  currentLine := (currentLine st1)\<lparr>firstLine := firstLine'\<rparr>\<rparr>, []) of
                        (st', partialWord) \<Rightarrow> st'\<lparr>wordIndices := partialWord\<rparr>)
                   else st1)
             else st1)
      in addWordToLine (isLtr P) st2)"

text \<open>Lines 2139 to 2155: the hard break.\<close>

definition hardBreakStep :: "'a TextProperties_scheme \<Rightarrow> LayoutState \<Rightarrow> LayoutState" where
  "hardBreakStep P st = startNextLine P (hardIndent P) (finalizeAppend P st)"

text \<open>Lines 2157 to 2171: the last character.\<close>

definition lastLineStep :: "'a TextProperties_scheme \<Rightarrow> LayoutState \<Rightarrow> LayoutState" where
  "lastLineStep P st =
     finalizeAppend P (if wordIndices st \<noteq> [] then addWordToLine (isLtr P) st else st)"

text \<open>Lines 2042 to 2137 for an addressable character: collect it, then place or break the word.\<close>

definition wordStep ::
  "'a TextProperties_scheme \<Rightarrow> QPointF \<Rightarrow> nat \<Rightarrow> bool \<Rightarrow> CharacterResult \<Rightarrow> LayoutState \<Rightarrow> LayoutState" where
  "wordStep P startPos index isLast charResult st =
     (case wordOrBreak P startPos charResult (collectChar index isLast charResult st) of
        (softBreak, st1) \<Rightarrow> (if softBreak then softBreakStep P charResult st1 else st1))"

definition breakLines_body ::
  "'a TextProperties_scheme \<Rightarrow> QPointF \<Rightarrow> nat \<Rightarrow> bool \<Rightarrow> LayoutState \<Rightarrow> LayoutState" where
  "breakLines_body P startPos index isLast st =
     (let charResult = result st ! index
      in if \<not> addressable charResult then st
         else
           (let st2 = wordStep P startPos index isLast charResult st;
                st3 = (if breakType charResult = HardBreak then hardBreakStep P st2 else st2)
            in if lastLine (currentLine st3) then lastLineStep P st3 else st3))"

text \<open>
  The loop. \<^verbatim>\<open>result.at(index)\<close> is defined for an index in range only; the model
  stops with \<open>IndexOutOfRange\<close> otherwise. Every other index the pass uses was read
  here in this or an earlier pass.
\<close>

datatype LayoutError = IndexOutOfRange

fun breakLines_loop ::
  "'a TextProperties_scheme \<Rightarrow> QPointF \<Rightarrow> nat list \<Rightarrow> LayoutState \<Rightarrow> LayoutError + LayoutState" where
  "breakLines_loop P startPos [] st = Inr st"
| "breakLines_loop P startPos (index # rest) st =
     (if index < length (result st)
      then breakLines_loop P startPos rest (breakLines_body P startPos index (rest = []) st)
      else Inl IndexOutOfRange)"

text \<open>
  \<^verbatim>\<open>breakLines\<close>: \<open>keys\<close> is \<^verbatim>\<open>logicalToVisual.keys()\<close>, the only use of the map.
  The function returns the line boxes and leaves the updated characters in \<^verbatim>\<open>result\<close>.
\<close>

definition breakLines ::
  "'a TextProperties_scheme \<Rightarrow> nat list \<Rightarrow> CharacterResult list \<Rightarrow> QPointF
     \<Rightarrow> LayoutError + (LineBox list \<times> CharacterResult list)" where
  "breakLines P keys res startPos =
     (case breakLines_loop P startPos keys (breakLines_init P res startPos) of
        Inl e \<Rightarrow> Inl e
      | Inr st \<Rightarrow> Inr (lineBoxes st, result st))"

section \<open>Flowing text into shapes\<close>

text \<open>
  A shape is a \<^verbatim>\<open>QPainterPath\<close>. The line engine observes it through its bounding
  rectangle, \<^verbatim>\<open>isEmpty\<close>, its fill polygons and \<^verbatim>\<open>contains\<close> for a point and for a
  rectangle; the model keeps these observations. \<open>emptyShape\<close> is a default-constructed path.
\<close>

record Shape =
  shapeBoundingRect :: QRectF
  shapeIsEmpty :: bool
  fillPolygons :: "QPointF list list"
  containsPoint :: "QPointF \<Rightarrow> bool"
  containsRect :: "QRectF \<Rightarrow> bool"

definition emptyShape :: Shape where
  "emptyShape = \<lparr>shapeBoundingRect = rectNull, shapeIsEmpty = True, fillPolygons = [],
     containsPoint = (\<lambda>p. False), containsRect = (\<lambda>r. False)\<rparr>"

text \<open>
  The line geometry of the two search functions is computed with \<^verbatim>\<open>QLineF\<close> angles and
  intersections, \<^verbatim>\<open>kisDistanceToLine\<close> and a sort, and is taken as given:
  \<open>offsetIntersections\<close> is, for one fill polygon, the list of points at which the lines of
  \<^verbatim>\<open>offsetPoly\<close> in \<^verbatim>\<open>getFirstPosition\<close> intersect, in the order of its two loops;
  \<open>findLineBoxesForFirstPos\<close> is the function of that name.
\<close>

record Geometry =
  offsetIntersections :: "QPointF list \<Rightarrow> QRectF \<Rightarrow> QPointF \<Rightarrow> WritingMode \<Rightarrow> QPointF list"
  findLineBoxesForFirstPos :: "Shape \<Rightarrow> QPointF \<Rightarrow> QRectF \<Rightarrow> WritingMode \<Rightarrow> QLineF list"

definition rectNormalized :: "QRectF \<Rightarrow> QRectF" where
  "rectNormalized r =
     (let r1 = (if rw r < 0 then r\<lparr>rx := rx r + rw r, rw := - rw r\<rparr> else r)
      in if rh r1 < 0 then r1\<lparr>ry := ry r1 + rh r1, rh := - rh r1\<rparr> else r1)"

definition rectCenter :: "QRectF \<Rightarrow> QPointF" where
  "rectCenter r = (rx r + rw r / 2, ry r + rh r / 2)"

definition rectBottomLeft :: "QRectF \<Rightarrow> QPointF" where
  "rectBottomLeft r = (rx r, ry r + rh r)"

subsection \<open>getFirstPosition\<close>

text \<open>
  The candidate positions: an intersection point is kept when the shape contains it and
  contains the word box centred on it, and it is not a candidate already.
\<close>

definition addCandidate :: "Shape \<Rightarrow> QRectF \<Rightarrow> QPointF \<Rightarrow> QPointF list \<Rightarrow> QPointF list" where
  "addCandidate p word intersectPoint candidatePositions =
     (if \<not> containsPoint p intersectPoint then candidatePositions
      else if \<not> containsRect p (rectTranslated word (psub intersectPoint (rectCenter word)))
      then candidatePositions
      else if intersectPoint \<notin> set candidatePositions then candidatePositions @ [intersectPoint]
      else candidatePositions)"

text \<open>The choice among the candidates, with \<^verbatim>\<open>precision\<close> 1.\<close>

definition chooseFirst :: "WritingMode \<Rightarrow> bool \<Rightarrow> QPointF \<Rightarrow> QPointF \<Rightarrow> QPointF \<Rightarrow> QPointF" where
  "chooseFirst mode ltr terminatorAdjusted candidate firstPointC =
     (let precision = 1 in
      if mode = HorizontalTB then
        (if snd terminatorAdjusted - snd candidate < precision then
           (if snd firstPointC - snd candidate > precision then candidate
            else if snd firstPointC - snd candidate > - precision then
              (if ltr then (if fst candidate < fst firstPointC then candidate else firstPointC)
               else (if fst candidate > fst firstPointC then candidate else firstPointC))
            else firstPointC)
         else firstPointC)
      else if mode = VerticalRL then
        (if fst terminatorAdjusted - fst candidate \<ge> - precision then
           (if fst firstPointC - fst candidate < - precision then candidate
            else if fst firstPointC - fst candidate < precision then
              (if ltr then (if snd candidate < snd firstPointC then candidate else firstPointC)
               else (if snd candidate > snd firstPointC then candidate else firstPointC))
            else firstPointC)
         else firstPointC)
      else
        (if fst terminatorAdjusted - fst candidate < precision then
           (if fst firstPointC - fst candidate > precision then candidate
            else if fst firstPointC - fst candidate > - precision then
              (if ltr then (if snd candidate < snd firstPointC then candidate else firstPointC)
               else (if snd candidate > snd firstPointC then candidate else firstPointC))
            else firstPointC)
         else firstPointC))"

text \<open>
  \<^verbatim>\<open>getFirstPosition\<close> returns the position when it returns true, and \<open>None\<close> when it
  returns false and leaves \<^verbatim>\<open>firstPoint\<close> alone.
\<close>

definition getFirstPosition ::
  "Geometry \<Rightarrow> Shape \<Rightarrow> QRectF \<Rightarrow> QPointF \<Rightarrow> WritingMode \<Rightarrow> bool \<Rightarrow> QPointF option" where
  "getFirstPosition G p wordBox' terminator mode ltr =
     (let word = rectTranslated (rectNormalized wordBox') (pneg (rectTopLeft wordBox'));
          terminatorAdjusted =
            (if fillPolygons p = [] then terminator
             else if mode = VerticalRL then psub terminator (rectCenter word)
             else padd terminator (rectCenter word));
          candidatePositions =
            fold (addCandidate p word)
                 (concat (map (\<lambda>polygon. offsetIntersections G polygon wordBox' terminator mode)
                              (fillPolygons p))) []
      in if candidatePositions = [] then None
         else
           (let firstPointC0 = (if mode = VerticalRL then rectBottomLeft (shapeBoundingRect p)
                                else rectBottomRight (shapeBoundingRect p));
                firstPointC = fold (chooseFirst mode ltr terminatorAdjusted) candidatePositions firstPointC0
            in if \<not> containsPoint p firstPointC then None
               else Some (psub (psub firstPointC (rectCenter word)) (rectTopLeft wordBox'))))"

subsection \<open>getEstimatedHeight\<close>

fun estimateLoop ::
  "CharacterResult list \<Rightarrow> bool \<Rightarrow> QRectF \<Rightarrow> nat list \<Rightarrow> QPointF \<times> real \<times> real \<Rightarrow> QPointF \<times> real \<times> real" where
  "estimateLoop res isHorizontal bound [] s = s"
| "estimateLoop res isHorizontal bound (i # rest) (totalAdvance, maxAscent, maxDescent) =
     (if \<not> addressable (res ! i) \<or> hidden (res ! i)
      then estimateLoop res isHorizontal bound rest (totalAdvance, maxAscent, maxDescent)
      else
        (let total1 = padd totalAdvance (advance (res ! i))
         in if (fst total1 > rw bound \<and> isHorizontal) \<or> (snd total1 > rh bound \<and> \<not> isHorizontal)
            then (total1, maxAscent, maxDescent)
            else estimateLoop res isHorizontal bound rest
                   (total1, max \<bar>ascent (res ! i) - halfLeading (res ! i)\<bar> maxAscent,
                    max \<bar>descent (res ! i) + halfLeading (res ! i)\<bar> maxDescent)))"

definition getEstimatedHeight ::
  "CharacterResult list \<Rightarrow> nat \<Rightarrow> QRectF \<Rightarrow> QRectF \<Rightarrow> WritingMode \<Rightarrow> QRectF" where
  "getEstimatedHeight res index wordBox' bound mode =
     (let isHorizontal = (mode = HorizontalTB);
          totalAdvance = psub (rectBottomRight wordBox') (rectTopLeft wordBox');
          maxAscent0 = (if isHorizontal then \<bar>rectTop wordBox'\<bar> else \<bar>rectRight wordBox'\<bar>);
          maxDescent0 = (if isHorizontal then \<bar>rectBottom wordBox'\<bar> else \<bar>rectLeft wordBox'\<bar>)
      in case estimateLoop res isHorizontal bound [index..<length res]
                (totalAdvance, maxAscent0, maxDescent0) of
           (tot, maxAscent, maxDescent) \<Rightarrow>
             (if mode = HorizontalTB
              then rectSetBottom (rectSetTop wordBox' (- maxAscent)) maxDescent
              else rectSetLeft (rectSetRight wordBox' maxAscent) (- maxDescent)))"

subsection \<open>Properties and state\<close>

datatype TextAlign =
  AlignStart | AlignCenter | AlignEnd | AlignLeft | AlignRight | AlignJustify | AlignLastAuto

definition textAnchorForTextAlign :: "TextAlign \<Rightarrow> TextAlign \<Rightarrow> bool \<Rightarrow> TextAnchor" where
  "textAnchorForTextAlign align alignLast ltr =
     (let compare = (if align = AlignJustify then alignLast else align)
      in if compare = AlignStart then AnchorStart
         else if compare = AlignCenter then AnchorMiddle
         else if compare = AlignEnd then AnchorEnd
         else if compare = AlignLeft then (if ltr then AnchorStart else AnchorEnd)
         else if compare = AlignRight then (if ltr then AnchorEnd else AnchorStart)
         else if align = AlignJustify then AnchorMiddle
         else AnchorStart)"

record FlowProperties = TextProperties +
  textAlign :: TextAlign
  textAlignLast :: TextAlign

definition flowAnchor :: "FlowProperties \<Rightarrow> TextAnchor" where
  "flowAnchor P = textAnchorForTextAlign (textAlign P) (textAlignLast P) (isLtr P)"

text \<open>
  The further variables of \<^verbatim>\<open>flowTextInShapes\<close>: \<open>flowFirstLine\<close> is its
  \<^verbatim>\<open>firstLine\<close>, \<open>flowTextIndent\<close> its \<^verbatim>\<open>textIndent\<close>, \<open>shapesRest\<close> what the
  iterator \<^verbatim>\<open>shapesIt\<close> has not yet returned.
\<close>

record FlowState = LayoutState +
  wordBox :: QRectF
  flowFirstLine :: bool
  indentLine :: bool
  currentShape :: Shape
  shapesRest :: "Shape list"
  flowTextIndent :: QPointF

definition shapeStart :: "WritingMode \<Rightarrow> Shape \<Rightarrow> QPointF" where
  "shapeStart mode s = (if mode = VerticalRL then rectTopRight (shapeBoundingRect s)
                        else rectTopLeft (shapeBoundingRect s))"

definition flow_init :: "FlowProperties \<Rightarrow> CharacterResult list \<Rightarrow> Shape list \<Rightarrow> FlowState" where
  "flow_init P res shapes' =
     \<lparr>result = res, currentPos = shapeStart (writingMode P) (hd shapes'), wordIndices = [],
      wordAdvance = pnull, currentLine = LineBox_default,
      lineOffset = shapeStart (writingMode P) (hd shapes'), lineBoxes = [],
      wordBox = rectNull, flowFirstLine = True, indentLine = True, currentShape = emptyShape,
      shapesRest = shapes', flowTextIndent = pnull\<rparr>"

subsection \<open>One pass of the loop of flowTextInShapes\<close>

text \<open>Lines 2551 to 2568: the character joins the word.\<close>

definition flowCollect :: "FlowProperties \<Rightarrow> nat \<Rightarrow> bool \<Rightarrow> CharacterResult \<Rightarrow> FlowState \<Rightarrow> FlowState" where
  "flowCollect P index isLast charResult st =
     (let doNotCountAdvance =
            (lineEnd charResult \<noteq> NoChange \<and> \<not> (isEmpty (currentLine st) \<and> wordIndices st = []));
          st1 = (if \<not> doNotCountAdvance then
                   (if wordIndices st = []
                    then st\<lparr>wordAdvance := advance charResult, wordBox := boundingBox charResult\<rparr>
                    else st\<lparr>wordAdvance := padd (wordAdvance st) (advance charResult),
                            wordBox := rectUnited (wordBox st)
                                         (rectTranslated (boundingBox charResult) (wordAdvance st))\<rparr>)
                 else st);
          line1 = (currentLine st1)\<lparr>lastLine := isLast\<rparr>;
          line2 = (if isLast then line1\<lparr>justifyLine := (textAlignLast P = AlignJustify)\<rparr> else line1)
      in st1\<lparr>wordIndices := wordIndices st1 @ [index], currentLine := line2\<rparr>)"

text \<open>\<^verbatim>\<open>chunks.value(i)\<close>.\<close>

definition chunkAt :: "LineBox \<Rightarrow> int \<Rightarrow> LineChunk" where
  "chunkAt l i = (if 0 \<le> i \<and> nat i < length (chunks l) then chunks l ! nat i else LineChunk_default)"

text \<open>
  Lines 2575 to 2601: the loop over the chunks of the current line from
  \<^verbatim>\<open>currentChunk\<close> on, for the loop variable \<open>i\<close>; \<open>n\<close> is \<^verbatim>\<open>chunks.size()\<close>,
  which the loop does not change before it stops. It returns \<^verbatim>\<open>softBreak\<close> and the state.
\<close>

function flowChunkLoop :: "FlowProperties \<Rightarrow> nat \<Rightarrow> int \<Rightarrow> bool \<times> FlowState \<Rightarrow> bool \<times> FlowState" where
  "flowChunkLoop P n i (softBreak, st) =
     (if i < int n then
        (let i1 = (if i = - 1 then 0 else i);
             st1 = (if i = - 1 then st\<lparr>currentLine := (currentLine st)\<lparr>currentChunk := 0\<rparr>\<rparr> else st);
             line = length_chunk (chunkAt (currentLine st1) i1);
             lineLength' =
               inlinePart (isHorizontalMode P) (padd (psub (currentPos st1) (p1 line)) (wordAdvance st1))
         in if qRound (\<bar>lineLength'\<bar> - lineLength line) > 0 then
              (if i1 = int n - 1 then (True, st1)
               else
                 (let nextLine = length_chunk (chunkAt (currentLine st1) (i1 + 1));
                      pos' = (if isHorizontalMode P
                              then ((if isLtr P then max (fst (p1 nextLine)) (fst (currentPos st1))
                                     else min (fst (p1 nextLine)) (fst (currentPos st1))),
                                    snd (currentPos st1))
                              else (fst (currentPos st1), snd (p1 nextLine)))
                  in flowChunkLoop P n (i1 + 1) (softBreak, st1\<lparr>currentPos := pos'\<rparr>)))
            else (softBreak,
                  addWordToLine (isLtr P) (st1\<lparr>currentLine := (currentLine st1)\<lparr>currentChunk := i1\<rparr>\<rparr>)))
      else (softBreak, st))"
  by pat_completeness auto
termination
  by (relation "measure (\<lambda>(P, n, i, s). nat (int n - i))") auto

text \<open>Lines 2570 to 2602.\<close>

definition flowPlace :: "FlowProperties \<Rightarrow> CharacterResult \<Rightarrow> FlowState \<Rightarrow> bool \<times> FlowState" where
  "flowPlace P charResult st =
     (if breakType charResult \<noteq> NoBreak \<or> lastLine (currentLine st) then
        flowChunkLoop P (length (chunks (currentLine st))) (currentChunk (currentLine st))
          (chunks (currentLine st) = [] \<or> lastLine (currentLine st), st)
      else (False, st))"

text \<open>
  The \<^verbatim>\<open>while (!foundFirst)\<close> loop of lines 2642 to 2664, on \<^verbatim>\<open>currentPos\<close>,
  \<^verbatim>\<open>currentShape\<close>, the shape iterator, \<^verbatim>\<open>textIndent\<close>, \<^verbatim>\<open>indent\<close> and
  \<^verbatim>\<open>lineOffset\<close>. It returns \<^verbatim>\<open>foundFirst\<close>, \<^verbatim>\<open>indent\<close> and the state. As in
  \<^verbatim>\<open>breakLines\<close> a percentage indent is multiplied into the point and then overwritten.
\<close>

fun seekShapes ::
  "Geometry \<Rightarrow> FlowProperties \<Rightarrow> QRectF \<Rightarrow> Shape list \<Rightarrow> QPointF \<times> FlowState \<Rightarrow> bool \<times> QPointF \<times> FlowState" where
  "seekShapes G P wordBox' [] (indent, st) =
     (case getFirstPosition G (currentShape st) wordBox' (lineOffset st) (writingMode P) (isLtr P) of
        Some pos \<Rightarrow> (True, indent, st\<lparr>currentPos := pos\<rparr>)
      | None \<Rightarrow> (False, indent, st))"
| "seekShapes G P wordBox' (next # rest) (indent, st) =
     (case getFirstPosition G (currentShape st) wordBox' (lineOffset st) (writingMode P) (isLtr P) of
        Some pos \<Rightarrow> (True, indent, st\<lparr>currentPos := pos\<rparr>)
      | None \<Rightarrow>
          (let textIndent' = (if isHorizontalMode P then (indentValue (textIndentInfo P), 0)
                              else (0, indentValue (textIndentInfo P)));
               ind = (if hanging (textIndentInfo P) then \<not> indentLine st else indentLine st);
               indent' = (if ind then textIndent' else pnull)
           in seekShapes G P wordBox' rest
                (indent', st\<lparr>currentShape := next, shapesRest := rest, flowTextIndent := textIndent',
                              currentPos := shapeStart (writingMode P) next,
                              lineOffset := shapeStart (writingMode P) next\<rparr>)))"

text \<open>The first chunk of a new line that is longer than the word (lines 2626 to 2633).\<close>

fun firstLongerChunk :: "real \<Rightarrow> int \<Rightarrow> LineChunk list \<Rightarrow> int option" where
  "firstLongerChunk len i [] = None"
| "firstLongerChunk len i (c # cs) =
     (if lineLength (length_chunk c) > len then Some i else firstLongerChunk len (i + 1) cs)"

definition hideWord :: "nat list \<Rightarrow> CharacterResult list \<Rightarrow> CharacterResult list" where
  "hideWord w res = fold (\<lambda>j r. r[j := (r ! j)\<lparr>hidden := True\<rparr>]) w res"

text \<open>Lines 2605 to 2610: the current line is finished when it holds characters.\<close>

definition flowFinishLine :: "FlowProperties \<Rightarrow> FlowState \<Rightarrow> FlowState" where
  "flowFinishLine P st =
     (if \<not> isEmpty (currentLine st) then
        (let f = finalizeLine (flowAnchor P) (writingMode P) (isLtr P) True True st
         in f\<lparr>lineBoxes := lineBoxes f @ [currentLine f], flowFirstLine := False, indentLine := False\<rparr>)
      else st)"

text \<open>
  Lines 2614 to 2634: the height of the word box is estimated, and in a shape that is not
  empty an offset line is tried first. It returns \<^verbatim>\<open>foundFirst\<close>, which is the negation of
  \<^verbatim>\<open>needNewLine\<close>, \<^verbatim>\<open>indent\<close> and the state.
\<close>

definition flowOffsetLine ::
  "Geometry \<Rightarrow> FlowProperties \<Rightarrow> nat \<Rightarrow> FlowState \<Rightarrow> bool \<times> QPointF \<times> FlowState" where
  "flowOffsetLine G P index st =
     (let mode = writingMode P;
          ind = (if hanging (textIndentInfo P) then \<not> indentLine st else indentLine st);
          indent = (if ind then flowTextIndent st else pnull);
          wordBox1 = getEstimatedHeight (result st) index (wordBox st)
                       (shapeBoundingRect (currentShape st)) mode;
          st1 = st\<lparr>wordBox := wordBox1\<rparr>
      in if \<not> shapeIsEmpty (currentShape st1) then
           (let pos = psub (currentPos st1)
                        (if mode = VerticalRL then rectTopRight wordBox1 else rectTopLeft wordBox1);
                line = LineBox_lines (findLineBoxesForFirstPos G (currentShape st1) pos wordBox1 mode)
                         (isLtr P) indent;
                len = (if isHorizontalMode P then rw wordBox1 else rh wordBox1)
            in case firstLongerChunk len 0 (chunks line) of
                 Some i \<Rightarrow> (True, indent, st1\<lparr>currentPos := pos, currentLine := line\<lparr>currentChunk := i\<rparr>\<rparr>)
               | None \<Rightarrow> (False, indent, st1\<lparr>currentPos := pos, currentLine := line\<rparr>))
         else (False, indent, st1))"

text \<open>Lines 2665 to 2677: a line was found and the word is added to it.\<close>

definition flowNewLine :: "Geometry \<Rightarrow> FlowProperties \<Rightarrow> bool \<Rightarrow> QPointF \<Rightarrow> FlowState \<Rightarrow> FlowState" where
  "flowNewLine G P needNewLine indent st =
     (let mode = writingMode P; isHorizontal = isHorizontalMode P;
          line0 = (if needNewLine then
                     setCurrentChunkForPos
                       (LineBox_lines
                          (findLineBoxesForFirstPos G (currentShape st) (currentPos st) (wordBox st) mode)
                          (isLtr P) indent)
                       (currentPos st) isHorizontal
                   else currentLine st);
          line1 = line0\<lparr>firstLine := flowFirstLine st,
                        expectedLineTop :=
                          (if isHorizontal then \<bar>rectTop (wordBox st)\<bar>
                           else if mode = VerticalRL then \<bar>rectRight (wordBox st)\<bar>
                           else \<bar>rectLeft (wordBox st)\<bar>),
                        justifyLine := (textAlign P = AlignJustify)\<rparr>;
          pos = padd (p1 (length_chunk (chunk line1))) indent
      in addWordToLine (isLtr P) (st\<lparr>currentLine := line1, currentPos := pos, lineOffset := pos\<rparr>))"

text \<open>
  Lines 2604 to 2685: the soft break. The current line is finished, a line for the word is
  looked for in the current shape and then in the shapes that follow; the word is added to
  it, or no line was found and its characters are hidden (lines 2678 to 2683).
\<close>

definition flowSeek :: "Geometry \<Rightarrow> FlowProperties \<Rightarrow> nat \<Rightarrow> FlowState \<Rightarrow> FlowState" where
  "flowSeek G P index st0 =
     (case flowOffsetLine G P index (flowFinishLine P st0) of
        (foundInCurrent, indent0, st3) \<Rightarrow>
          (case (if foundInCurrent then (True, indent0, st3)
                 else seekShapes G P (wordBox st3) (shapesRest st3) (indent0, st3)) of
             (foundFirst, indent, st4) \<Rightarrow>
               (if foundFirst then flowNewLine G P (\<not> foundInCurrent) indent st4
                else st4\<lparr>currentLine := LineBox_default,
                         result := hideWord (wordIndices st4) (result st4)\<rparr>)))"

text \<open>Lines 2687 to 2692: the hard break.\<close>

definition flowHardBreak :: "FlowProperties \<Rightarrow> FlowState \<Rightarrow> FlowState" where
  "flowHardBreak P st =
     (let f = finalizeLine (flowAnchor P) (writingMode P) (isLtr P) True True st
      in f\<lparr>lineBoxes := lineBoxes f @ [currentLine f], currentLine := LineBox_default,
           indentLine := (if hanging (textIndentInfo P) then False else eachLine (textIndentInfo P))\<rparr>)"

definition flow_body :: "Geometry \<Rightarrow> FlowProperties \<Rightarrow> nat \<Rightarrow> bool \<Rightarrow> FlowState \<Rightarrow> FlowState" where
  "flow_body G P index isLast st =
     (let charResult = result st ! index
      in if \<not> addressable charResult then st
         else
           (case flowPlace P charResult (flowCollect P index isLast charResult st) of
              (softBreak, st1) \<Rightarrow>
                (let st2 = (if softBreak then flowSeek G P index st1 else st1)
                 in if breakType charResult = HardBreak then flowHardBreak P st2 else st2)))"

fun flow_loop ::
  "Geometry \<Rightarrow> FlowProperties \<Rightarrow> nat list \<Rightarrow> FlowState \<Rightarrow> LayoutError + FlowState" where
  "flow_loop G P [] st = Inr st"
| "flow_loop G P (index # rest) st =
     (if index < length (result st)
      then flow_loop G P rest (flow_body G P index (rest = []) st)
      else Inl IndexOutOfRange)"

text \<open>
  \<^verbatim>\<open>flowTextInShapes\<close>. The source reads \<^verbatim>\<open>shapes.at(0)\<close> before it tests
  \<^verbatim>\<open>shapes.isEmpty()\<close>, so an empty list of shapes is an out-of-range read.
\<close>

definition flowTextInShapes ::
  "Geometry \<Rightarrow> FlowProperties \<Rightarrow> nat list \<Rightarrow> CharacterResult list \<Rightarrow> Shape list
     \<Rightarrow> LayoutError + (LineBox list \<times> CharacterResult list)" where
  "flowTextInShapes G P keys res shapes' =
     (if shapes' = [] then Inl IndexOutOfRange
      else
        (case flow_loop G P keys (flow_init P res shapes') of
           Inl e \<Rightarrow> Inl e
         | Inr st \<Rightarrow>
             (let f = finalizeLine (flowAnchor P) (writingMode P) (isLtr P) True True st
              in Inr (lineBoxes f @ [currentLine f], result f))))"

section \<open>Italic synthesis in the glyph loop\<close>

text \<open>
  An affine \<^verbatim>\<open>QTransform\<close>: a point \<open>(x, y)\<close> is mapped to
  \<open>(m11 * x + m21 * y + tdx, m12 * x + m22 * y + tdy)\<close>. The product \<open>a * b\<close> applies
  \<open>a\<close> first. \<^verbatim>\<open>QTransform::shear(sh, sv)\<close> is only called on identity transforms in the
  code modelled here, where it sets \<open>m21\<close> to \<open>sh\<close> and \<open>m12\<close> to \<open>sv\<close>.
\<close>

record QTransform =
  m11 :: real
  m12 :: real
  m21 :: real
  m22 :: real
  tdx :: real
  tdy :: real

definition tfIdentity :: QTransform where
  "tfIdentity = \<lparr>m11 = 1, m12 = 0, m21 = 0, m22 = 1, tdx = 0, tdy = 0\<rparr>"

definition tfShear :: "real \<Rightarrow> real \<Rightarrow> QTransform" where
  "tfShear sh sv = tfIdentity\<lparr>m12 := sv, m21 := sh\<rparr>"

definition tfTranslate :: "real \<Rightarrow> real \<Rightarrow> QTransform" where
  "tfTranslate x y = tfIdentity\<lparr>tdx := x, tdy := y\<rparr>"

definition tfScale :: "real \<Rightarrow> real \<Rightarrow> QTransform" where
  "tfScale sx sy = tfIdentity\<lparr>m11 := sx, m22 := sy\<rparr>"

definition tfMul :: "QTransform \<Rightarrow> QTransform \<Rightarrow> QTransform" where
  "tfMul a b =
     \<lparr>m11 = m11 a * m11 b + m12 a * m21 b, m12 = m11 a * m12 b + m12 a * m22 b,
      m21 = m21 a * m11 b + m22 a * m21 b, m22 = m21 a * m12 b + m22 a * m22 b,
      tdx = tdx a * m11 b + tdy a * m21 b + tdx b, tdy = tdx a * m12 b + tdy a * m22 b + tdy b\<rparr>"

text \<open>The two constants of \<^verbatim>\<open>relayout\<close>.\<close>

definition SLANT_14DEG :: real where
  "SLANT_14DEG = 0.24932800284318069162403993780486"

definition SLANT_BITMAP :: real where
  "SLANT_BITMAP = 0.25"

text \<open>
  The glyph formats of FreeType that \<^verbatim>\<open>relayout\<close> tells apart; every other format takes
  the branch that only logs a warning.
\<close>

datatype GlyphFormat = FT_GLYPH_FORMAT_OUTLINE | FT_GLYPH_FORMAT_BITMAP | FT_GLYPH_FORMAT_OTHER

text \<open>
  What lines 1022 to 1095 of \<^verbatim>\<open>relayout\<close> compute for one glyph: the oblique matrix
  \<^verbatim>\<open>glyphObliqueTf\<close>, the outline transform \<^verbatim>\<open>outlineGlyphTf\<close>, and the transform
  applied to the bitmap image, if one is applied. \<open>italicFace\<close> is
  \<^verbatim>\<open>ftface->style_flags & FT_STYLE_FLAG_ITALIC\<close>, \<open>offset\<close> the glyph's
  \<^verbatim>\<open>x_offset\<close> and \<^verbatim>\<open>y_offset\<close>, \<open>bitmapTop\<close> and \<open>imageWidth\<close> are
  \<^verbatim>\<open>bitmap_top\<close> and the width of the converted image.
\<close>

record GlyphTransforms =
  glyphObliqueTf :: QTransform
  outlineGlyphTf :: QTransform
  bitmapTf :: "QTransform option"

definition needsOblique :: "FontStyle \<Rightarrow> bool \<Rightarrow> bool" where
  "needsOblique style italicFace \<longleftrightarrow> style \<noteq> StyleNormal \<and> \<not> italicFace"

definition synthesizeItalic ::
  "GlyphFormat \<Rightarrow> FontStyle \<Rightarrow> bool \<Rightarrow> bool \<Rightarrow> QTransform \<Rightarrow> real \<times> real \<Rightarrow> int \<Rightarrow> int \<Rightarrow> GlyphTransforms" where
  "synthesizeItalic format style italicFace isHorizontal ftTF offset bitmapTop imageWidth =
     (if format = FT_GLYPH_FORMAT_OUTLINE then
        (let outline0 = tfTranslate (fst offset) (snd offset);
             oblique = (if needsOblique style italicFace
                        then (if isHorizontal then tfShear SLANT_14DEG 0 else tfShear 0 (- SLANT_14DEG))
                        else tfIdentity);
             outline1 = (if needsOblique style italicFace then tfMul outline0 oblique else outline0)
         in \<lparr>glyphObliqueTf = oblique, outlineGlyphTf = tfMul outline1 ftTF, bitmapTf = None\<rparr>)
      else if format = FT_GLYPH_FORMAT_BITMAP then
        (if needsOblique style italicFace then
           (let shear = (if isHorizontal then tfShear (- SLANT_BITMAP) 0 else tfShear 0 SLANT_BITMAP);
                shearAt = (if isHorizontal then (0, bitmapTop) else (imageWidth div 2, 0))
            in \<lparr>glyphObliqueTf = tfIdentity, outlineGlyphTf = tfIdentity,
                bitmapTf = Some (tfMul (tfMul (tfTranslate (- real_of_int (fst shearAt)) (- real_of_int (snd shearAt))) shear)
                                       (tfTranslate (real_of_int (fst shearAt)) (real_of_int (snd shearAt))))\<rparr>)
         else \<lparr>glyphObliqueTf = tfIdentity, outlineGlyphTf = tfIdentity, bitmapTf = None\<rparr>)
      else \<lparr>glyphObliqueTf = tfIdentity, outlineGlyphTf = tfIdentity, bitmapTf = None\<rparr>)"

text \<open>The shear coefficients \<open>(sh, sv)\<close> of a transform are its \<open>m21\<close> and \<open>m12\<close>.\<close>

definition shearOf :: "QTransform \<Rightarrow> real \<times> real" where
  "shearOf t = (m21 t, m12 t)"

section \<open>Preparing the text for the shaper\<close>

text \<open>
  A \<^verbatim>\<open>QChar\<close> is a UTF-16 code unit. The break classes are those of the break library;
  the code compares them with \<^verbatim>\<open>LINEBREAK_MUSTBREAK\<close>, \<^verbatim>\<open>LINEBREAK_ALLOWBREAK\<close> and
  \<^verbatim>\<open>GRAPHEMEBREAK_BREAK\<close> only.
\<close>

type_synonym QChar = "16 word"

definition QChar_Space :: QChar where
  "QChar_Space = 0x20"

datatype LineBreakClass =
  LINEBREAK_MUSTBREAK | LINEBREAK_ALLOWBREAK | LINEBREAK_NOBREAK | LINEBREAK_INSIDEACHAR

datatype GraphemeBreakClass =
  GRAPHEMEBREAK_BREAK | GRAPHEMEBREAK_NOBREAK | GRAPHEMEBREAK_INSIDEACHAR

text \<open>
  Lines 721 to 725 of \<^verbatim>\<open>relayout\<close>: every character that must break is overwritten by
  a space, before the text is given to the shaper. \<^verbatim>\<open>lineBreaks\<close> is allocated with the
  size of the text.
\<close>

definition replaceHardBreaks :: "LineBreakClass list \<Rightarrow> QChar list \<Rightarrow> QChar list" where
  "replaceHardBreaks lineBreaks text =
     fold (\<lambda>i t. if lineBreaks ! i = LINEBREAK_MUSTBREAK then t[i := QChar_Space] else t)
          [0..<length text] text"

text \<open>
  A default-constructed \<^verbatim>\<open>CharacterResult\<close>. The source leaves \<^verbatim>\<open>halfLeading\<close>,
  \<^verbatim>\<open>ascent\<close> and \<^verbatim>\<open>descent\<close> without initial value and assigns them before reading
  them; they are 0 here.
\<close>

definition CharacterResult_default :: CharacterResult where
  "CharacterResult_default =
     \<lparr>finalPosition = (0, 0), rotate = 0, hidden = False, addressable = True, middle = False,
      anchored_chunk = False, path = [], boundingBox = rectNull, visualIndex = - 1,
      cssPosition = (0, 0), advance = (0, 0), breakType = NoBreak, lineEnd = NoChange,
      lineStart = NoChange, justifyBefore = False, justifyAfter = False, isHanging = False,
      textLengthApplied = False, overflowWrap = False, halfLeading = 0, ascent = 0, descent = 0,
      fontStyle = StyleNormal, fontWeight = 400, anchor = AnchorStart,
      direction = DirectionLeftToRight\<rparr>"

text \<open>
  The properties the loop over the sub-chunks reads. The enumerations of
  \<^verbatim>\<open>KoSvgText\<close> appear through the comparisons the code makes:
  \<open>noWrap\<close> is \<^verbatim>\<open>wrap == KoSvgText::NoWrap\<close>, \<open>breakAnywhere\<close> is
  \<^verbatim>\<open>wordBreakStrictness == WordBreakBreakAll || linebreakStrictness == LineBreakAnywhere\<close>,
  and the four \<open>hang\<close> fields are \<^verbatim>\<open>hang.testFlag\<close> of the four flags.
  \<open>collapseLastSpace\<close> and \<open>characterCanHang\<close> are the functions of
  \<^verbatim>\<open>KoCssTextUtils\<close>, already applied to the collapse mode and to the flag.
\<close>

record ClassifyEnv =
  noWrap :: bool
  collapseLastSpace :: "QChar \<Rightarrow> bool"
  canHangFirst :: "QChar \<Rightarrow> bool"
  canHangLast :: "QChar \<Rightarrow> bool"
  canHangEnd :: "QChar \<Rightarrow> bool"

record SubChunkProps =
  chunkAnchor :: TextAnchor
  chunkDirection :: Direction
  breakAnywhere :: bool
  hangFirst :: bool
  hangLast :: bool
  hangEnd :: bool
  hangForce :: bool
  chunkOverflowWrap :: bool
  firstTextInPath :: bool

text \<open>Lines 767 to 812: the result of one character of a sub-chunk, \<open>i\<close> its index in the chunk.\<close>

definition classifyChar ::
  "ClassifyEnv \<Rightarrow> SubChunkProps \<Rightarrow> QChar \<Rightarrow> LineBreakClass \<Rightarrow> GraphemeBreakClass \<Rightarrow> bool \<times> bool \<Rightarrow> nat
     \<Rightarrow> CharacterResult \<Rightarrow> CharacterResult" where
  "classifyChar E C c lineBreak graphemeBreak canJustify i cr0 =
     (let cr1 = cr0\<lparr>anchor := chunkAnchor C, direction := chunkDirection C,
                    justifyBefore := fst canJustify, justifyAfter := snd canJustify,
                    overflowWrap := chunkOverflowWrap C\<rparr>;
          cr2 = (if lineBreak = LINEBREAK_MUSTBREAK
                 then cr1\<lparr>breakType := HardBreak, lineEnd := Collapse, lineStart := Collapse\<rparr>
                 else if lineBreak = LINEBREAK_ALLOWBREAK \<and> \<not> noWrap E
                 then (if collapseLastSpace E c
                       then cr1\<lparr>breakType := SoftBreak, lineEnd := Collapse, lineStart := Collapse\<rparr>
                       else cr1\<lparr>breakType := SoftBreak\<rparr>)
                 else cr1);
          cr3 = (if breakAnywhere C \<and> \<not> noWrap E \<and> graphemeBreak = GRAPHEMEBREAK_BREAK
                    \<and> breakType cr2 = NoBreak
                 then cr2\<lparr>breakType := SoftBreak\<rparr> else cr2);
          cr4 = (if lineStart cr3 \<noteq> Collapse \<and> hangFirst C
                 then cr3\<lparr>lineStart := (if canHangFirst E c then HangBehaviour else lineEnd cr3)\<rparr>
                 else cr3);
          cr5 = (if lineEnd cr4 \<noteq> Collapse \<and> hangLast C
                 then cr4\<lparr>lineEnd := (if canHangLast E c then HangBehaviour else lineEnd cr4)\<rparr>
                 else cr4);
          cr6 = (if lineEnd cr4 \<noteq> Collapse \<and> hangEnd C
                 then cr5\<lparr>lineEnd := (if canHangEnd E c
                                        then (if hangForce C then ForceHang else ConditionallyHang)
                                        else lineEnd cr5)\<rparr>
                 else cr5)
      in if firstTextInPath C \<and> i = 0 then cr6\<lparr>anchored_chunk := True\<rparr> else cr6)"

text \<open>
  Lines 766 to 813: the loop over the characters of one sub-chunk of \<open>n\<close> characters that
  starts at \<open>start\<close>. \<^verbatim>\<open>justify.value(k, ...)\<close> defaults to no opportunity out of range.
  The text is the one after \<open>replaceHardBreaks\<close>.
\<close>

definition justifyAt :: "(bool \<times> bool) list \<Rightarrow> nat \<Rightarrow> bool \<times> bool" where
  "justifyAt justify k = (if k < length justify then justify ! k else (False, False))"

definition classifyChunk ::
  "ClassifyEnv \<Rightarrow> SubChunkProps \<Rightarrow> QChar list \<Rightarrow> LineBreakClass list \<Rightarrow> GraphemeBreakClass list
     \<Rightarrow> (bool \<times> bool) list \<Rightarrow> nat \<Rightarrow> nat \<Rightarrow> CharacterResult list \<Rightarrow> CharacterResult list" where
  "classifyChunk E C text lineBreaks graphemeBreaks justify start n res =
     fold (\<lambda>i r. r[start + i := classifyChar E C (text ! (start + i)) (lineBreaks ! (start + i))
                                   (graphemeBreaks ! (start + i)) (justifyAt justify (start + i)) i
                                   (r ! (start + i))])
          [0..<n] res"

text \<open>
  Lines 1208 to 1234: characters without a glyph of their own become the middle of the
  cluster before them and hand their break and line-edge classes to its first character.
  The loop variables are \<^verbatim>\<open>firstCluster\<close>, \<^verbatim>\<open>setAnchoredChunk\<close> and the results.
\<close>

definition markMiddleStep ::
  "nat \<Rightarrow> nat \<times> bool \<times> CharacterResult list \<Rightarrow> nat \<times> bool \<times> CharacterResult list" where
  "markMiddleStep i s =
     (case s of (firstCluster, setAnchoredChunk, res) \<Rightarrow>
        (if addressable (res ! i) \<and> visualIndex (res ! i) \<noteq> - 1 then
           (if setAnchoredChunk then (i, False, res[i := (res ! i)\<lparr>anchored_chunk := True\<rparr>])
            else (i, setAnchoredChunk, res))
         else
           (let r1 = (if breakType (res ! firstCluster) \<noteq> HardBreak
                      then res[firstCluster := (res ! firstCluster)\<lparr>breakType := breakType (res ! i)\<rparr>]
                      else res);
                r2 = (if lineStart (r1 ! firstCluster) = NoChange
                      then r1[firstCluster := (r1 ! firstCluster)\<lparr>lineStart := lineStart (r1 ! i)\<rparr>]
                      else r1);
                r3 = (if lineEnd (r2 ! firstCluster) = NoChange
                      then r2[firstCluster := (r2 ! firstCluster)\<lparr>lineEnd := lineEnd (r2 ! i)\<rparr>]
                      else r2);
                setAnchoredChunk' = (if anchored_chunk (r3 ! i) then True else setAnchoredChunk)
            in (firstCluster, setAnchoredChunk',
                r3[i := (r3 ! i)\<lparr>middle := True, addressable := False\<rparr>]))))"

definition markMiddle :: "CharacterResult list \<Rightarrow> CharacterResult list" where
  "markMiddle res = snd (snd (fold markMiddleStep [0..<length res] (0, False, res)))"

section \<open>The textLength stage\<close>

text \<open>
  The tree of text runs as \<^verbatim>\<open>applyTextLength\<close> sees it. A shape that is no
  \<^verbatim>\<open>KoSvgTextChunkShape\<close> makes the function return at once. \<open>numChars\<close> is
  \<^verbatim>\<open>layoutInterface()->numChars(true)\<close>, \<open>spacingAndGlyphs\<close> is
  \<^verbatim>\<open>lengthAdjust() == KoSvgText::LengthAdjustSpacingAndGlyphs\<close>.
\<close>

datatype KoShape =
  ChunkShape (textLength: AutoValue) (spacingAndGlyphs: bool) (numChars: nat) (shapes: "KoShape list")
  | OtherShape

text \<open>
  Where the source would read outside the result vector, take \<^verbatim>\<open>last()\<close> of an empty
  key list, or divide by zero, the model stops with an error: the first two are undefined in
  C++, the third yields an infinity or a NaN, which the real numbers do not have.
\<close>

datatype TextLengthError = ResultOutOfRange | NoVisualIndex | DivisionByZero

text \<open>\<^verbatim>\<open>QTransform::fromScale(sx, sy)\<close> applied to a point, a path and a rectangle.\<close>

definition scalePoint :: "real \<Rightarrow> real \<Rightarrow> QPointF \<Rightarrow> QPointF" where
  "scalePoint sx sy p = (sx * fst p, sy * snd p)"

definition scaleRect :: "real \<Rightarrow> real \<Rightarrow> QRectF \<Rightarrow> QRectF" where
  "scaleRect sx sy r =
     (if sx = 1 \<and> sy = 1 then r
      else
        (let x0 = sx * rx r; w0 = sx * rw r;
             x1 = (if w0 < 0 then x0 - (- w0) else x0); w1 = (if w0 < 0 then - w0 else w0);
             y0 = sy * ry r; h0 = sy * rh r;
             y1 = (if h0 < 0 then y0 - (- h0) else y0); h1 = (if h0 < 0 then - h0 else h0)
         in \<lparr>rx = x1, ry = y1, rw = w1, rh = h1\<rparr>))"

text \<open>The first loop: the extent \<open>a, b\<close>, the count \<open>n\<close> and the visual order of the run.\<close>

definition measureStep ::
  "CharacterResult list \<Rightarrow> bool \<Rightarrow> nat \<Rightarrow> nat
     \<Rightarrow> real \<times> real \<times> int \<times> (int \<times> nat) list \<Rightarrow> real \<times> real \<times> int \<times> (int \<times> nat) list" where
  "measureStep res isHorizontal i k s =
     (case s of (a, b, n, visualToLogical) \<Rightarrow>
        (if addressable (res ! k) then
           (let v = (if visualIndex (res ! k) > - 1
                     then qmapInsert (visualIndex (res ! k)) k visualToLogical else visualToLogical);
                pos = inlinePart isHorizontal (finalPosition (res ! k));
                adv = inlinePart isHorizontal (advance (res ! k));
                a' = (if k = i then min pos (pos + adv) else min a (min pos (pos + adv)));
                b' = (if k = i then max pos (pos + adv) else max b (max pos (pos + adv)));
                n' = (if \<not> textLengthApplied (res ! k) then n + 1 else n)
            in (a', b', n', v))
         else s))"

text \<open>
  The second loop, over the keys of \<^verbatim>\<open>visualToLogical\<close>, on \<^verbatim>\<open>result\<close>,
  \<^verbatim>\<open>shift\<close> and \<^verbatim>\<open>secondTextLengthApplied\<close>.
\<close>

definition adjustStep ::
  "bool \<Rightarrow> QPointF \<Rightarrow> int \<Rightarrow> int \<times> nat
     \<Rightarrow> TextLengthError + (CharacterResult list \<times> QPointF \<times> bool)
     \<Rightarrow> TextLengthError + (CharacterResult list \<times> QPointF \<times> bool)" where
  "adjustStep spacing d lastKey kv s =
     (case s of
        Inl e \<Rightarrow> Inl e
      | Inr (res, shift, secondTextLengthApplied) \<Rightarrow>
          (let cr = res ! snd kv
           in if addressable cr then
                (if spacing \<and> ((fst d \<noteq> 0 \<and> fst (advance cr) = 0) \<or> (snd d \<noteq> 0 \<and> snd (advance cr) = 0))
                 then Inl DivisionByZero
                 else
                   (let cr1 = cr\<lparr>finalPosition := padd (finalPosition cr) shift\<rparr>;
                        sx = (if fst d \<noteq> 0 then (fst d / fst (advance cr1)) + 1 else 1);
                        sy = (if snd d \<noteq> 0 then (snd d / snd (advance cr1)) + 1 else 1);
                        cr2 = (if spacing
                               then cr1\<lparr>path := map (scalePoint sx sy) (path cr1),
                                        advance := scalePoint sx sy (advance cr1),
                                        boundingBox := scaleRect sx sy (boundingBox cr1)\<rparr>
                               else cr1);
                        isLastKey = (if spacing then False else fst kv = lastKey);
                        shift' = (if \<not> (textLengthApplied cr2 \<and> secondTextLengthApplied) \<and> \<not> isLastKey
                                  then padd shift d else shift)
                    in Inr (res[snd kv := cr2\<lparr>textLengthApplied := True\<rparr>], shift',
                            textLengthApplied cr2)))
              else Inr (res[snd kv := cr], shift, secondTextLengthApplied)))"

text \<open>The two loops that collect the characters after and before the run, up to a chunk start.\<close>

fun collectAfter :: "CharacterResult list \<Rightarrow> nat list \<Rightarrow> (int \<times> nat) list \<Rightarrow> (int \<times> nat) list" where
  "collectAfter res [] m = m"
| "collectAfter res (k # ks) m =
     (if anchored_chunk (res ! k) then m
      else collectAfter res ks (qmapInsert (visualIndex (res ! k)) k m))"

fun collectBefore :: "CharacterResult list \<Rightarrow> nat list \<Rightarrow> (int \<times> nat) list \<Rightarrow> (int \<times> nat) list" where
  "collectBefore res [] m = m"
| "collectBefore res (k # ks) m =
     (let m' = qmapInsert (visualIndex (res ! k)) k m
      in if anchored_chunk (res ! k) then m' else collectBefore res ks m')"

definition shiftAfter :: "QPointF \<Rightarrow> int \<Rightarrow> int \<times> nat \<Rightarrow> CharacterResult list \<Rightarrow> CharacterResult list" where
  "shiftAfter shift lastVisualValue kv res =
     (if fst kv > lastVisualValue
      then res[snd kv := (res ! snd kv)\<lparr>finalPosition := padd (finalPosition (res ! snd kv)) shift\<rparr>]
      else res)"

text \<open>
  The part of \<^verbatim>\<open>applyTextLength\<close> under \<^verbatim>\<open>if (!textLength().isAuto)\<close>, for a run
  over the indices \<open>i\<close> to \<open>j - 1\<close>. It returns the results; the caller adds one to
  \<^verbatim>\<open>resolvedDescendentNodes\<close>.
\<close>

definition adjustRun ::
  "bool \<Rightarrow> real \<Rightarrow> bool \<Rightarrow> nat \<Rightarrow> nat \<Rightarrow> int \<Rightarrow> CharacterResult list
     \<Rightarrow> TextLengthError + CharacterResult list" where
  "adjustRun isHorizontal target spacing i j resolvedChildren res =
     (if i < j \<and> length res < j then Inl ResultOutOfRange
      else
        (case fold (measureStep res isHorizontal i) [i..<j] (0, 0, 0, []) of
           (a, b, n0, visualToLogical) \<Rightarrow>
             (let n1 = n0 + resolvedChildren;
                  n = (if \<not> spacing then n1 - 1 else n1);
                  delta = target - (b - a)
              in if n = 0 then Inl DivisionByZero
                 else
                   (let d = (if isHorizontal then (delta / real_of_int n, 0)
                             else (0, delta / real_of_int n))
                    in if visualToLogical = [] then Inl NoVisualIndex
                       else
                         (case fold (adjustStep spacing d (last (qmapKeys visualToLogical)))
                                    visualToLogical (Inr (res, pnull, False)) of
                            Inl e \<Rightarrow> Inl e
                          | Inr (res1, shift, secondTextLengthApplied) \<Rightarrow>
                              (if length res1 \<le> i then Inl ResultOutOfRange
                               else
                                 (let lastVisualValue = last (qmapKeys visualToLogical);
                                      m1 = collectAfter res1 [j..<length res1] [];
                                      m2 = collectBefore res1 (rev [0..<Suc i]) m1
                                  in Inr (fold (shiftAfter shift lastVisualValue) m2 res1))))))))"

text \<open>
  \<^verbatim>\<open>applyTextLength\<close> on the state \<^verbatim>\<open>result\<close>, \<^verbatim>\<open>currentIndex\<close> and
  \<^verbatim>\<open>resolvedDescendentNodes\<close>. The children run first, on the node's local counter
  \<^verbatim>\<open>resolvedChildren\<close>.
\<close>

type_synonym TextLengthState = "CharacterResult list \<times> nat \<times> int"

fun applyTextLength :: "bool \<Rightarrow> KoShape \<Rightarrow> TextLengthState \<Rightarrow> TextLengthError + TextLengthState"
  and applyTextLengthChildren ::
    "bool \<Rightarrow> KoShape list \<Rightarrow> TextLengthState \<Rightarrow> TextLengthError + TextLengthState" where
  "applyTextLength isHorizontal OtherShape st = Inr st"
| "applyTextLength isHorizontal (ChunkShape len spacing nc children) (res, currentIndex, resolved) =
     (let i = currentIndex; j = i + nc
      in case applyTextLengthChildren isHorizontal children (res, currentIndex, 0) of
           Inl e \<Rightarrow> Inl e
         | Inr (res1, currentIndex1, resolvedChildren) \<Rightarrow>
             (if \<not> isAuto len then
                (case adjustRun isHorizontal (customValue len) spacing i j resolvedChildren res1 of
                   Inl e \<Rightarrow> Inl e
                 | Inr res2 \<Rightarrow> Inr (res2, j, resolved + 1))
              else Inr (res1, j, resolved)))"
| "applyTextLengthChildren isHorizontal [] st = Inr st"
| "applyTextLengthChildren isHorizontal (child # rest) st =
     (case applyTextLength isHorizontal child st of
        Inl e \<Rightarrow> Inl e
      | Inr st1 \<Rightarrow> applyTextLengthChildren isHorizontal rest st1)"

section \<open>Predicates used in the statements\<close>

text \<open>
  \<open>resFrame S r r'\<close>: the result vector \<open>r'\<close> has the length of \<open>r\<close>, agrees with
  it outside the indices \<open>S\<close>, and no character that was not addressable in \<open>r\<close> is
  addressable in \<open>r'\<close>.
\<close>

definition resFrame :: "nat set \<Rightarrow> CharacterResult list \<Rightarrow> CharacterResult list \<Rightarrow> bool" where
  "resFrame S r r' \<longleftrightarrow>
     length r' = length r \<and> (\<forall>k. k \<notin> S \<longrightarrow> r' ! k = r ! k)
     \<and> (\<forall>k < length r. addressable (r' ! k) \<longrightarrow> addressable (r ! k))"

text \<open>The fields of a line box that placing words and finalizing leave alone.\<close>

definition lineKept :: "LineBox \<Rightarrow> LineBox \<Rightarrow> bool" where
  "lineKept line line' \<longleftrightarrow>
     chunks line' = chunks line \<and> currentChunk line' = currentChunk line
     \<and> lastLine line' = lastLine line \<and> firstLine line' = firstLine line
     \<and> justifyLine line' = justifyLine line \<and> textIndent line' = textIndent line
     \<and> expectedLineTop line' = expectedLineTop line"

definition wordKept :: "nat set \<Rightarrow> WordLoop \<Rightarrow> WordLoop \<Rightarrow> bool" where
  "wordKept S s s' =
     (case s of (res, pos, la, ch, line) \<Rightarrow>
      case s' of (res', pos', la', ch', line') \<Rightarrow>
        resFrame S res res' \<and> chunkIndices ch' = chunkIndices ch
        \<and> length_chunk ch' = length_chunk ch \<and> lineKept line line')"

text \<open>The shape of the current line throughout simple line breaking: one chunk, selected.\<close>

definition oneChunk :: "LineBox \<Rightarrow> bool" where
  "oneChunk l \<longleftrightarrow> length (chunks l) = 1 \<and> currentChunk l = 0"

text \<open>
  The character indices a state of the line engine has assigned so far, in order: those of
  the finished line boxes, of the current line, and of the pending word \<open>w\<close>.
\<close>

definition flatP :: "LayoutState \<times> nat list \<Rightarrow> nat list" where
  "flatP s = concat (map allIndices (lineBoxes (fst s))) @ allIndices (currentLine (fst s)) @ snd s"

text \<open>
  \<open>stepOk new s s'\<close>: from \<open>s\<close> to \<open>s'\<close> the indices \<open>new\<close> were taken up, nothing
  assigned was lost or reordered, only assigned characters were changed, and finished line
  boxes were kept.
\<close>

definition stepOk :: "nat list \<Rightarrow> LayoutState \<times> nat list \<Rightarrow> LayoutState \<times> nat list \<Rightarrow> bool" where
  "stepOk new s s' \<longleftrightarrow>
     oneChunk (currentLine (fst s')) \<and> flatP s' = flatP s @ new
     \<and> resFrame (set (flatP s) \<union> set new) (result (fst s)) (result (fst s'))
     \<and> (\<exists>pre. lineBoxes (fst s') = lineBoxes (fst s) @ pre)"


text \<open>
  The size of a rectangle along the inline axis, as \<^verbatim>\<open>flowTextInShapes\<close> reads the
  length of the word from \<^verbatim>\<open>wordBox\<close>. A shape has no room for a word of size \<open>w\<close> when
  it contains no rectangle of that size, and no line long enough when none of the lines
  that \<^verbatim>\<open>findLineBoxesForFirstPos\<close> finds in it for a word box of that size is longer.
\<close>

definition inlineSizeOf :: "bool \<Rightarrow> QRectF \<Rightarrow> real" where
  "inlineSizeOf isHorizontal r = (if isHorizontal then rw r else rh r)"

definition noRoom :: "bool \<Rightarrow> real \<Rightarrow> Shape \<Rightarrow> bool" where
  "noRoom isHorizontal w s \<longleftrightarrow> (\<forall>r. inlineSizeOf isHorizontal r = w \<longrightarrow> \<not> containsRect s r)"

definition noLongLine :: "Geometry \<Rightarrow> bool \<Rightarrow> WritingMode \<Rightarrow> real \<Rightarrow> Shape \<Rightarrow> bool" where
  "noLongLine G isHorizontal mode w s \<longleftrightarrow>
     (\<forall>pos wb. inlineSizeOf isHorizontal wb = w \<longrightarrow>
        (\<forall>l \<in> set (findLineBoxesForFirstPos G s pos wb mode). \<not> lineLength l > w))"

section \<open>Concrete inputs\<close>

text \<open>A visible, addressable character of advance 10 at the origin, with no break after it.\<close>

definition glyph :: CharacterResult where
  "glyph = \<lparr>finalPosition = (0, 0), rotate = 0, hidden = False, addressable = True, middle = False,
     anchored_chunk = False, path = [], boundingBox = \<lparr>rx = 0, ry = - 8, rw = 10, rh = 10\<rparr>,
     visualIndex = 0, cssPosition = (0, 0), advance = (10, 0), breakType = NoBreak,
     lineEnd = NoChange, lineStart = NoChange, justifyBefore = False, justifyAfter = False,
     isHanging = False, textLengthApplied = False, overflowWrap = False, halfLeading = 1,
     ascent = - 8, descent = 2, fontStyle = StyleNormal, fontWeight = 400,
     anchor = AnchorStart, direction = DirectionLeftToRight\<rparr>"

text \<open>The same character anchored in the middle, 130 units along the inline axis.\<close>

definition glyphOnPath :: CharacterResult where
  "glyphOnPath = glyph\<lparr>finalPosition := (130, 0), anchor := AnchorMiddle\<rparr>"

text \<open>
  A line feed as the layout pass classifies it: a hard break that collapses at both line
  edges. \<open>sampleText\<close> is the text \<^verbatim>\<open>AB\<close>, line feed, \<^verbatim>\<open>CD\<close> after shaping, left to right.
\<close>

definition lineFeed :: CharacterResult where
  "lineFeed = glyph\<lparr>breakType := HardBreak, lineEnd := Collapse, lineStart := Collapse\<rparr>"

definition sampleText :: "CharacterResult list" where
  "sampleText = [glyph\<lparr>visualIndex := 0, anchored_chunk := True\<rparr>, glyph\<lparr>visualIndex := 1\<rparr>,
     lineFeed\<lparr>visualIndex := 2\<rparr>, glyph\<lparr>visualIndex := 3\<rparr>, glyph\<lparr>visualIndex := 4\<rparr>]"

text \<open>A collapsed white-space character: not addressable, with no glyph of its own.\<close>

definition collapsedSpace :: CharacterResult where
  "collapsedSpace = glyph\<lparr>addressable := False, visualIndex := - 1\<rparr>"

text \<open>Horizontal left-to-right text without \<^verbatim>\<open>inline-size\<close> and without indent.\<close>

definition propsAuto :: TextProperties where
  "propsAuto = \<lparr>writingMode = HorizontalTB, textDirection = DirectionLeftToRight,
     inlineSize = \<lparr>isAuto = True, customValue = 0\<rparr>, textAnchor = AnchorStart,
     textIndentInfo = \<lparr>indentValue = 0, isPercentage = False, hanging = False, eachLine = False\<rparr>\<rparr>"

definition propsInline :: "real \<Rightarrow> TextProperties" where
  "propsInline v = propsAuto\<lparr>inlineSize := \<lparr>isAuto = False, customValue = v\<rparr>\<rparr>"

text \<open>A line feed followed by one character, and two characters.\<close>

definition feedThenGlyph :: "CharacterResult list" where
  "feedThenGlyph = [lineFeed, glyph\<lparr>visualIndex := 1\<rparr>]"

definition twoGlyphs :: "CharacterResult list" where
  "twoGlyphs = [glyph, glyph\<lparr>visualIndex := 1\<rparr>]"

text \<open>
  The letter A followed by a line feed, its break classes, and a sub-chunk with default
  properties in wrapping text.
\<close>

definition letterFeed :: "QChar list" where
  "letterFeed = [0x41, 0x0A]"

definition letterFeedBreaks :: "LineBreakClass list" where
  "letterFeedBreaks = [LINEBREAK_NOBREAK, LINEBREAK_MUSTBREAK]"

definition plainEnv :: ClassifyEnv where
  "plainEnv = \<lparr>noWrap = False, collapseLastSpace = (\<lambda>c. c = 0x20), canHangFirst = (\<lambda>c. False),
     canHangLast = (\<lambda>c. False), canHangEnd = (\<lambda>c. False)\<rparr>"

definition plainChunk :: SubChunkProps where
  "plainChunk = \<lparr>chunkAnchor = AnchorStart, chunkDirection = DirectionLeftToRight,
     breakAnywhere = False, hangFirst = False, hangLast = False, hangEnd = False, hangForce = False,
     chunkOverflowWrap = False, firstTextInPath = False\<rparr>"


definition runLength30 :: KoShape where
  "runLength30 = ChunkShape \<lparr>isAuto = False, customValue = 30\<rparr> False 2 []"

definition twoPlaced :: "CharacterResult list" where
  "twoPlaced = [glyph\<lparr>anchored_chunk := True\<rparr>, glyph\<lparr>visualIndex := 1, finalPosition := (10, 0)\<rparr>]"

text \<open>
  A rectangular shape 10 wide and 100 high with its corner at the origin, as the line engine
  observes it, and horizontal left-to-right properties with \<^verbatim>\<open>text-align: start\<close>.
  \<open>narrowGeometry\<close> is the line geometry of this rectangle for a word box 20 wide and 10
  high searched from the origin: the lines of \<^verbatim>\<open>offsetPoly\<close> are \<open>y = 6\<close>, \<open>y = -6\<close>,
  \<open>x = 21\<close>, \<open>x = -1\<close>, \<open>y = 106\<close>, \<open>y = 94\<close>, \<open>x = 11\<close>, \<open>x = -11\<close> and \<open>y = 5\<close>, and
  a line across the rectangle is 10 long.
\<close>

definition narrowShape :: Shape where
  "narrowShape =
     \<lparr>shapeBoundingRect = \<lparr>rx = 0, ry = 0, rw = 10, rh = 100\<rparr>, shapeIsEmpty = False,
      fillPolygons = [[(0, 0), (10, 0), (10, 100), (0, 100), (0, 0)]],
      containsPoint = (\<lambda>p. 0 \<le> fst p \<and> fst p \<le> 10 \<and> 0 \<le> snd p \<and> snd p \<le> 100),
      containsRect = (\<lambda>r. 0 \<le> rw r \<and> 0 \<le> rh r \<and> 0 \<le> rx r \<and> rx r + rw r \<le> 10
                           \<and> 0 \<le> ry r \<and> ry r + rh r \<le> 100)\<rparr>"

definition narrowGeometry :: Geometry where
  "narrowGeometry =
     \<lparr>offsetIntersections = (\<lambda>polygon wb terminator mode.
        [(21, 6), (- 1, 6), (11, 6), (- 11, 6), (21, - 6), (- 1, - 6), (11, - 6), (- 11, - 6),
         (21, 106), (21, 94), (21, 5), (- 1, 106), (- 1, 94), (- 1, 5),
         (11, 106), (- 11, 106), (11, 94), (- 11, 94), (11, 5), (- 11, 5)]),
      findLineBoxesForFirstPos = (\<lambda>s pos wb mode.
        if 0 \<le> snd pos + rectTop wb \<and> snd pos + rectBottom wb \<le> 100
        then [\<lparr>p1 = (0, snd pos), p2 = (10, snd pos)\<rparr>] else [])\<rparr>"

definition flowProps :: FlowProperties where
  "flowProps = \<lparr>writingMode = HorizontalTB, textDirection = DirectionLeftToRight,
     inlineSize = \<lparr>isAuto = True, customValue = 0\<rparr>, textAnchor = AnchorStart,
     textIndentInfo = \<lparr>indentValue = 0, isPercentage = False, hanging = False, eachLine = False\<rparr>,
     textAlign = AlignStart, textAlignLast = AlignLastAuto\<rparr>"

text \<open>
  The state of \<^verbatim>\<open>flowTextInShapes\<close> for \<open>twoGlyphs\<close> and this shape when both characters
  have joined the word and no line has been found yet.
\<close>

definition wordPending :: FlowState where
  "wordPending =
     \<lparr>result = twoGlyphs, currentPos = (0, 0), wordIndices = [0, 1], wordAdvance = (20, 0),
      currentLine = LineBox_default\<lparr>currentChunk := 0, lastLine := True\<rparr>, lineOffset = (0, 0),
      lineBoxes = [], wordBox = \<lparr>rx = 0, ry = - 8, rw = 20, rh = 10\<rparr>, flowFirstLine = True,
      indentLine = True, currentShape = emptyShape, shapesRest = [narrowShape],
      flowTextIndent = (0, 0)\<rparr>"

section \<open>Unfolding the model on concrete inputs\<close>

lemmas geom_defs = padd_def psub_def pneg_def pscale_def pnull_def rectNull_def rectIsNull_def rectIsEmpty_def
  rectTranslated_def rectUnited_def lineNull_def lineCenter_def qRound_def c_trunc_def qmapValues_def qmapKeys_def
  inlinePart_def

lemmas line_defs = LineChunk_default_def LineBox_default_def LineBox_startEnd_def LineBox_lines_def chunk_def
  setCurrentChunk_def clearAndAdjust_def isEmpty_def setCurrentChunkForPos_def placeChar_def addWordStep_def
  addWord_def addWordToLine_def moveChar_def allIndices_def lineHeightOffset_def hangAt_def
  handleCollapseAndHang_def extentStep_def anchorChar_def applyInlineSizeAnchoring_def justificationStep_def
  positionStep_def finalizeChunk_def finalizeLine_def

lemmas break_defs = isLtr_def isHorizontalMode_def breakLines_textIndent_def breakLines_endPos_def
  breakLines_init_def finalizeAppend_def startNextLine_def softIndent_def hardIndent_def overflowStep_def
  collectChar_def wordOrBreak_def softBreakStep_def wordStep_def hardBreakStep_def lastLineStep_def
  breakLines_body_def breakLines_def

lemmas example_defs = glyph_def glyphOnPath_def lineFeed_def sampleText_def collapsedSpace_def propsAuto_def
  propsInline_def feedThenGlyph_def twoGlyphs_def

lemmas tf_defs = tfIdentity_def tfShear_def tfTranslate_def tfScale_def tfMul_def shearOf_def

lemmas flow_defs = isLtr_def isHorizontalMode_def emptyShape_def rectNormalized_def rectCenter_def
  rectBottomLeft_def rectTopLeft_def rectTopRight_def rectBottomRight_def rectTop_def rectBottom_def
  rectLeft_def rectRight_def rectSetTop_def rectSetBottom_def rectSetLeft_def rectSetRight_def
  addCandidate_def getFirstPosition_def getEstimatedHeight_def textAnchorForTextAlign_def flowAnchor_def
  shapeStart_def flow_init_def flowCollect_def chunkAt_def flowPlace_def hideWord_def flowFinishLine_def flowOffsetLine_def flowNewLine_def flowSeek_def
  flowHardBreak_def flow_body_def flowTextInShapes_def

lemmas flow_example_defs = narrowShape_def narrowGeometry_def flowProps_def wordPending_def

section \<open>Properties of the line engine\<close>

lemma resFrame_refl: "resFrame S r r"
  by (simp add: resFrame_def)

lemma resFrame_trans: "resFrame S r r' \<Longrightarrow> resFrame T r' r'' \<Longrightarrow> S \<subseteq> U \<Longrightarrow> T \<subseteq> U \<Longrightarrow> resFrame U r r''"
  unfolding resFrame_def by (metis subsetD)

lemma resFrame_mono: "resFrame S r r' \<Longrightarrow> S \<subseteq> T \<Longrightarrow> resFrame T r r'"
  unfolding resFrame_def by blast

lemma resFrame_update:
  assumes "j \<in> S" "addressable c \<longrightarrow> addressable (r ! j)"
  shows "resFrame S r (r[j := c])"
proof -
  have "r[j := c] ! k = r ! k" if "k \<notin> S" for k
    using that assms(1) by (cases "k = j") auto
  moreover have "addressable (r ! k)" if "k < length r" "addressable (r[j := c] ! k)" for k
    using that assms(2) by (cases "k = j") auto
  ultimately show ?thesis by (simp add: resFrame_def)
qed

lemma resFrame_foldU:
  assumes "\<And>x s. x \<in> set xs \<Longrightarrow> resFrame (F x) (g s) (g (f x s))"
  shows "resFrame (\<Union>x\<in>set xs. F x) (g s) (g (fold f xs s))"
proof -
  let ?U = "\<Union>x\<in>set xs. F x"
  have "set ys \<subseteq> set xs \<Longrightarrow> resFrame ?U (g s) (g (fold f ys s))" for ys
  proof (induction ys arbitrary: s)
    case Nil then show ?case by (simp add: resFrame_refl)
  next
    case (Cons y ys)
    have "resFrame ?U (g s) (g (f y s))"
      using Cons.prems assms[of y s] by (auto intro: resFrame_mono)
    moreover have "resFrame ?U (g (f y s)) (g (fold f ys (f y s)))" using Cons by simp
    ultimately show ?case by (simp add: resFrame_trans[OF _ _ subset_refl subset_refl])
  qed
  then show ?thesis by simp
qed

lemma resFrame_fold:
  assumes "\<And>j s. j \<in> set js \<Longrightarrow> resFrame {j} (g s) (g (f j s))"
  shows "resFrame (set js) (g s) (g (fold f js s))"
  using resFrame_foldU[where F="\<lambda>j. {j}" and xs=js and g=g and f=f and s=s] assms by simp

lemma lineKept_refl: "lineKept l l"
  by (simp add: lineKept_def)

lemma lineKept_trans: "lineKept a b \<Longrightarrow> lineKept b c \<Longrightarrow> lineKept a c"
  by (simp add: lineKept_def)

lemma wordKept_refl: "wordKept S s s"
  by (simp add: wordKept_def resFrame_refl lineKept_refl split: prod.splits)

lemma wordKept_trans:
  "wordKept S a b \<Longrightarrow> wordKept T b c \<Longrightarrow> S \<subseteq> U \<Longrightarrow> T \<subseteq> U \<Longrightarrow> wordKept U a c"
  unfolding wordKept_def
  by (auto split: prod.splits intro: resFrame_trans lineKept_trans)

lemma addWordStep_kept: "wordKept {j} s (addWordStep ltr f j s)"
proof -
  obtain res pos la ch line where s: "s = (res, pos, la, ch, line)" by (cases s) auto
  show ?thesis unfolding s
    by (auto simp: addWordStep_def Let_def placeChar_def wordKept_def lineKept_def intro!: resFrame_update)
qed

lemma addWordFold_kept: "wordKept (set w) s (fold (addWordStep ltr f) w s)"
proof (induction w arbitrary: s)
  case Nil
  then show ?case by (simp add: wordKept_refl)
next
  case (Cons j js)
  show ?case unfolding fold_simps
    by (rule wordKept_trans[OF addWordStep_kept Cons.IH]) auto
qed

lemma hangAt_frame: "resFrame {i} res (hangAt e ltr i res)"
  by (auto simp: hangAt_def Let_def intro!: resFrame_update)

lemma collapseHangLoop_frame: "resFrame (set xs) res (collapseHangLoop e i l a xs res)"
proof (induction xs arbitrary: res)
  case Nil then show ?case by (simp add: resFrame_refl)
next
  case (Cons x xs)
  define res1 where "res1 =
            (if lineEnd (res ! x) = Collapse
             then res[x := (res ! x)\<lparr>addressable := False, hidden := True\<rparr>]
             else if lineEnd (res ! x) = ForceHang \<and> i
             then hangAt e l x res
             else if lineEnd (res ! x) = HangBehaviour \<and> i \<and> a
             then hangAt e l x res
             else res)"
  have r1: "resFrame {x} res res1"
    unfolding res1_def by (auto intro!: resFrame_update hangAt_frame resFrame_refl)
  have eq: "collapseHangLoop e i l a (x # xs) res =
      (if lineEnd (res1 ! x) \<noteq> Collapse then res1 else collapseHangLoop e i l a xs res1)"
    by (simp add: res1_def Let_def)
  show ?case unfolding eq
    using r1 Cons.IH[of res1]
    by (auto intro: resFrame_mono resFrame_trans[where S="{x}" and T="set xs"])
qed

lemma handleCollapseAndHang_frame:
  "resFrame (set (chunkIndices ch)) res (handleCollapseAndHang res ch i l a)"
  using collapseHangLoop_frame[of "rev (chunkIndices ch)"] by (simp add: handleCollapseAndHang_def)

lemma qmapInsert_pairs: "set (qmapInsert k v m) \<subseteq> insert (k, v) (set m)"
  by (induction m) (auto split: if_splits)

lemma qmapInsert_values: "set (map snd (qmapInsert k v m)) \<subseteq> insert v (set (map snd m))"
  using qmapInsert_pairs[of k v m] by force

lemma qmapFold_values:
  "set (qmapValues (fold (\<lambda>j m. qmapInsert (f j) j m) js m0)) \<subseteq> set js \<union> set (qmapValues m0)"
proof (induction js arbitrary: m0)
  case Nil then show ?case by simp
next
  case (Cons j js)
  show ?case using Cons.IH[of "qmapInsert (f j) j m0"] qmapInsert_values[of "f j" j m0]
    by (auto simp: qmapValues_def)
qed

lemma positionStep_frame: "resFrame {j} (fst s) (fst (positionStep jo j s))"
  by (cases s) (auto simp: positionStep_def Let_def intro!: resFrame_update resFrame_refl)

lemma anchorChar_frame: "resFrame {j} res (anchorChar sp a b l j res)"
  by (auto simp: anchorChar_def Let_def intro!: resFrame_update resFrame_refl)

lemma applyInlineSizeAnchoring_frame:
  "resFrame (set (chunkIndices ch)) res (applyInlineSizeAnchoring res ch an ap l h ti)"
  unfolding applyInlineSizeAnchoring_def Let_def
  by (rule resFrame_fold[where g="\<lambda>x. x"]) (rule anchorChar_frame)

lemma moveChar_frame: "resFrame {j} res (moveChar d j res)"
  by (auto simp: moveChar_def intro!: resFrame_update)

lemma allIndices_upd [simp]:
  "allIndices (l\<lparr>actualLineTop := a\<rparr>) = allIndices l"
  "allIndices (l\<lparr>actualLineBottom := b\<rparr>) = allIndices l"
  "allIndices (l\<lparr>baselineTop := p\<rparr>) = allIndices l"
  "allIndices (l\<lparr>baselineBottom := q\<rparr>) = allIndices l"
  "allIndices (l\<lparr>lastLine := c\<rparr>) = allIndices l"
  "allIndices (l\<lparr>firstLine := c\<rparr>) = allIndices l"
  by (simp_all add: allIndices_def)

lemma lineHeightOffset_kept:
  assumes "lineHeightOffset wm res line fl = (off, res', line')"
  shows "resFrame (set (allIndices line)) res res' \<and> lineKept line line'"
proof (cases "chunks line = []")
  case True
  then show ?thesis using assms by (auto simp: lineHeightOffset_def resFrame_refl lineKept_refl)
next
  case False
  have mv: "resFrame (set (allIndices line)) res (fold (moveChar d) (allIndices line) res)" for d
    by (rule resFrame_fold[where g="\<lambda>x. x"]) (rule moveChar_frame)
  show ?thesis using assms False
    by (auto simp: lineHeightOffset_def Let_def lineKept_def mv split: if_splits)
qed

lemma frame_after_pair:
  assumes "resFrame S r0 (fst X)" and "\<And>r. resFrame S r (A r)"
  shows "resFrame S r0 (fst (case X of (res2, pos2) \<Rightarrow> if c then (A res2, pos2) else (res2, pos2)))"
proof (cases X)
  case (Pair a b)
  then show ?thesis using assms(1) assms(2)[of a]
    by (auto intro: resFrame_trans[OF _ _ subset_refl subset_refl])
qed

lemma finalizeChunk_frame:
  "resFrame (set (chunkIndices ch)) (fst s) (fst (finalizeChunk line lo an h l i t ch s))"
proof -
  obtain res0 pos0 where s: "s = (res0, pos0)" by (cases s)
  let ?S = "set (chunkIndices ch)"
  let ?vals = "qmapValues (fold (\<lambda>j m. qmapInsert (visualIndex (res0 ! j)) j m) (chunkIndices ch) [])"
  let ?res1 = "handleCollapseAndHang res0 ch i l (lastLine line)"
  have v: "set ?vals \<subseteq> ?S"
    using qmapFold_values[of "\<lambda>j. visualIndex (res0 ! j)" "chunkIndices ch" "[]"]
    by (simp add: qmapValues_def)
  have f1: "resFrame ?S res0 ?res1" by (rule handleCollapseAndHang_frame)
  have f2: "resFrame ?S res0 (fst (fold (positionStep jo) ?vals (?res1, p)))" for jo p
  proof -
    have "resFrame (set ?vals) (fst (?res1, p)) (fst (fold (positionStep jo) ?vals (?res1, p)))"
      by (rule resFrame_fold[where g=fst]) (rule positionStep_frame)
    then have "resFrame ?S ?res1 (fst (fold (positionStep jo) ?vals (?res1, p)))"
      using v by (auto intro: resFrame_mono)
    with f1 show ?thesis by (rule resFrame_trans) auto
  qed
  show ?thesis unfolding s finalizeChunk_def Let_def prod.case fst_conv
    by (rule frame_after_pair[OF f2]) (rule applyInlineSizeAnchoring_frame)
qed

lemma finalizeLine_kept:
  fixes st :: "'a LayoutState_scheme" and an wm l i t
  defines "st' \<equiv> finalizeLine an wm l i t st"
  shows "resFrame (set (allIndices (currentLine st))) (result st) (result st')"
    and "lineKept (currentLine st) (currentLine st')"
    and "lineBoxes st' = lineBoxes st"
    and "wordIndices st' = wordIndices st"
    and "wordAdvance st' = wordAdvance st"
proof -
  let ?line = "currentLine st"
  let ?f = "finalizeChunk ?line (lineOffset st) an (wm = HorizontalTB) l i t"
  obtain res1 pos1 where c: "fold ?f (chunks ?line) (result st, currentPos st) = (res1, pos1)"
    by (cases "fold ?f (chunks ?line) (result st, currentPos st)")
  obtain off res2 line2 where h:
    "lineHeightOffset wm res1 ?line (if t then True else firstLine ?line) = (off, res2, line2)"
    by (cases "lineHeightOffset wm res1 ?line (if t then True else firstLine ?line)")
  have "resFrame (\<Union>c\<in>set (chunks ?line). set (chunkIndices c)) (fst (result st, currentPos st))
          (fst (fold ?f (chunks ?line) (result st, currentPos st)))"
    by (rule resFrame_foldU[where g=fst]) (rule finalizeChunk_frame)
  then have r1: "resFrame (set (allIndices ?line)) (result st) res1"
    using c by (simp add: allIndices_def)
  have r2: "resFrame (set (allIndices ?line)) res1 res2" and k: "lineKept ?line line2"
    using lineHeightOffset_kept[OF h] by auto
  have eq: "st' = st\<lparr>result := res2, currentLine := line2,
                     lineOffset := padd (lineOffset st) off,
                     currentPos := padd (lineOffset st) off\<rparr>"
    using c h by (simp add: st'_def finalizeLine_def Let_def)
  show "resFrame (set (allIndices (currentLine st))) (result st) (result st')"
    unfolding eq using resFrame_trans[OF r1 r2] by simp
  show "lineKept (currentLine st) (currentLine st')" unfolding eq using k by simp
  show "lineBoxes st' = lineBoxes st" "wordIndices st' = wordIndices st" "wordAdvance st' = wordAdvance st"
    unfolding eq by simp_all
qed

lemma stepOk_refl: "oneChunk (currentLine (fst s)) \<Longrightarrow> stepOk [] s s"
  by (simp add: stepOk_def resFrame_refl)

lemma stepOk_trans:
  assumes "stepOk n1 a b" "stepOk n2 b c"
  shows "stepOk (n1 @ n2) a c"
proof -
  have ab: "flatP b = flatP a @ n1"
    "resFrame (set (flatP a) \<union> set n1) (result (fst a)) (result (fst b))"
    and bc: "flatP c = flatP b @ n2" "oneChunk (currentLine (fst c))"
    "resFrame (set (flatP b) \<union> set n2) (result (fst b)) (result (fst c))"
    using assms by (simp_all add: stepOk_def)
  obtain p1 p2 where p: "lineBoxes (fst b) = lineBoxes (fst a) @ p1" "lineBoxes (fst c) = lineBoxes (fst b) @ p2"
    using assms unfolding stepOk_def by blast
  have "resFrame (set (flatP a) \<union> set (n1 @ n2)) (result (fst a)) (result (fst c))"
    by (rule resFrame_trans[OF ab(2) bc(3)]) (auto simp: ab(1))
  moreover have "flatP c = flatP a @ n1 @ n2" using ab(1) bc(1) by simp
  moreover have "lineBoxes (fst c) = lineBoxes (fst a) @ (p1 @ p2)" using p by simp
  ultimately show ?thesis using bc(2) unfolding stepOk_def by blast
qed

lemma oneChunk_chunk: "oneChunk l \<Longrightarrow> chunk l = chunks l ! 0 \<and> chunks l = [chunks l ! 0]"
  unfolding oneChunk_def chunk_def by (cases "chunks l") auto

lemma setCurrentChunk_one:
  "oneChunk l \<Longrightarrow> setCurrentChunk l c = l\<lparr>currentChunk := 0, chunks := [c]\<rparr>"
  unfolding oneChunk_def setCurrentChunk_def by (cases "chunks l") (auto simp: Let_def)

lemma setCurrentChunk_fields:
  "lastLine (setCurrentChunk l c) = lastLine l"
  "firstLine (setCurrentChunk l c) = firstLine l"
  "c \<in> set (chunks (setCurrentChunk l c))"
  unfolding setCurrentChunk_def by (auto simp: Let_def set_update_memI)

lemma addWord_props:
  fixes st :: "'a LayoutState_scheme" and ltr w
  defines "st' \<equiv> addWord ltr w st"
  shows "resFrame (set w) (result st) (result st')"
    and "lineBoxes st' = lineBoxes st"
    and "wordIndices st' = wordIndices st"
    and "wordAdvance st' = wordAdvance st"
    and "lineOffset st' = lineOffset st"
    and "lastLine (currentLine st') = lastLine (currentLine st)"
    and "firstLine (currentLine st') = firstLine (currentLine st)"
    and "set w \<subseteq> set (allIndices (currentLine st'))"
    and "oneChunk (currentLine st) \<Longrightarrow>
           oneChunk (currentLine st') \<and> allIndices (currentLine st') = allIndices (currentLine st) @ w"
proof -
  let ?s0 = "(result st, currentPos st, currentPos st, chunk (currentLine st), currentLine st)"
  obtain res pos la ch line where f: "fold (addWordStep ltr (hd w)) w ?s0 = (res, pos, la, ch, line)"
    by (cases "fold (addWordStep ltr (hd w)) w ?s0") auto
  have k: "resFrame (set w) (result st) res" "chunkIndices ch = chunkIndices (chunk (currentLine st))"
    "lineKept (currentLine st) line"
    using addWordFold_kept[of w ?s0 ltr "hd w"] unfolding f by (auto simp: wordKept_def)
  let ?c = "ch\<lparr>chunkIndices := chunkIndices ch @ w\<rparr>"
  have eq: "st' = st\<lparr>result := res, currentPos := la, currentLine := setCurrentChunk line ?c\<rparr>"
    using f by (simp add: st'_def addWord_def)
  show "resFrame (set w) (result st) (result st')" unfolding eq using k(1) by simp
  show "lineBoxes st' = lineBoxes st" "wordIndices st' = wordIndices st"
    "wordAdvance st' = wordAdvance st" "lineOffset st' = lineOffset st" unfolding eq by simp_all
  show "lastLine (currentLine st') = lastLine (currentLine st)"
    "firstLine (currentLine st') = firstLine (currentLine st)"
    unfolding eq using k(3) by (simp_all add: setCurrentChunk_fields lineKept_def)
  have "?c \<in> set (chunks (setCurrentChunk line ?c))" by (rule setCurrentChunk_fields)
  then have "set (chunkIndices ?c) \<subseteq> set (allIndices (setCurrentChunk line ?c))"
    unfolding allIndices_def by auto
  then show "set w \<subseteq> set (allIndices (currentLine st'))"
    unfolding eq by simp
  show "oneChunk (currentLine st') \<and> allIndices (currentLine st') = allIndices (currentLine st) @ w"
    if o: "oneChunk (currentLine st)"
  proof -
    have ol: "oneChunk line" using o k(3) by (simp add: oneChunk_def lineKept_def)
    obtain c0 where c0: "chunks (currentLine st) = [c0]" "chunk (currentLine st) = c0"
      using oneChunk_chunk[OF o] by metis
    have "allIndices (currentLine st) = chunkIndices (chunk (currentLine st))"
      using c0 by (simp add: allIndices_def)
    then show ?thesis unfolding eq using k(2)
      by (simp add: setCurrentChunk_one[OF ol] allIndices_def oneChunk_def)
  qed
qed

lemma addWord_stepOk:
  assumes "oneChunk (currentLine st)"
  shows "stepOk [] (st, w) (addWord ltr w st, [])"
proof -
  note p = addWord_props(1,2)[where ltr=ltr and w=w and st=st]
    addWord_props(9)[where ltr=ltr and w=w and st=st, OF assms]
  have "resFrame (set (flatP (st, w)) \<union> set []) (result st) (result (addWord ltr w st))"
    by (rule resFrame_mono[OF p(1)]) (auto simp: flatP_def)
  then show ?thesis using p(2,3) by (simp add: stepOk_def flatP_def)
qed

lemma clearAndAdjust_props:
  "oneChunk (clearAndAdjust l h c i)"
  "allIndices (clearAndAdjust l h c i) = []"
  "lastLine (clearAndAdjust l h c i) = lastLine l"
  "isEmpty (clearAndAdjust l h c i)"
  by (simp_all add: clearAndAdjust_def Let_def oneChunk_def allIndices_def LineChunk_default_def isEmpty_def)

lemma lineKept_props:
  assumes "lineKept l l'"
  shows "allIndices l' = allIndices l" "oneChunk l' = oneChunk l" "isEmpty l' = isEmpty l"
    "lastLine l' = lastLine l" "firstLine l' = firstLine l"
  using assms by (simp_all add: lineKept_def allIndices_def oneChunk_def isEmpty_def)

lemma finalizeAppend_props:
  fixes st :: LayoutState and P :: "'a TextProperties_scheme"
  defines "st' \<equiv> finalizeAppend P st"
  shows "lineBoxes st' = lineBoxes st @ [currentLine st']"
    and "lineKept (currentLine st) (currentLine st')"
    and "resFrame (set (allIndices (currentLine st))) (result st) (result st')"
    and "wordIndices st' = wordIndices st"
    and "wordAdvance st' = wordAdvance st"
    and "currentLine st' =
           currentLine (finalizeLine (textAnchor P) (writingMode P) (isLtr P) (\<not> isAuto (inlineSize P)) False st)"
  unfolding st'_def finalizeAppend_def Let_def
  using finalizeLine_kept[where st=st and an="textAnchor P" and wm="writingMode P" and l="isLtr P"
      and i="\<not> isAuto (inlineSize P)" and t=False]
  by simp_all

lemma startNextLine_props:
  fixes st :: LayoutState and P :: "'a TextProperties_scheme" and ind
  defines "st' \<equiv> startNextLine P ind st"
  shows "result st' = result st" "lineBoxes st' = lineBoxes st" "wordIndices st' = wordIndices st"
    "wordAdvance st' = wordAdvance st" "lineOffset st' = lineOffset st"
    "oneChunk (currentLine st')" "allIndices (currentLine st') = []"
    "lastLine (currentLine st') = lastLine (currentLine st)" "isEmpty (currentLine st')"
  unfolding st'_def startNextLine_def Let_def by (simp_all add: clearAndAdjust_props)

lemma nextLine_stepOk:
  "stepOk [] (st, w) (startNextLine P ind (finalizeAppend P st), w)"
proof -
  let ?a = "finalizeAppend P st"
  let ?b = "startNextLine P ind ?a"
  note fa = finalizeAppend_props[where st=st and P=P]
  note sn = startNextLine_props[where st="?a" and P=P and ind=ind]
  have f: "flatP (?b, w) = flatP (st, w) @ []"
    using fa(1,2) sn(2,7) by (simp add: flatP_def lineKept_props(1)[OF fa(2)])
  have r: "resFrame (set (flatP (st, w)) \<union> set []) (result st) (result ?b)"
    unfolding sn(1) by (rule resFrame_mono[OF fa(3)]) (auto simp: flatP_def)
  have l: "lineBoxes ?b = lineBoxes st @ [currentLine ?a]" using fa(1) sn(2) by simp
  show ?thesis unfolding stepOk_def using f r l sn(6) by simp
qed

lemma stepOk_wordAdvance:
  "stepOk n s (st'\<lparr>wordAdvance := a\<rparr>, w') = stepOk n s (st', w')"
  "stepOk n (st\<lparr>wordAdvance := a\<rparr>, w) s' = stepOk n (st, w) s'"
  by (simp_all add: stepOk_def flatP_def)

lemma stepOk_word:
  "stepOk n s (st', w) \<Longrightarrow> stepOk (n @ [i]) s (st', w @ [i])"
  by (auto simp: stepOk_def flatP_def intro: resFrame_mono)

lemma overflowStep_stepOk:
  assumes "oneChunk (currentLine (fst s))"
  shows "stepOk [i] s (overflowStep P i s)"
proof -
  obtain st pw where s: "s = (st, pw)" by (cases s)
  have o: "oneChunk (currentLine st)" using assms s by simp
  let ?wa = "padd (wordAdvance st) (advance (result st ! i))"
  let ?st0 = "st\<lparr>wordAdvance := ?wa\<rparr>"
  show ?thesis
  proof (cases "inlinePart (isHorizontalMode P) ?wa \<le> customValue (inlineSize P)")
    case True
    have "stepOk ([] @ [i]) (st, pw) (?st0, pw @ [i])"
      using stepOk_word[OF stepOk_refl[of "(st, pw)"], of i] o by (simp add: stepOk_wordAdvance)
    then show ?thesis using True by (simp add: s overflowStep_def Let_def)
  next
    case False
    let ?st1 = "addWord (isLtr P) pw ?st0"
    let ?st2 = "startNextLine P (softIndent P) (finalizeAppend P ?st1)"
    have a: "stepOk [] (st, pw) (?st1, [])"
      using addWord_stepOk[of ?st0 pw "isLtr P"] o by (simp add: stepOk_wordAdvance)
    have b: "stepOk [] (?st1, []) (?st2, [])" by (rule nextLine_stepOk)
    have "stepOk ([] @ []) (st, pw) (?st2, [])" by (rule stepOk_trans[OF a b])
    then have "stepOk ([] @ [i]) (st, pw) (?st2\<lparr>wordAdvance := advance (result ?st2 ! i)\<rparr>, [] @ [i])"
      using stepOk_word[of "[]" "(st, pw)" ?st2 "[]" i] by (simp add: stepOk_wordAdvance)
    then show ?thesis using False by (simp add: s overflowStep_def Let_def)
  qed
qed

lemma overflowFold_stepOk:
  "oneChunk (currentLine (fst s)) \<Longrightarrow> stepOk xs s (fold (overflowStep P) xs s)"
proof (induction xs arbitrary: s)
  case Nil then show ?case by (simp add: stepOk_refl)
next
  case (Cons x xs)
  have a: "stepOk [x] s (overflowStep P x s)" by (rule overflowStep_stepOk[OF Cons.prems])
  then have "oneChunk (currentLine (fst (overflowStep P x s)))" by (simp add: stepOk_def)
  from stepOk_trans[OF a Cons.IH[OF this]] show ?case by simp
qed

lemma overflowStep_misc:
  "lastLine (currentLine (fst (overflowStep P i s))) = lastLine (currentLine (fst s))"
  "wordIndices (fst (overflowStep P i s)) = wordIndices (fst s)"
  "snd (overflowStep P i s) \<noteq> [] \<and> last (snd (overflowStep P i s)) = i"
proof -
  obtain st pw where s: "s = (st, pw)" by (cases s)
  let ?st0 = "st\<lparr>wordAdvance := padd (wordAdvance st) (advance (result st ! i))\<rparr>"
  let ?st1 = "addWord (isLtr P) pw ?st0"
  let ?st2 = "startNextLine P (softIndent P) (finalizeAppend P ?st1)"
  have l: "lastLine (currentLine ?st2) = lastLine (currentLine st)"
    using startNextLine_props(8)[where st="finalizeAppend P ?st1" and P=P and ind="softIndent P"]
      lineKept_props(4)[OF finalizeAppend_props(2)[where st="?st1" and P=P]]
      addWord_props(6)[where st="?st0" and ltr="isLtr P" and w=pw]
    by simp
  have w: "wordIndices ?st2 = wordIndices st"
    using startNextLine_props(3)[where st="finalizeAppend P ?st1" and P=P and ind="softIndent P"]
      finalizeAppend_props(4)[where st="?st1" and P=P]
      addWord_props(3)[where st="?st0" and ltr="isLtr P" and w=pw]
    by simp
  show "lastLine (currentLine (fst (overflowStep P i s))) = lastLine (currentLine (fst s))"
    using l by (simp add: s overflowStep_def Let_def)
  show "wordIndices (fst (overflowStep P i s)) = wordIndices (fst s)"
    using w by (simp add: s overflowStep_def Let_def)
  show "snd (overflowStep P i s) \<noteq> [] \<and> last (snd (overflowStep P i s)) = i"
    by (simp add: s overflowStep_def Let_def)
qed

lemma overflowFold_lastLine:
  "lastLine (currentLine (fst (fold (overflowStep P) xs s))) = lastLine (currentLine (fst s))"
  by (induction xs arbitrary: s) (simp_all add: overflowStep_misc)

lemma overflowFold_wordIndices:
  "wordIndices (fst (fold (overflowStep P) xs s)) = wordIndices (fst s)"
  by (induction xs arbitrary: s) (simp_all add: overflowStep_misc)

lemma overflowFold_last:
  "xs \<noteq> [] \<Longrightarrow> snd (fold (overflowStep P) xs s) \<noteq> [] \<and> last (snd (fold (overflowStep P) xs s)) = last xs"
proof (induction xs arbitrary: s)
  case Nil then show ?case by simp
next
  case (Cons x xs)
  show ?case
  proof (cases "xs = []")
    case True then show ?thesis by (simp add: overflowStep_misc)
  next
    case False then show ?thesis using Cons.IH[of "overflowStep P x s"] by simp
  qed
qed

lemma stepOk_wordIndices:
  "stepOk n s (st'\<lparr>wordIndices := a\<rparr>, w') = stepOk n s (st', w')"
  "stepOk n (st\<lparr>wordIndices := a\<rparr>, w) s' = stepOk n (st, w) s'"
  by (simp_all add: stepOk_def flatP_def)

lemma stepOk_firstLine:
  "stepOk n (st\<lparr>currentLine := (currentLine st)\<lparr>firstLine := b\<rparr>\<rparr>, w) s' = stepOk n (st, w) s'"
  by (simp add: stepOk_def flatP_def)

lemma oneChunk_upd [simp]:
  "oneChunk (l\<lparr>lastLine := b\<rparr>) = oneChunk l"
  "oneChunk (l\<lparr>firstLine := b\<rparr>) = oneChunk l"
  by (simp_all add: oneChunk_def)

lemma addWordToLine_stepOk:
  assumes "oneChunk (currentLine st)"
  shows "stepOk [] (st, wordIndices st) (addWordToLine ltr st, wordIndices (addWordToLine ltr st))"
    and "wordIndices (addWordToLine ltr st) = []"
    and "lineBoxes (addWordToLine ltr st) = lineBoxes st"
    and "lastLine (currentLine (addWordToLine ltr st)) = lastLine (currentLine st)"
    and "allIndices (currentLine (addWordToLine ltr st)) = allIndices (currentLine st) @ wordIndices st"
  using addWord_stepOk[OF assms, of "wordIndices st" ltr]
    addWord_props(2,6)[where st=st and ltr=ltr and w="wordIndices st"]
    addWord_props(9)[where st=st and ltr=ltr and w="wordIndices st", OF assms]
  by (simp_all add: addWordToLine_def stepOk_wordIndices)

lemma collectChar_props:
  fixes st :: LayoutState and index isLast cr
  defines "st1 \<equiv> collectChar index isLast cr st"
  assumes "oneChunk (currentLine st)"
  shows "stepOk [index] (st, wordIndices st) (st1, wordIndices st1)"
    and "wordIndices st1 = wordIndices st @ [index]"
    and "lastLine (currentLine st1) = isLast"
    and "lineBoxes st1 = lineBoxes st"
    and "allIndices (currentLine st1) = allIndices (currentLine st)"
  using assms(2)
  by (auto simp: st1_def collectChar_def Let_def stepOk_def flatP_def resFrame_refl)

lemma wordOrBreak_props:
  assumes "oneChunk (currentLine st)" and "wordOrBreak P sp cr st = (sb, st1)"
  shows "stepOk [] (st, wordIndices st) (st1, wordIndices st1)"
    and "lastLine (currentLine st1) = lastLine (currentLine st)"
    and "lineBoxes st1 = lineBoxes st"
    and "sb \<longrightarrow> st1 = st \<and> \<not> isAuto (inlineSize P)"
    and "\<not> sb \<longrightarrow> breakType cr \<noteq> NoBreak \<or> lastLine (currentLine st) \<longrightarrow> st1 = addWordToLine (isLtr P) st"
    and "\<not> (breakType cr \<noteq> NoBreak \<or> lastLine (currentLine st)) \<longrightarrow> st1 = st \<and> \<not> sb"
proof -
  have c: "(sb \<and> st1 = st \<and> \<not> isAuto (inlineSize P) \<and> (breakType cr \<noteq> NoBreak \<or> lastLine (currentLine st)))
      \<or> (\<not> sb \<and> st1 = addWordToLine (isLtr P) st \<and> (breakType cr \<noteq> NoBreak \<or> lastLine (currentLine st)))
      \<or> (\<not> sb \<and> st1 = st \<and> \<not> (breakType cr \<noteq> NoBreak \<or> lastLine (currentLine st)))"
    using assms(2) by (auto simp: wordOrBreak_def Let_def split: if_splits)
  note a = addWordToLine_stepOk[OF assms(1), of "isLtr P"]
  have r: "stepOk [] (st, wordIndices st) (st, wordIndices st)" using assms(1) by (simp add: stepOk_refl)
  show "stepOk [] (st, wordIndices st) (st1, wordIndices st1)" using c a(1) r by auto
  show "lastLine (currentLine st1) = lastLine (currentLine st)" using c a(4) by auto
  show "lineBoxes st1 = lineBoxes st" using c a(3) by auto
  show "sb \<longrightarrow> st1 = st \<and> \<not> isAuto (inlineSize P)" using c by auto
  show "\<not> sb \<longrightarrow> breakType cr \<noteq> NoBreak \<or> lastLine (currentLine st) \<longrightarrow> st1 = addWordToLine (isLtr P) st"
    using c by auto
  show "\<not> (breakType cr \<noteq> NoBreak \<or> lastLine (currentLine st)) \<longrightarrow> st1 = st \<and> \<not> sb" using c by auto
qed

lemma stepOk_shift: "stepOk ws (st, []) s' \<Longrightarrow> stepOk [] (st, ws) s'"
  by (simp add: stepOk_def flatP_def Un_assoc)

lemma stepOk_lastLine:
  "stepOk n s (st', w') \<Longrightarrow> oneChunk (currentLine st')"
  by (simp add: stepOk_def)

lemma softBreakStep_props:
  fixes st :: LayoutState and P :: "'a TextProperties_scheme" and cr
  defines "st' \<equiv> softBreakStep P cr st"
  assumes o: "oneChunk (currentLine st)"
  shows "stepOk [] (st, wordIndices st) (st', wordIndices st')"
    and "wordIndices st' = []"
    and "lastLine (currentLine st') = lastLine (currentLine st)"
    and "wordIndices st \<noteq> [] \<Longrightarrow>
           allIndices (currentLine st') \<noteq> [] \<and> last (allIndices (currentLine st')) = last (wordIndices st)"
proof -
  let ?w = "wordIndices st"
  define st1 where "st1 = (if \<not> isEmpty (currentLine st)
                 then startNextLine P (softIndent P) (finalizeAppend P st) else st)"
  have s1: "stepOk [] (st, ?w) (st1, ?w)"
    unfolding st1_def using nextLine_stepOk[of st ?w P "softIndent P"] stepOk_refl[of "(st, ?w)"] o by simp
  have o1: "oneChunk (currentLine st1)" using s1 by (rule stepOk_lastLine)
  have w1: "wordIndices st1 = ?w"
    unfolding st1_def
    using startNextLine_props(3)[where st="finalizeAppend P st" and P=P and ind="softIndent P"]
      finalizeAppend_props(4)[where st=st and P=P] by simp
  have l1: "lastLine (currentLine st1) = lastLine (currentLine st)"
    unfolding st1_def
    using startNextLine_props(8)[where st="finalizeAppend P st" and P=P and ind="softIndent P"]
      lineKept_props(4)[OF finalizeAppend_props(2)[where st=st and P=P]] by simp
  let ?c = "overflowWrap cr \<and> \<not> isAuto (inlineSize P)
            \<and> inlinePart (isHorizontalMode P) (wordAdvance st1) > customValue (inlineSize P)"
  let ?st1' = "st1\<lparr>wordAdvance := pnull, currentLine := (currentLine st1)\<lparr>firstLine := firstLine (currentLine st)\<rparr>\<rparr>"
  let ?f = "fold (overflowStep P) (wordIndices st1) (?st1', [])"
  define st2 where "st2 = (if ?c then (fst ?f)\<lparr>wordIndices := snd ?f\<rparr> else st1)"
  have eq: "st' = addWordToLine (isLtr P) st2"
    unfolding st'_def softBreakStep_def st2_def st1_def Let_def
    by (simp split: prod.splits)
  have s2: "stepOk [] (st1, ?w) (st2, wordIndices st2)"
    and l2: "lastLine (currentLine st2) = lastLine (currentLine st1)"
    and w2: "?w \<noteq> [] \<longrightarrow> wordIndices st2 \<noteq> [] \<and> last (wordIndices st2) = last ?w"
  proof -
    have o1': "oneChunk (currentLine (fst (?st1', ([]::nat list))))" using o1 by simp
    have "stepOk (wordIndices st1) (?st1', []) ?f" by (rule overflowFold_stepOk[OF o1'])
    then have "stepOk [] (?st1', wordIndices st1) (fst ?f, snd ?f)" by (simp add: stepOk_shift)
    then have a: "stepOk [] (st1, ?w) ((fst ?f)\<lparr>wordIndices := snd ?f\<rparr>, snd ?f)"
      by (simp add: stepOk_wordIndices w1 stepOk_def flatP_def)
    show "stepOk [] (st1, ?w) (st2, wordIndices st2)"
      unfolding st2_def using a stepOk_refl[of "(st1, ?w)"] o1 w1 by simp
    show "lastLine (currentLine st2) = lastLine (currentLine st1)"
      unfolding st2_def by (simp add: overflowFold_lastLine)
    show "?w \<noteq> [] \<longrightarrow> wordIndices st2 \<noteq> [] \<and> last (wordIndices st2) = last ?w"
      unfolding st2_def using overflowFold_last[of "wordIndices st1" P "(?st1', [])"] w1 by simp
  qed
  have o2: "oneChunk (currentLine st2)" using s2 by (rule stepOk_lastLine)
  note a = addWordToLine_stepOk[OF o2, of "isLtr P"]
  show "stepOk [] (st, wordIndices st) (st', wordIndices st')"
    unfolding eq using stepOk_trans[OF stepOk_trans[OF s1 s2] a(1)] by simp
  show "wordIndices st' = []" unfolding eq by (rule a(2))
  show "lastLine (currentLine st') = lastLine (currentLine st)" unfolding eq using a(4) l2 l1 by simp
  show "allIndices (currentLine st') \<noteq> [] \<and> last (allIndices (currentLine st')) = last (wordIndices st)"
    if "wordIndices st \<noteq> []"
    unfolding eq a(5) using w2 that by simp
qed

lemma hardBreakStep_props:
  fixes st :: LayoutState and P :: "'a TextProperties_scheme"
  defines "st' \<equiv> hardBreakStep P st"
  shows "stepOk [] (st, w) (st', w)"
    and "wordIndices st' = wordIndices st"
    and "lastLine (currentLine st') = lastLine (currentLine st)"
    and "lineBoxes st' = lineBoxes st @
           [currentLine (finalizeLine (textAnchor P) (writingMode P) (isLtr P) (\<not> isAuto (inlineSize P)) False st)]"
    and "allIndices (currentLine st') = []" and "isEmpty (currentLine st')"
  unfolding st'_def hardBreakStep_def
  using nextLine_stepOk[of st w P "hardIndent P"]
    startNextLine_props(2,3,7,8,9)[where st="finalizeAppend P st" and P=P and ind="hardIndent P"]
    finalizeAppend_props(1,4,6)[where st=st and P=P]
    lineKept_props(4)[OF finalizeAppend_props(2)[where st=st and P=P]]
  by simp_all

lemma lastLineStep_props:
  fixes st :: LayoutState and P :: "'a TextProperties_scheme"
  defines "st' \<equiv> lastLineStep P st"
  assumes o: "oneChunk (currentLine st)"
  shows "concat (map allIndices (lineBoxes st')) = flatP (st, wordIndices st)"
    and "resFrame (set (flatP (st, wordIndices st))) (result st) (result st')"
    and "\<exists>L. lineBoxes st' = lineBoxes st @ [L] \<and> L = currentLine st'
             \<and> allIndices L = allIndices (currentLine st) @ wordIndices st"
    and "wordIndices st' = []"
proof -
  define st1 where "st1 = (if wordIndices st \<noteq> [] then addWordToLine (isLtr P) st else st)"
  have eq: "st' = finalizeAppend P st1" by (simp add: st'_def lastLineStep_def st1_def)
  note a = addWordToLine_stepOk[OF o, of "isLtr P"]
  have s1: "stepOk [] (st, wordIndices st) (st1, [])" and w1: "wordIndices st1 = []"
    and lb: "lineBoxes st1 = lineBoxes st"
    and ai: "allIndices (currentLine st1) = allIndices (currentLine st) @ wordIndices st"
    unfolding st1_def using a stepOk_refl[of "(st, wordIndices st)"] o by auto
  note f = finalizeAppend_props[where st=st1 and P=P]
  have f1: "flatP (st1, []) = flatP (st, wordIndices st)" using s1 by (simp add: stepOk_def)
  have ai': "allIndices (currentLine (finalizeAppend P st1)) = allIndices (currentLine st1)"
    by (rule lineKept_props(1)[OF f(2)])
  have "concat (map allIndices (lineBoxes (finalizeAppend P st1)))
          = concat (map allIndices (lineBoxes st1)) @ allIndices (currentLine (finalizeAppend P st1))"
    by (subst f(1)) simp
  then show "concat (map allIndices (lineBoxes st')) = flatP (st, wordIndices st)"
    unfolding eq using f1 ai' by (simp add: flatP_def)
  have "resFrame (set (flatP (st, wordIndices st))) (result st) (result st1)"
    using s1 by (simp add: stepOk_def)
  moreover have "resFrame (set (flatP (st1, []))) (result st1) (result (finalizeAppend P st1))"
    by (rule resFrame_mono[OF f(3)]) (auto simp: flatP_def)
  ultimately show "resFrame (set (flatP (st, wordIndices st))) (result st) (result st')"
    unfolding eq f1 by (rule resFrame_trans) auto
  show "\<exists>L. lineBoxes st' = lineBoxes st @ [L] \<and> L = currentLine st'
             \<and> allIndices L = allIndices (currentLine st) @ wordIndices st"
    unfolding eq using f(1) lb ai ai' by simp
  show "wordIndices st' = []" unfolding eq f(4) by (rule w1)
qed

lemma wordStep_props:
  fixes st :: LayoutState and P :: "'a TextProperties_scheme" and sp index isLast cr
  defines "st2 \<equiv> wordStep P sp index isLast cr st"
  assumes o: "oneChunk (currentLine st)"
  shows "stepOk [index] (st, wordIndices st) (st2, wordIndices st2)"
    and "lastLine (currentLine st2) = isLast"
    and "breakType cr \<noteq> NoBreak \<or> isLast \<Longrightarrow>
           wordIndices st2 = [] \<and> allIndices (currentLine st2) \<noteq> []
           \<and> last (allIndices (currentLine st2)) = index"
    and "isAuto (inlineSize P) \<Longrightarrow> lineBoxes st2 = lineBoxes st"
proof -
  let ?st0 = "collectChar index isLast cr st"
  note c = collectChar_props[where st=st and index=index and isLast=isLast and cr=cr, OF o]
  have o0: "oneChunk (currentLine ?st0)" using c(1) by (rule stepOk_lastLine)
  obtain sb st1 where w: "wordOrBreak P sp cr ?st0 = (sb, st1)" by (cases "wordOrBreak P sp cr ?st0")
  note wp = wordOrBreak_props[OF o0 w]
  have o1: "oneChunk (currentLine st1)" using wp(1) by (rule stepOk_lastLine)
  note sp = softBreakStep_props[where st=st1 and P=P and cr=cr, OF o1]
  note a0 = addWordToLine_stepOk[OF o0, of "isLtr P"]
  have eq: "st2 = (if sb then softBreakStep P cr st1 else st1)"
    using w by (simp add: st2_def wordStep_def)
  show "stepOk [index] (st, wordIndices st) (st2, wordIndices st2)"
  proof (cases sb)
    case True
    then show ?thesis unfolding eq using stepOk_trans[OF stepOk_trans[OF c(1) wp(1)] sp(1)] by simp
  next
    case False
    then show ?thesis unfolding eq using stepOk_trans[OF c(1) wp(1)] by simp
  qed
  show "lastLine (currentLine st2) = isLast"
    unfolding eq using sp(3) wp(2) c(3) by simp
  show "wordIndices st2 = [] \<and> allIndices (currentLine st2) \<noteq> []
           \<and> last (allIndices (currentLine st2)) = index"
    if b: "breakType cr \<noteq> NoBreak \<or> isLast"
  proof (cases sb)
    case True
    then have "st1 = ?st0" using wp(4) by simp
    then have "wordIndices st1 = wordIndices st @ [index]" using c(2) by simp
    then show ?thesis unfolding eq using True sp(2) sp(4) by simp
  next
    case False
    then have "st1 = addWordToLine (isLtr P) ?st0" using wp(5) b c(3) by simp
    then show ?thesis unfolding eq using False a0(2) a0(5) c(2) by simp
  qed
  show "lineBoxes st2 = lineBoxes st" if "isAuto (inlineSize P)"
    unfolding eq using that wp(4) wp(3) c(4) by auto
qed

lemma breakLines_body_props:
  fixes st :: LayoutState and P :: "'a TextProperties_scheme" and sp index isLast
  defines "st' \<equiv> breakLines_body P sp index isLast st"
  assumes o: "oneChunk (currentLine st)" and a: "addressable (result st ! index)"
  shows "\<not> isLast \<Longrightarrow> stepOk [index] (st, wordIndices st) (st', wordIndices st')"
    and "isLast \<Longrightarrow> concat (map allIndices (lineBoxes st')) = flatP (st, wordIndices st) @ [index]
             \<and> resFrame (set (flatP (st, wordIndices st)) \<union> {index}) (result st) (result st')"
    and "isAuto (inlineSize P) \<Longrightarrow> breakType (result st ! index) \<noteq> HardBreak \<Longrightarrow>
           length (lineBoxes st') = (if isLast then Suc (length (lineBoxes st)) else length (lineBoxes st))"
proof -
  let ?cr = "result st ! index"
  let ?st2 = "wordStep P sp index isLast ?cr st"
  define st3 where "st3 = (if breakType ?cr = HardBreak then hardBreakStep P ?st2 else ?st2)"
  note w = wordStep_props[where st=st and P=P and sp=sp and index=index and isLast=isLast and cr="?cr", OF o]
  note h = hardBreakStep_props[where st="?st2" and P=P]
  have s3: "stepOk [index] (st, wordIndices st) (st3, wordIndices st3)"
    unfolding st3_def using w(1) stepOk_trans[OF w(1) h(1)[of "wordIndices ?st2"]] h(2) by simp
  have l3: "lastLine (currentLine st3) = isLast"
    unfolding st3_def using w(2) h(3) by simp
  have eq: "st' = (if isLast then lastLineStep P st3 else st3)"
    using a l3 by (simp add: st'_def breakLines_body_def Let_def st3_def)
  have o3: "oneChunk (currentLine st3)" using s3 by (rule stepOk_lastLine)
  note ll = lastLineStep_props[where st=st3 and P=P, OF o3]
  have f3: "flatP (st3, wordIndices st3) = flatP (st, wordIndices st) @ [index]"
    and r3: "resFrame (set (flatP (st, wordIndices st)) \<union> set [index]) (result st) (result st3)"
    using s3 by (simp_all add: stepOk_def)
  show "stepOk [index] (st, wordIndices st) (st', wordIndices st')" if "\<not> isLast"
    unfolding eq using that s3 by simp
  show "concat (map allIndices (lineBoxes st')) = flatP (st, wordIndices st) @ [index]
             \<and> resFrame (set (flatP (st, wordIndices st)) \<union> {index}) (result st) (result st')"
    if "isLast"
  proof -
    have "resFrame (set (flatP (st, wordIndices st)) \<union> {index}) (result st) (result (lastLineStep P st3))"
      by (rule resFrame_trans[OF r3 ll(2)]) (auto simp: f3)
    then show ?thesis unfolding eq using that ll(1) f3 by simp
  qed
  show "length (lineBoxes st') = (if isLast then Suc (length (lineBoxes st)) else length (lineBoxes st))"
    if "isAuto (inlineSize P)" "breakType (result st ! index) \<noteq> HardBreak"
  proof -
    have "lineBoxes st3 = lineBoxes st" unfolding st3_def using that w(4) by simp
    moreover obtain L where "lineBoxes (lastLineStep P st3) = lineBoxes st3 @ [L]" using ll(3) by blast
    ultimately show ?thesis unfolding eq by simp
  qed
qed

lemma breakLines_init_oneChunk: "oneChunk (currentLine (breakLines_init P res sp))"
  by (simp add: breakLines_init_def Let_def LineBox_startEnd_def LineBox_default_def oneChunk_def)

lemma breakLines_init_fields:
  "result (breakLines_init P res sp) = res"
  "lineBoxes (breakLines_init P res sp) = []"
  "flatP (breakLines_init P res sp, wordIndices (breakLines_init P res sp)) = []"
  by (simp_all add: breakLines_init_def Let_def LineBox_startEnd_def LineBox_default_def flatP_def
      allIndices_def LineChunk_default_def)


lemma breakLines_loop_props:
  fixes P :: "'a TextProperties_scheme"
  assumes "oneChunk (currentLine st)" and "distinct keys" and "keys \<noteq> []"
    and "\<forall>k\<in>set keys. k < length (result st) \<and> addressable (result st ! k)"
    and "set keys \<inter> set (flatP (st, wordIndices st)) = {}"
  shows "\<exists>st'. breakLines_loop P sp keys st = Inr st'
           \<and> concat (map allIndices (lineBoxes st')) = flatP (st, wordIndices st) @ keys
           \<and> resFrame (set (flatP (st, wordIndices st)) \<union> set keys) (result st) (result st')
           \<and> (isAuto (inlineSize P) \<and> (\<forall>k\<in>set keys. breakType (result st ! k) \<noteq> HardBreak)
                \<longrightarrow> length (lineBoxes st') = Suc (length (lineBoxes st)))"
  using assms
proof (induction keys arbitrary: st)
  case Nil
  then show ?case by simp
next
  case (Cons index rest)
  let ?F = "flatP (st, wordIndices st)"
  let ?b = "breakLines_body P sp index (rest = []) st"
  have rng: "index < length (result st)" and adr: "addressable (result st ! index)"
    using Cons.prems(4) by auto
  note bp = breakLines_body_props[where st=st and P=P and sp=sp and index=index and isLast="rest = []",
      OF Cons.prems(1) adr]
  show ?case
  proof (cases "rest = []")
    case True
    then show ?thesis using bp(2) bp(3) rng by auto
  next
    case False
    have s: "stepOk [index] (st, wordIndices st) (?b, wordIndices ?b)" using bp(1) False by simp
    have o': "oneChunk (currentLine ?b)" using s by (rule stepOk_lastLine)
    have f': "flatP (?b, wordIndices ?b) = ?F @ [index]"
      and r': "resFrame (set ?F \<union> set [index]) (result st) (result ?b)"
      using s by (simp_all add: stepOk_def)
    have same: "result ?b ! k = result st ! k" if "k \<in> set rest" for k
    proof -
      have "k \<notin> set ?F \<union> set [index]" using that Cons.prems(2,5) by auto
      then show ?thesis using r' by (simp add: resFrame_def)
    qed
    have len: "length (result ?b) = length (result st)" using r' by (simp add: resFrame_def)
    have p4: "\<forall>k\<in>set rest. k < length (result ?b) \<and> addressable (result ?b ! k)"
      using Cons.prems(4) same len by simp
    have p5: "set rest \<inter> set (flatP (?b, wordIndices ?b)) = {}"
      unfolding f' using Cons.prems(2,5) by auto
    obtain st' where st': "breakLines_loop P sp rest ?b = Inr st'"
      "concat (map allIndices (lineBoxes st')) = flatP (?b, wordIndices ?b) @ rest"
      "resFrame (set (flatP (?b, wordIndices ?b)) \<union> set rest) (result ?b) (result st')"
      "isAuto (inlineSize P) \<and> (\<forall>k\<in>set rest. breakType (result ?b ! k) \<noteq> HardBreak)
                \<longrightarrow> length (lineBoxes st') = Suc (length (lineBoxes ?b))"
      using Cons.IH[OF o' _ False p4 p5] Cons.prems(2) by auto
    have a: "breakLines_loop P sp (index # rest) st = Inr st'" using st'(1) rng by simp
    have b: "concat (map allIndices (lineBoxes st')) = ?F @ index # rest" using st'(2) f' by simp
    have c: "resFrame (set ?F \<union> set (index # rest)) (result st) (result st')"
      by (rule resFrame_trans[OF r' st'(3)]) (auto simp: f')
    have d: "length (lineBoxes st') = Suc (length (lineBoxes st))"
      if "isAuto (inlineSize P)" "\<forall>k\<in>set (index # rest). breakType (result st ! k) \<noteq> HardBreak"
    proof -
      have "length (lineBoxes ?b) = length (lineBoxes st)" using bp(3) that False by simp
      moreover have "\<forall>k\<in>set rest. breakType (result ?b ! k) \<noteq> HardBreak" using that(2) same by simp
      ultimately show ?thesis using st'(4) that(1) by simp
    qed
    show ?thesis using a b c d by blast
  qed
qed


section \<open>Shape flowing: searching a line for a word\<close>

lemma fold_addCandidate_noRoom:
  assumes "\<And>pt. \<not> containsRect p (rectTranslated word (psub pt (rectCenter word)))"
  shows "fold (addCandidate p word) pts cs = cs"
  by (induction pts arbitrary: cs) (simp_all add: addCandidate_def assms)

lemma inlineSizeOf_word:
  "inlineSizeOf h (rectTranslated (rectTranslated (rectNormalized wb) q) q') = \<bar>inlineSizeOf h wb\<bar>"
  by (auto simp: inlineSizeOf_def rectTranslated_def rectNormalized_def Let_def)

lemma getFirstPosition_noRoom:
  assumes "noRoom h \<bar>inlineSizeOf h wb\<bar> p"
  shows "getFirstPosition G p wb t mode ltr = None"
proof -
  let ?word = "rectTranslated (rectNormalized wb) (pneg (rectTopLeft wb))"
  have "\<not> containsRect p (rectTranslated ?word (psub pt (rectCenter ?word)))" for pt
    using assms inlineSizeOf_word[of h wb] by (simp add: noRoom_def)
  then have "fold (addCandidate p ?word) pts [] = []" for pts
    by (rule fold_addCandidate_noRoom)
  then show ?thesis by (simp add: getFirstPosition_def Let_def)
qed

lemma seekShapes_noRoom:
  assumes "noRoom h w (currentShape st)" and "\<forall>s\<in>set rest. noRoom h w s" and "\<bar>inlineSizeOf h wb\<bar> = w"
  shows "\<exists>ind' st'. seekShapes G P wb rest (ind, st) = (False, ind', st')
           \<and> result st' = result st \<and> wordIndices st' = wordIndices st
           \<and> lineBoxes st' = lineBoxes st"
  using assms
proof (induction rest arbitrary: ind st)
  case Nil
  then show ?case using getFirstPosition_noRoom[of h wb "currentShape st"] by simp
next
  case (Cons s rest)
  have g: "getFirstPosition G (currentShape st) wb (lineOffset st) (writingMode P) (isLtr P) = None"
    using Cons.prems getFirstPosition_noRoom[of h wb "currentShape st"] by simp
  let ?ti = "if isHorizontalMode P then (indentValue (textIndentInfo P), 0)
             else (0, indentValue (textIndentInfo P))"
  let ?ind = "if (if hanging (textIndentInfo P) then \<not> indentLine st else indentLine st) then ?ti else pnull"
  let ?st = "st\<lparr>currentShape := s, shapesRest := rest, flowTextIndent := ?ti,
                currentPos := shapeStart (writingMode P) s, lineOffset := shapeStart (writingMode P) s\<rparr>"
  have "\<exists>ind' st'. seekShapes G P wb rest (?ind, ?st) = (False, ind', st')
           \<and> result st' = result ?st \<and> wordIndices st' = wordIndices ?st
           \<and> lineBoxes st' = lineBoxes ?st"
    by (rule Cons.IH) (use Cons.prems in simp_all)
  then show ?case using g by (auto simp: Let_def)
qed

lemma hideWord_length [simp]: "length (hideWord w res) = length res"
  unfolding hideWord_def by (induction w arbitrary: res) simp_all

lemma hideWord_stays:
  "j < length res \<Longrightarrow> hidden (res ! j) \<Longrightarrow> hidden (hideWord w res ! j)"
  unfolding hideWord_def
proof (induction w arbitrary: res)
  case Nil then show ?case by simp
next
  case (Cons a w)
  have "hidden (res[a := (res ! a)\<lparr>hidden := True\<rparr>] ! j)"
    using Cons.prems by (cases "j = a") simp_all
  then show ?case using Cons.IH[of "res[a := (res ! a)\<lparr>hidden := True\<rparr>]"] Cons.prems by simp
qed

lemma hideWord_hidden:
  "j \<in> set w \<Longrightarrow> j < length res \<Longrightarrow> hidden (hideWord w res ! j)"
proof (induction w arbitrary: res)
  case Nil then show ?case by simp
next
  case (Cons a w)
  let ?r = "res[a := (res ! a)\<lparr>hidden := True\<rparr>]"
  have step: "hideWord (a # w) res = hideWord w ?r" by (simp add: hideWord_def)
  show ?case
  proof (cases "j = a")
    case True
    then have "hidden (?r ! j)" using Cons.prems by simp
    then show ?thesis using hideWord_stays[of j ?r w] Cons.prems step by simp
  next
    case False
    then have "j \<in> set w" using Cons.prems by simp
    then show ?thesis using Cons.IH[of ?r] Cons.prems step by simp
  qed
qed

lemma finalizeLine_flow:
  fixes st :: FlowState
  shows "wordBox (finalizeLine an wm l i t st) = wordBox st"
    and "currentShape (finalizeLine an wm l i t st) = currentShape st"
    and "shapesRest (finalizeLine an wm l i t st) = shapesRest st"
    and "indentLine (finalizeLine an wm l i t st) = indentLine st"
    and "flowFirstLine (finalizeLine an wm l i t st) = flowFirstLine st"
    and "flowTextIndent (finalizeLine an wm l i t st) = flowTextIndent st"
  by (simp_all add: finalizeLine_def Let_def split: prod.splits)

lemma finalizeLine_length:
  fixes st :: "'a LayoutState_scheme"
  shows "length (result (finalizeLine an wm l i t st)) = length (result st)"
  using finalizeLine_kept(1)[of st an wm l i t] by (simp add: resFrame_def)

lemma lineLength_swap: "lineLength \<lparr>p1 = p2 l, p2 = p1 l\<rparr> = lineLength l"
  by (simp add: lineLength_def algebra_simps)

lemma firstLongerChunk_none:
  "(\<forall>c\<in>set cs. \<not> lineLength (length_chunk c) > len) \<Longrightarrow> firstLongerChunk len i cs = None"
  by (induction cs arbitrary: i) simp_all

lemma LineBox_lines_lengths:
  "c \<in> set (chunks (LineBox_lines ls ltr ind)) \<Longrightarrow> \<exists>l\<in>set ls. lineLength (length_chunk c) = lineLength l"
  by (auto simp: LineBox_lines_def LineBox_default_def LineChunk_default_def lineLength_swap split: if_splits)

lemma getEstimatedHeight_inline:
  "inlineSizeOf (mode = HorizontalTB) (getEstimatedHeight res index wb bound mode)
     = inlineSizeOf (mode = HorizontalTB) wb"
  by (simp add: getEstimatedHeight_def inlineSizeOf_def rectSetTop_def rectSetBottom_def rectSetLeft_def
        rectSetRight_def Let_def split: prod.splits)

section \<open>Hard breaks in simple line breaking\<close>



section \<open>Text without hard breaks and without inline-size\<close>

text \<open>
  Claim C2, as the code has it. With inline-size \<^verbatim>\<open>auto\<close>, for the characters
  \<^verbatim>\<open>logicalToVisual.keys()\<close> that the layout pass hands to \<^verbatim>\<open>breakLines\<close> (distinct,
  in range, addressable) and none of them a hard break, the function returns exactly one
  line box when there is at least one such character, and no line box when there is none.
\<close>

theorem breakLines_auto_single_line:
  fixes P :: "'a TextProperties_scheme"
  assumes "isAuto (inlineSize P)" and "distinct keys"
    and "\<forall>k\<in>set keys. k < length res \<and> addressable (res ! k) \<and> breakType (res ! k) \<noteq> HardBreak"
  shows "\<exists>lb res'. breakLines P keys res startPos = Inr (lb, res')
           \<and> length lb = (if keys = [] then 0 else 1)"
proof (cases "keys = []")
  case True
  then show ?thesis by (simp add: breakLines_def breakLines_init_fields)
next
  case False
  let ?st = "breakLines_init P res startPos"
  have "\<exists>st'. breakLines_loop P startPos keys ?st = Inr st'
           \<and> concat (map allIndices (lineBoxes st')) = flatP (?st, wordIndices ?st) @ keys
           \<and> resFrame (set (flatP (?st, wordIndices ?st)) \<union> set keys) (result ?st) (result st')
           \<and> (isAuto (inlineSize P) \<and> (\<forall>k\<in>set keys. breakType (result ?st ! k) \<noteq> HardBreak)
                \<longrightarrow> length (lineBoxes st') = Suc (length (lineBoxes ?st)))"
    by (rule breakLines_loop_props[OF breakLines_init_oneChunk assms(2) False])
       (use assms(3) in \<open>simp_all add: breakLines_init_fields\<close>)
  then obtain st' where "breakLines_loop P startPos keys ?st = Inr st'"
    "length (lineBoxes st') = Suc (length (lineBoxes ?st))"
    using assms(1,3) by (auto simp: breakLines_init_fields)
  then show ?thesis using False by (simp add: breakLines_def breakLines_init_fields)
qed

theorem breakLines_auto_single_line_witness:
  "isAuto (inlineSize propsAuto) \<and> distinct [0, 1 :: nat]
   \<and> addressable (twoGlyphs ! 0) \<and> addressable (twoGlyphs ! 1)
   \<and> breakType (twoGlyphs ! 0) \<noteq> HardBreak \<and> breakType (twoGlyphs ! 1) \<noteq> HardBreak
   \<and> (case breakLines propsAuto [0, 1] twoGlyphs (0, 0) of Inr (lb, r) \<Rightarrow> length lb | Inl e \<Rightarrow> 0) = 1"
  using breakLines_auto_single_line [where P=propsAuto and keys="[0, 1]" and res=twoGlyphs and startPos="(0, 0)"]
  by (auto simp: example_defs)

text \<open>
  A buffer whose only character is collapsed white space has no hard break, and
  \<^verbatim>\<open>breakLines\<close> returns no line box for it.
\<close>

theorem breakLines_no_character_counterexample:
  "breakLines propsAuto [] [collapsedSpace] (0, 0) = Inr ([], [collapsedSpace])"
  by (simp add: breakLines_def breakLines_init_def Let_def)

section \<open>Characters and chunks\<close>

text \<open>
  Claim C3, as the code has it, for simple line breaking. When \<^verbatim>\<open>logicalToVisual.keys()\<close>
  are the characters addressable on entry, the chunk index lists of the returned line boxes,
  one after the other, are exactly these keys in order. So every character that is still
  addressable afterwards occurs exactly once, in one chunk of one line box, and the union of
  the chunk lists is the set of characters addressable on entry: it also holds the
  characters that \<^verbatim>\<open>addWordToLine\<close> or \<^verbatim>\<open>handleCollapseAndHang\<close> collapsed at a
  line edge, which are no longer addressable.
\<close>

theorem breakLines_chunks_hold_entry_addressable:
  fixes P :: "'a TextProperties_scheme"
  assumes "distinct keys" and "set keys = {k. k < length res \<and> addressable (res ! k)}"
  shows "\<exists>lb res'. breakLines P keys res startPos = Inr (lb, res')
           \<and> concat (map chunkIndices (concat (map chunks lb))) = keys
           \<and> length res' = length res
           \<and> (\<forall>k < length res'. addressable (res' ! k) \<longrightarrow>
                  count_list (concat (map chunkIndices (concat (map chunks lb)))) k = 1)"
proof -
  have fl: "concat (map chunkIndices (concat (map chunks lb))) = concat (map allIndices lb)" for lb
    by (induction lb) (simp_all add: allIndices_def)
  have cnt: "count_list keys k = 1" if "k \<in> set keys" for k
    using that assms(1) by (induction keys) auto
  show ?thesis
  proof (cases "keys = []")
    case True
    then have "\<forall>k<length res. \<not> addressable (res ! k)" using assms(2) by auto
    then show ?thesis using True by (simp add: breakLines_def breakLines_init_fields)
  next
    case False
    let ?st = "breakLines_init P res startPos"
    have "\<exists>st'. breakLines_loop P startPos keys ?st = Inr st'
           \<and> concat (map allIndices (lineBoxes st')) = flatP (?st, wordIndices ?st) @ keys
           \<and> resFrame (set (flatP (?st, wordIndices ?st)) \<union> set keys) (result ?st) (result st')
           \<and> (isAuto (inlineSize P) \<and> (\<forall>k\<in>set keys. breakType (result ?st ! k) \<noteq> HardBreak)
                \<longrightarrow> length (lineBoxes st') = Suc (length (lineBoxes ?st)))"
      by (rule breakLines_loop_props[OF breakLines_init_oneChunk assms(1) False])
         (use assms(2) in \<open>auto simp: breakLines_init_fields\<close>)
    then obtain st' where st': "breakLines_loop P startPos keys ?st = Inr st'"
      "concat (map allIndices (lineBoxes st')) = keys"
      "resFrame (set keys) res (result st')"
      by (auto simp: breakLines_init_fields)
    have "count_list keys k = 1" if "k < length (result st')" "addressable (result st' ! k)" for k
    proof -
      have "k < length res" "addressable (res ! k)" using that st'(3) by (auto simp: resFrame_def)
      then show ?thesis using cnt assms(2) by simp
    qed
    then show ?thesis using st' by (simp add: breakLines_def fl resFrame_def)
  qed
qed

theorem breakLines_chunks_hold_entry_addressable_witness:
  "distinct [0, 1 :: nat] \<and> set [0, 1] = {k. k < length twoGlyphs \<and> addressable (twoGlyphs ! k)}
   \<and> (case breakLines propsAuto [0, 1] twoGlyphs (0, 0) of
         Inr (lb, r) \<Rightarrow> concat (map chunkIndices (concat (map chunks lb))) | Inl e \<Rightarrow> []) = [0, 1]"
proof -
  have s: "set [0, 1] = {k. k < length twoGlyphs \<and> addressable (twoGlyphs ! k)}"
    by (auto simp: example_defs less_Suc_eq)
  show ?thesis
    using breakLines_chunks_hold_entry_addressable [where P=propsAuto and keys="[0, 1]" and res=twoGlyphs
        and startPos="(0, 0)", OF _ s] s
    by auto
qed

text \<open>
  In \<^verbatim>\<open>AB\<close>, line feed, \<^verbatim>\<open>CD\<close> the line feed (index 2) is in the chunk of the first
  line box and is not addressable after line breaking.
\<close>

theorem breakLines_collapsed_in_chunk_counterexample:
  "(case breakLines propsAuto [0, 1, 2, 3, 4] sampleText (0, 0) of
      Inr (lb, res') \<Rightarrow> map (map chunkIndices \<circ> chunks) lb = [[[0, 1, 2]], [[3, 4]]]
                        \<and> map addressable res' = [True, True, False, True, True]
    | Inl e \<Rightarrow> False)"
  by (simp add: break_defs line_defs geom_defs example_defs Let_def)


section \<open>A word that no shape has room for\<close>

lemma flowFinishLine_props:
  "wordBox (flowFinishLine P st) = wordBox st"
  "currentShape (flowFinishLine P st) = currentShape st"
  "shapesRest (flowFinishLine P st) = shapesRest st"
  "wordIndices (flowFinishLine P st) = wordIndices st"
  "length (result (flowFinishLine P st)) = length (result st)"
  by (simp_all add: flowFinishLine_def Let_def finalizeLine_flow finalizeLine_kept finalizeLine_length)

lemma flowOffsetLine_noLongLine:
  assumes "shapeIsEmpty (currentShape st)
           \<or> noLongLine G (isHorizontalMode P) (writingMode P)
                (inlineSizeOf (isHorizontalMode P) (wordBox st)) (currentShape st)"
  shows "\<exists>ind st'. flowOffsetLine G P index st = (False, ind, st')
           \<and> inlineSizeOf (isHorizontalMode P) (wordBox st') = inlineSizeOf (isHorizontalMode P) (wordBox st)
           \<and> currentShape st' = currentShape st \<and> shapesRest st' = shapesRest st
           \<and> wordIndices st' = wordIndices st \<and> result st' = result st"
proof -
  let ?h = "isHorizontalMode P"
  let ?wb = "getEstimatedHeight (result st) index (wordBox st) (shapeBoundingRect (currentShape st))
               (writingMode P)"
  have w: "inlineSizeOf ?h ?wb = inlineSizeOf ?h (wordBox st)"
    using getEstimatedHeight_inline[of "writingMode P"] by (simp add: isHorizontalMode_def)
  show ?thesis
  proof (cases "shapeIsEmpty (currentShape st)")
    case True
    then show ?thesis using w by (simp add: flowOffsetLine_def Let_def)
  next
    case False
    then have n: "noLongLine G ?h (writingMode P) (inlineSizeOf ?h (wordBox st)) (currentShape st)"
      using assms by simp
    let ?pos = "psub (currentPos st)
                  (if writingMode P = VerticalRL then rectTopRight ?wb else rectTopLeft ?wb)"
    let ?line = "LineBox_lines (findLineBoxesForFirstPos G (currentShape st) ?pos ?wb (writingMode P))
                   (isLtr P)
                   (if (if hanging (textIndentInfo P) then \<not> indentLine st else indentLine st)
                    then flowTextIndent st else pnull)"
    have "\<not> lineLength (length_chunk c) > inlineSizeOf ?h ?wb" if c: "c \<in> set (chunks ?line)" for c
    proof -
      obtain l where l: "l \<in> set (findLineBoxesForFirstPos G (currentShape st) ?pos ?wb (writingMode P))"
        "lineLength (length_chunk c) = lineLength l"
        using LineBox_lines_lengths[OF c] by blast
      show ?thesis using n l w unfolding noLongLine_def by metis
    qed
    then have "firstLongerChunk (if ?h then rw ?wb else rh ?wb) 0 (chunks ?line) = None"
      by (intro firstLongerChunk_none) (simp add: inlineSizeOf_def)
    then show ?thesis using False w by (simp add: flowOffsetLine_def Let_def)
  qed
qed

text \<open>
  Claim C9, as the code has it. \<^verbatim>\<open>flowTextInShapes\<close> never reads \<^verbatim>\<open>overflowWrap\<close>.
  At a soft break, when the current shape is empty or offers no line longer than the word,
  and neither it nor any shape that follows contains a rectangle of the word's size along
  the inline axis, the current line is replaced by an empty \<^verbatim>\<open>LineBox\<close>, so the word is
  in no chunk of it, and every character of the word is marked hidden, whatever its
  \<^verbatim>\<open>overflowWrap\<close> is.
\<close>

theorem flowSeek_hides_word_without_room:
  assumes "shapeIsEmpty (currentShape st)
           \<or> noLongLine G (isHorizontalMode P) (writingMode P)
                (inlineSizeOf (isHorizontalMode P) (wordBox st)) (currentShape st)"
    and "\<forall>s\<in>insert (currentShape st) (set (shapesRest st)).
           noRoom (isHorizontalMode P) \<bar>inlineSizeOf (isHorizontalMode P) (wordBox st)\<bar> s"
  shows "currentLine (flowSeek G P index st) = LineBox_default
         \<and> allIndices (currentLine (flowSeek G P index st)) = []
         \<and> wordIndices (flowSeek G P index st) = wordIndices st
         \<and> length (result (flowSeek G P index st)) = length (result st)
         \<and> (\<forall>j\<in>set (wordIndices st). j < length (result st)
               \<longrightarrow> hidden (result (flowSeek G P index st) ! j))"
proof -
  let ?h = "isHorizontalMode P"
  let ?st1 = "flowFinishLine P st"
  have a1: "shapeIsEmpty (currentShape ?st1)
            \<or> noLongLine G ?h (writingMode P) (inlineSizeOf ?h (wordBox ?st1)) (currentShape ?st1)"
    using assms(1) by (simp add: flowFinishLine_props)
  obtain ind st3 where o: "flowOffsetLine G P index ?st1 = (False, ind, st3)"
    and w3: "inlineSizeOf ?h (wordBox st3) = inlineSizeOf ?h (wordBox st)"
    and s3: "currentShape st3 = currentShape st" "shapesRest st3 = shapesRest st"
    and r3: "wordIndices st3 = wordIndices st" "result st3 = result ?st1"
    using flowOffsetLine_noLongLine[OF a1, of index] by (auto simp: flowFinishLine_props)
  have "\<exists>ind' st'. seekShapes G P (wordBox st3) (shapesRest st3) (ind, st3) = (False, ind', st')
           \<and> result st' = result st3 \<and> wordIndices st' = wordIndices st3
           \<and> lineBoxes st' = lineBoxes st3"
    by (rule seekShapes_noRoom[where h="?h" and w="\<bar>inlineSizeOf ?h (wordBox st)\<bar>"])
       (use assms(2) s3 w3 in simp_all)
  then obtain ind' st4 where
    k: "seekShapes G P (wordBox st3) (shapesRest st3) (ind, st3) = (False, ind', st4)"
    and r4: "result st4 = result st3" "wordIndices st4 = wordIndices st3"
    by blast
  have eq: "flowSeek G P index st
            = st4\<lparr>currentLine := LineBox_default, result := hideWord (wordIndices st4) (result st4)\<rparr>"
    by (simp add: flowSeek_def o k)
  have len: "length (result st4) = length (result st)"
    using r4 r3 by (simp add: flowFinishLine_props)
  have "hidden (hideWord (wordIndices st4) (result st4) ! j)"
    if "j \<in> set (wordIndices st)" "j < length (result st)" for j
    using that hideWord_hidden[of j "wordIndices st4" "result st4"] r4 r3 len by simp
  then show ?thesis using eq r4 r3 len by (simp add: LineBox_default_def allIndices_def)
qed

lemma wordPending_noRoom: "noRoom True 20 emptyShape" "noRoom True 20 narrowShape"
  by (auto simp: noRoom_def emptyShape_def narrowShape_def inlineSizeOf_def)

theorem flowSeek_hides_word_without_room_witness:
  "shapeIsEmpty (currentShape wordPending)
   \<and> noRoom True 20 emptyShape \<and> noRoom True 20 narrowShape
   \<and> currentLine (flowSeek narrowGeometry flowProps 1 wordPending) = LineBox_default
   \<and> map hidden (result (flowSeek narrowGeometry flowProps 1 wordPending)) = [True, True]"
proof -
  have e: "shapeIsEmpty (currentShape wordPending)"
    by (simp add: wordPending_def emptyShape_def)
  have r: "\<forall>s\<in>insert (currentShape wordPending) (set (shapesRest wordPending)).
             noRoom (isHorizontalMode flowProps)
               \<bar>inlineSizeOf (isHorizontalMode flowProps) (wordBox wordPending)\<bar> s"
    using wordPending_noRoom
    by (simp add: wordPending_def flowProps_def isHorizontalMode_def inlineSizeOf_def)
  have l: "result wordPending = [glyph, glyph\<lparr>visualIndex := 1\<rparr>]" "wordIndices wordPending = [0, 1]"
    by (simp_all add: wordPending_def twoGlyphs_def)
  have "length (result (flowSeek narrowGeometry flowProps 1 wordPending)) = 2
        \<and> hidden (result (flowSeek narrowGeometry flowProps 1 wordPending) ! 0)
        \<and> hidden (result (flowSeek narrowGeometry flowProps 1 wordPending) ! 1)
        \<and> currentLine (flowSeek narrowGeometry flowProps 1 wordPending) = LineBox_default"
    using flowSeek_hides_word_without_room [where st=wordPending and P=flowProps and G=narrowGeometry
        and index=1, OF disjI1 [OF e] r] l
    by simp
  then have "map hidden (result (flowSeek narrowGeometry flowProps 1 wordPending)) = [True, True]
             \<and> currentLine (flowSeek narrowGeometry flowProps 1 wordPending) = LineBox_default"
    by (cases "result (flowSeek narrowGeometry flowProps 1 wordPending)" rule: list.exhaust)
       (auto simp: length_Suc_conv)
  then show ?thesis using e wordPending_noRoom by simp
qed

text \<open>
  The two characters of \<open>twoGlyphs\<close>, each 10 wide with \<^verbatim>\<open>overflowWrap\<close> false and no
  break between them, flowed into the rectangle 10 wide: the word box is 20 wide, none of
  the twenty intersection points of the offset lines is in the shape, the only line box
  returned has no chunk and both characters are hidden.
\<close>

theorem flow_oversized_word_hidden_counterexample:
  "map overflowWrap twoGlyphs = [False, False] \<and> map breakType twoGlyphs = [NoBreak, NoBreak]
   \<and> (case flowTextInShapes narrowGeometry flowProps [0, 1] twoGlyphs [narrowShape] of
        Inr (lb, res') \<Rightarrow> map chunks lb = [[]] \<and> map hidden res' = [True, True]
                          \<and> map addressable res' = [True, True]
      | Inl e \<Rightarrow> False)"
proof -
  let ?s0 = "(flow_init flowProps twoGlyphs [narrowShape])\<lparr>wordIndices := [0], wordAdvance := (10, 0),
       wordBox := \<lparr>rx = 0, ry = - 8, rw = 10, rh = 10\<rparr>\<rparr>"
  let ?s3 = "wordPending\<lparr>currentLine := LineBox_default,
       result := map (\<lambda>c. c\<lparr>hidden := True\<rparr>) twoGlyphs, currentShape := narrowShape, shapesRest := []\<rparr>"
  have b0: "flow_body narrowGeometry flowProps 0 False (flow_init flowProps twoGlyphs [narrowShape]) = ?s0"
    by (simp add: flow_defs flow_example_defs line_defs geom_defs example_defs Let_def)
  have c1: "flowCollect flowProps 1 True (twoGlyphs ! 1) ?s0
            = wordPending\<lparr>currentLine := LineBox_default\<lparr>lastLine := True\<rparr>\<rparr>"
    by (simp add: flow_defs flow_example_defs line_defs geom_defs example_defs Let_def)
  have p1: "flowPlace flowProps (twoGlyphs ! 1) (wordPending\<lparr>currentLine := LineBox_default\<lparr>lastLine := True\<rparr>\<rparr>)
            = (True, wordPending)"
    by (simp add: flow_defs flow_example_defs line_defs geom_defs example_defs lineLength_def Let_def)
  have k1: "flowSeek narrowGeometry flowProps 1 wordPending = ?s3"
    by (simp add: flow_defs flow_example_defs line_defs geom_defs example_defs lineLength_def Let_def)
  have r0: "result ?s0 = twoGlyphs" by (simp add: flow_init_def)
  have b1: "flow_body narrowGeometry flowProps 1 True ?s0 = ?s3"
    unfolding flow_body_def r0 Let_def c1 p1 using k1 by (simp add: twoGlyphs_def glyph_def)
  have l: "flow_loop narrowGeometry flowProps [0, 1] (flow_init flowProps twoGlyphs [narrowShape]) = Inr ?s3"
    using b0 b1 by (simp add: r0 flow_init_def twoGlyphs_def)
  have f: "map chunks (lineBoxes (finalizeLine (flowAnchor flowProps) (writingMode flowProps)
                 (isLtr flowProps) True True ?s3)
               @ [currentLine (finalizeLine (flowAnchor flowProps) (writingMode flowProps)
                 (isLtr flowProps) True True ?s3)]) = [[]]"
    by (simp add: flow_defs flow_example_defs line_defs geom_defs example_defs Let_def)
  have g: "result (finalizeLine (flowAnchor flowProps) (writingMode flowProps)
                 (isLtr flowProps) True True ?s3) = map (\<lambda>c. c\<lparr>hidden := True\<rparr>) twoGlyphs"
    by (simp add: flow_defs flow_example_defs line_defs geom_defs example_defs Let_def)
  have e: "flowTextInShapes narrowGeometry flowProps [0, 1] twoGlyphs [narrowShape]
           = Inr (lineBoxes (finalizeLine (flowAnchor flowProps) (writingMode flowProps)
                    (isLtr flowProps) True True ?s3)
                  @ [currentLine (finalizeLine (flowAnchor flowProps) (writingMode flowProps)
                    (isLtr flowProps) True True ?s3)],
                  map (\<lambda>c. c\<lparr>hidden := True\<rparr>) twoGlyphs)"
    unfolding flowTextInShapes_def l by (simp add: Let_def g)
  show ?thesis
    unfolding e using f by (simp add: twoGlyphs_def glyph_def)
qed

section \<open>Italic synthesis\<close>

text \<open>
  Claim C8. A shear is applied to a glyph exactly when the character's font style is not
  normal and the face has no italic style flag, and the glyph is an outline or a bitmap; a
  face with the italic flag is never sheared. For an outline the oblique matrix is the shear
  by \<open>SLANT_14DEG\<close> (along x in horizontal mode, by its negative along y in vertical mode)
  and enters the outline transform between the glyph offset and the font-unit transform; for
  a bitmap the image transform is the shear by \<open>SLANT_BITMAP = 0.25\<close> about the baseline
  point. The bitmap constant is slightly larger than the outline constant.
\<close>

theorem italic_synthesis:
  fixes format style italicFace isHorizontal ftTF offset bitmapTop imageWidth
  defines "g \<equiv> synthesizeItalic format style italicFace isHorizontal ftTF offset bitmapTop imageWidth"
  shows "(glyphObliqueTf g \<noteq> tfIdentity \<longleftrightarrow>
            format = FT_GLYPH_FORMAT_OUTLINE \<and> style \<noteq> StyleNormal \<and> \<not> italicFace)
       \<and> (bitmapTf g \<noteq> None \<longleftrightarrow>
            format = FT_GLYPH_FORMAT_BITMAP \<and> style \<noteq> StyleNormal \<and> \<not> italicFace)
       \<and> (format = FT_GLYPH_FORMAT_OUTLINE \<and> style \<noteq> StyleNormal \<and> \<not> italicFace \<longrightarrow>
            glyphObliqueTf g = (if isHorizontal then tfShear SLANT_14DEG 0 else tfShear 0 (- SLANT_14DEG))
            \<and> outlineGlyphTf g = tfMul (tfMul (tfTranslate (fst offset) (snd offset)) (glyphObliqueTf g)) ftTF)
       \<and> (format = FT_GLYPH_FORMAT_OUTLINE \<and> \<not> (style \<noteq> StyleNormal \<and> \<not> italicFace) \<longrightarrow>
            outlineGlyphTf g = tfMul (tfTranslate (fst offset) (snd offset)) ftTF)
       \<and> (format = FT_GLYPH_FORMAT_BITMAP \<and> style \<noteq> StyleNormal \<and> \<not> italicFace \<longrightarrow>
            (\<exists>t. bitmapTf g = Some t
               \<and> shearOf t = (if isHorizontal then (- SLANT_BITMAP, 0) else (0, SLANT_BITMAP))
               \<and> m11 t = 1 \<and> m22 t = 1))
       \<and> SLANT_14DEG = 0.24932800284318069162403993780486 \<and> SLANT_BITMAP = 0.25
       \<and> SLANT_14DEG < SLANT_BITMAP"
  unfolding g_def
  by (auto simp: synthesizeItalic_def needsOblique_def Let_def tf_defs SLANT_14DEG_def SLANT_BITMAP_def)

theorem italic_synthesis_witness:
  "glyphObliqueTf (synthesizeItalic FT_GLYPH_FORMAT_OUTLINE StyleItalic False True (tfScale (1 / 64) (- (1 / 64))) (0, 0) 0 0)
     = tfShear SLANT_14DEG 0
   \<and> glyphObliqueTf (synthesizeItalic FT_GLYPH_FORMAT_OUTLINE StyleItalic True True (tfScale (1 / 64) (- (1 / 64))) (0, 0) 0 0)
     = tfIdentity
   \<and> bitmapTf (synthesizeItalic FT_GLYPH_FORMAT_BITMAP StyleOblique False True (tfScale (1 / 64) (- (1 / 64))) (0, 0) 12 8)
     = Some \<lparr>m11 = 1, m12 = 0, m21 = - (1 / 4), m22 = 1, tdx = 3, tdy = 0\<rparr>"
  using italic_synthesis [of FT_GLYPH_FORMAT_OUTLINE StyleItalic False True "tfScale (1 / 64) (- (1 / 64))" "(0, 0)" 0 0]
    italic_synthesis [of FT_GLYPH_FORMAT_OUTLINE StyleItalic True True "tfScale (1 / 64) (- (1 / 64))" "(0, 0)" 0 0]
  by (simp add: synthesizeItalic_def needsOblique_def Let_def tf_defs SLANT_14DEG_def SLANT_BITMAP_def)

section \<open>Hard breaks before shaping\<close>

lemma replaceHardBreaks_fold:
  "n \<le> length t \<Longrightarrow>
   length (fold (\<lambda>i t. if lb ! i = LINEBREAK_MUSTBREAK then t[i := QChar_Space] else t) [0..<n] t) = length t
   \<and> (\<forall>i<length t. fold (\<lambda>i t. if lb ! i = LINEBREAK_MUSTBREAK then t[i := QChar_Space] else t) [0..<n] t ! i
         = (if i < n \<and> lb ! i = LINEBREAK_MUSTBREAK then QChar_Space else t ! i))"
proof (induction n)
  case 0
  then show ?case by simp
next
  case (Suc n)
  then show ?case by (auto simp: nth_list_update less_Suc_eq)
qed

lemma replaceHardBreaks_nth:
  "length (replaceHardBreaks lb t) = length t"
  "i < length t \<Longrightarrow> replaceHardBreaks lb t ! i = (if lb ! i = LINEBREAK_MUSTBREAK then QChar_Space else t ! i)"
  using replaceHardBreaks_fold[of "length t" t lb] by (simp_all add: replaceHardBreaks_def)

lemma classifyChunk_fold:
  fixes f :: "nat \<Rightarrow> CharacterResult \<Rightarrow> CharacterResult"
  shows "start + n \<le> length res \<Longrightarrow>
   length (fold (\<lambda>i r. r[start + i := f i (r ! (start + i))]) [0..<n] res) = length res
   \<and> (\<forall>j<length res. fold (\<lambda>i r. r[start + i := f i (r ! (start + i))]) [0..<n] res ! j
         = (if start \<le> j \<and> j < start + n then f (j - start) (res ! j) else res ! j))"
proof (induction n)
  case 0
  then show ?case by auto
next
  case (Suc n)
  then show ?case by (auto simp: nth_list_update less_Suc_eq)
qed

lemma classifyChunk_nth:
  assumes "start + n \<le> length res"
  shows "length (classifyChunk E C buf lb gb js start n res) = length res"
    and "k < n \<Longrightarrow> classifyChunk E C buf lb gb js start n res ! (start + k)
           = classifyChar E C (buf ! (start + k)) (lb ! (start + k)) (gb ! (start + k))
               (justifyAt js (start + k)) k (res ! (start + k))"
  using classifyChunk_fold[OF assms, of "\<lambda>i. classifyChar E C (buf ! (start + i)) (lb ! (start + i))
      (gb ! (start + i)) (justifyAt js (start + i)) i"] assms
  by (simp_all add: classifyChunk_def)

lemma classifyChar_hard:
  "lbk = LINEBREAK_MUSTBREAK \<Longrightarrow> breakType (classifyChar E C c lbk gbk cj i cr) = HardBreak
     \<and> lineEnd (classifyChar E C c lbk gbk cj i cr) = Collapse
     \<and> lineStart (classifyChar E C c lbk gbk cj i cr) = Collapse"
  "breakType cr \<noteq> HardBreak \<Longrightarrow>
     breakType (classifyChar E C c lbk gbk cj i cr) = HardBreak \<longleftrightarrow> lbk = LINEBREAK_MUSTBREAK"
  by (auto simp: classifyChar_def Let_def)

lemma hard_update:
  assumes "breakType (r ! j) = HardBreak"
    and "breakType (r ! i) = HardBreak \<longrightarrow> breakType c = HardBreak"
  shows "breakType (r[i := c] ! j) = HardBreak"
  using assms by (cases "i = j"; cases "i < length r") (auto simp: list_update_beyond)

lemma markMiddleStep_hard:
  assumes "markMiddleStep i (fc, sa, r) = (fc', sa', r')"
  shows "length r' = length r"
    and "breakType (r ! j) = HardBreak \<Longrightarrow> breakType (r' ! j) = HardBreak"
proof -
  show "length r' = length r" using assms
    by (auto simp: markMiddleStep_def Let_def split: if_splits)
  show "breakType (r' ! j) = HardBreak" if h: "breakType (r ! j) = HardBreak"
    using assms h
    by (auto simp: markMiddleStep_def Let_def split: if_splits intro!: hard_update)
qed

lemma markMiddle_fold_hard:
  "breakType (r ! j) = HardBreak \<Longrightarrow>
   breakType (snd (snd (fold markMiddleStep xs (fc, sa, r))) ! j) = HardBreak
   \<and> length (snd (snd (fold markMiddleStep xs (fc, sa, r)))) = length r"
proof (induction xs arbitrary: fc sa r)
  case Nil
  then show ?case by simp
next
  case (Cons x xs)
  obtain fc' sa' r' where s: "markMiddleStep x (fc, sa, r) = (fc', sa', r')"
    by (cases "markMiddleStep x (fc, sa, r)") auto
  show ?case using Cons.IH[of r' fc' sa'] markMiddleStep_hard[OF s] Cons.prems by (simp add: s)
qed

lemma markMiddle_hard:
  "breakType (r ! j) = HardBreak \<Longrightarrow> breakType (markMiddle r ! j) = HardBreak"
  using markMiddle_fold_hard[of r j "[0..<length r]" 0 False] by (simp add: markMiddle_def)

text \<open>
  Claim C7. The text handed to the shaper has a space at every index that the break
  library marked as a mandatory break and the original character elsewhere. The break
  classes are read from \<^verbatim>\<open>lineBreaks\<close>, which the substitution does not touch: a
  character of a sub-chunk at such an index gets break type \<open>HardBreak\<close> (and collapses
  at both line edges), it keeps \<open>HardBreak\<close> through the loop that marks the middles of
  clusters, which is the last writer of break types before line breaking, and a character
  whose result was not a hard break before becomes one only at such an index.
\<close>

theorem hardBreaks_replaced_and_kept:
  fixes E :: ClassifyEnv and C :: SubChunkProps
    and buffer lineBreaks graphemeBreaks justify start n res
  defines "text' \<equiv> replaceHardBreaks lineBreaks buffer"
  defines "res' \<equiv> classifyChunk E C text' lineBreaks graphemeBreaks justify start n res"
  assumes "length lineBreaks = length buffer" and "length res = length buffer"
    and "start + n \<le> length buffer" and "k < n"
  shows "length text' = length buffer
       \<and> (\<forall>i<length buffer. text' ! i = (if lineBreaks ! i = LINEBREAK_MUSTBREAK then QChar_Space else buffer ! i))
       \<and> (lineBreaks ! (start + k) = LINEBREAK_MUSTBREAK \<longrightarrow>
            text' ! (start + k) = QChar_Space
            \<and> breakType (res' ! (start + k)) = HardBreak
            \<and> lineEnd (res' ! (start + k)) = Collapse \<and> lineStart (res' ! (start + k)) = Collapse
            \<and> breakType (markMiddle res' ! (start + k)) = HardBreak)
       \<and> (breakType (res ! (start + k)) \<noteq> HardBreak \<longrightarrow>
            (breakType (res' ! (start + k)) = HardBreak \<longleftrightarrow> lineBreaks ! (start + k) = LINEBREAK_MUSTBREAK))"
proof -
  have r: "start + n \<le> length res" using assms by simp
  note c = classifyChunk_nth(2)[OF r assms(6), where E=E and C=C and buf=text' and lb=lineBreaks
      and gb=graphemeBreaks and js=justify, folded res'_def]
  have k: "start + k < length buffer" using assms by simp
  show ?thesis
    using replaceHardBreaks_nth[where lb=lineBreaks and t=buffer] k
    by (auto simp: text'_def c classifyChar_hard markMiddle_hard)
qed

theorem hardBreaks_replaced_and_kept_witness:
  "length letterFeedBreaks = length letterFeed
   \<and> length [CharacterResult_default, CharacterResult_default] = length letterFeed
   \<and> 0 + 2 \<le> length letterFeed \<and> (1::nat) < 2
   \<and> letterFeedBreaks ! (0 + 1) = LINEBREAK_MUSTBREAK
   \<and> replaceHardBreaks letterFeedBreaks letterFeed ! (0 + 1) = QChar_Space
   \<and> breakType (classifyChunk plainEnv plainChunk (replaceHardBreaks letterFeedBreaks letterFeed)
                    letterFeedBreaks [GRAPHEMEBREAK_BREAK, GRAPHEMEBREAK_BREAK] [] 0 2
                    [CharacterResult_default, CharacterResult_default] ! (0 + 1)) = HardBreak"
proof -
  have h1: "length letterFeedBreaks = length letterFeed"
    and h2: "length [CharacterResult_default, CharacterResult_default] = length letterFeed"
    and h3: "0 + 2 \<le> length letterFeed" and h4: "(1::nat) < 2"
    and m: "letterFeedBreaks ! (0 + 1) = LINEBREAK_MUSTBREAK"
    by (simp_all add: letterFeed_def letterFeedBreaks_def)
  note th = hardBreaks_replaced_and_kept [where E=plainEnv and C=plainChunk
      and graphemeBreaks="[GRAPHEMEBREAK_BREAK, GRAPHEMEBREAK_BREAK]" and justify="[]", OF h1 h2 h3 h4]
  show ?thesis using th m h1 h2 h3 h4 by blast
qed

section \<open>The textLength stage without textLength\<close>





text \<open>With \<^verbatim>\<open>textLength\<close> 30 on the same two characters the second one moves by 10.\<close>

lemma applyTextLength_set_example:
  "applyTextLength True runLength30 (twoPlaced, 0, 0)
     = Inr ([glyph\<lparr>anchored_chunk := True, textLengthApplied := True\<rparr>,
             glyph\<lparr>visualIndex := 1, finalPosition := (20, 0), textLengthApplied := True\<rparr>], 2, 1)"
  by (simp add: runLength30_def twoPlaced_def glyph_def adjustRun_def measureStep_def adjustStep_def
      shiftAfter_def Let_def geom_defs upt_rec)

section \<open>Text on a closed path\<close>








end
